(* ===== verification/Prelude.thy ===== *)
theory Prelude
  imports Main "HOL-Library.Word" "HOL-Library.AList"
begin

text \<open>
  Shared vocabulary of the development: the Go machine types the SDK computes with
  (64-bit durations that wrap, instants, byte strings, fallible results, maps with a
  length), the lemma collections the component theories extend, and the generic lemmas
  on association lists and traces they share.
  \<^item> \<open>time\<close> is a \<open>time.Time\<close> as nanoseconds since the Unix epoch, unbounded as Go's wall
    clock is for practical purposes; \<open>duration\<close> is a \<open>time.Duration\<close>, an \<open>int64\<close> count of
    nanoseconds whose arithmetic wraps (\<open>wrap64\<close>); \<open>Time.Sub\<close> saturates (\<open>time_sub\<close>).
  \<^item> a Go \<open>string\<close> or \<open>[]byte\<close> is a \<open>char list\<close>, one \<open>char\<close> per byte.
  \<^item> a Go map whose length or contents are inspected is an association list kept
    duplicate free by \<open>AList.update\<close> and \<open>AList.delete\<close>.
  \<^item> a result \<open>(value, error)\<close> is a sum, \<open>Inl\<close> the error.
\<close>

named_theorems go_defs \<open>definitions of the model that the component proofs unfold\<close>
named_theorems replay_simps \<open>facts about single-use stores\<close>

section \<open>Machine integers, durations, instants\<close>

type_synonym bytes = string
type_synonym time = int
type_synonym duration = int

definition max_int64 :: int where "max_int64 = 9223372036854775807"
definition min_int64 :: int where "min_int64 = -9223372036854775808"

definition wrap64 :: "int \<Rightarrow> int" where
  "wrap64 x = sint (word_of_int x :: 64 word)"

definition in_int64 :: "int \<Rightarrow> bool" where
  "in_int64 x \<longleftrightarrow> min_int64 \<le> x \<and> x \<le> max_int64"

lemma wrap64_in_range: "in_int64 (wrap64 x)"
  using sint_lt [of "word_of_int x :: 64 word"] sint_ge [of "word_of_int x :: 64 word"]
  by (simp add: in_int64_def wrap64_def min_int64_def max_int64_def)

lemma wrap64_eq: "wrap64 x = (x + 9223372036854775808) mod 18446744073709551616 - 9223372036854775808"
  by (simp add: wrap64_def sint_sbintrunc' signed_take_bit_eq_take_bit_shift take_bit_eq_mod)

lemma wrap64_id [simp]: "in_int64 x \<Longrightarrow> wrap64 x = x"
  by (simp add: in_int64_def wrap64_eq min_int64_def max_int64_def)

lemma wrap64_offset: "\<exists>k. wrap64 x = x + k * 18446744073709551616"
proof
  have "x + 9223372036854775808 =
      (x + 9223372036854775808) div 18446744073709551616 * 18446744073709551616 +
      (x + 9223372036854775808) mod 18446744073709551616"
    by (rule div_mult_mod_eq [symmetric])
  then show "wrap64 x = x + (- ((x + 9223372036854775808) div 18446744073709551616)) * 18446744073709551616"
    unfolding wrap64_eq by linarith
qed

text \<open>\<open>Time.Sub\<close> returns the saturated difference.\<close>

definition sat64 :: "int \<Rightarrow> int" where
  "sat64 x = (if x > max_int64 then max_int64 else if x < min_int64 then min_int64 else x)"

definition time_sub :: "time \<Rightarrow> time \<Rightarrow> duration" where
  "time_sub t u = sat64 (t - u)"

lemma sat64_id [simp]: "in_int64 x \<Longrightarrow> sat64 x = x"
  by (simp add: sat64_def in_int64_def)

lemma sat64_le_iff: "b < max_int64 \<Longrightarrow> min_int64 \<le> b \<Longrightarrow> sat64 x \<le> b \<longleftrightarrow> x \<le> b"
  by (auto simp: sat64_def max_int64_def min_int64_def)

lemma sat64_ge_iff: "min_int64 < b \<Longrightarrow> b \<le> max_int64 \<Longrightarrow> b \<le> sat64 x \<longleftrightarrow> b \<le> x"
  by (auto simp: sat64_def max_int64_def min_int64_def)

definition Millisecond :: duration where "Millisecond = 1000000"
definition Second :: duration where "Second = 1000000000"
definition Minute :: duration where "Minute = 60000000000"

text \<open>The zero \<open>time.Time\<close>, 1 January of year 1, and \<open>time.Unix(s, 0)\<close>.\<close>

definition zero_time :: time where "zero_time = -62135596800000000000"
definition time_unix :: "int \<Rightarrow> time" where "time_unix s = s * 1000000000"

text \<open>\<open>Time.Unix()\<close>: whole seconds, rounded towards minus infinity.\<close>

definition unix_seconds :: "time \<Rightarrow> int" where "unix_seconds t = t div 1000000000"

lemmas time_unit_defs = Millisecond_def Second_def Minute_def

section \<open>Results\<close>

fun rbind :: "'e + 'a \<Rightarrow> ('a \<Rightarrow> 'e + 'b) \<Rightarrow> 'e + 'b" where
  "rbind (Inl e) f = Inl e"
| "rbind (Inr a) f = f a"

lemma rbind_Inr_iff: "rbind r f = Inr b \<longleftrightarrow> (\<exists>a. r = Inr a \<and> f a = Inr b)"
  by (cases r) auto

lemma rbind_Inl_iff: "rbind r f = Inl e \<longleftrightarrow> r = Inl e \<or> (\<exists>a. r = Inr a \<and> f a = Inl e)"
  by (cases r) auto

text \<open>A guard: the early return \<open>if cond \<lbrace> return err \<rbrace>\<close>.\<close>

definition fail_if :: "bool \<Rightarrow> 'e \<Rightarrow> 'e + unit" where
  "fail_if c e = (if c then Inl e else Inr ())"

lemma fail_if_Inr [simp]: "fail_if c e = Inr u \<longleftrightarrow> \<not> c"
  by (simp add: fail_if_def)

lemma fail_if_Inl [simp]: "fail_if c e = Inl e' \<longleftrightarrow> c \<and> e' = e"
  by (auto simp: fail_if_def)

lemmas result_simps = rbind_Inr_iff rbind_Inl_iff fail_if_Inr fail_if_Inl

section \<open>Association lists\<close>

abbreviation distinct_keys :: "('k \<times> 'v) list \<Rightarrow> bool" where
  "distinct_keys m \<equiv> distinct (map fst m)"

lemma distinct_keys_filter: "distinct_keys m \<Longrightarrow> distinct_keys (filter P m)"
  by (induction m) auto

lemma map_of_filter_distinct:
  "distinct_keys m \<Longrightarrow>
   map_of (filter P m) k = (case map_of m k of None \<Rightarrow> None | Some v \<Rightarrow> if P (k, v) then Some v else None)"
proof (induction m)
  case (Cons a m)
  obtain k' v' where a: "a = (k', v')" by force
  have "map_of m k' = None"
    using Cons.prems by (simp add: a map_of_eq_None_iff)
  with Cons show ?case
    by (auto simp: a map_of_eq_None_iff split: option.splits)
qed simp

lemma map_of_update [simp]: "map_of (AList.update k v m) k' = (if k' = k then Some v else map_of m k')"
  by (simp add: update_conv')

lemma map_of_delete [simp]: "map_of (AList.delete k m) k' = (if k' = k then None else map_of m k')"
  by (simp add: delete_conv')

lemma distinct_keys_update: "distinct_keys m \<Longrightarrow> distinct_keys (AList.update k v m)"
  by (rule distinct_update)

lemma distinct_keys_delete: "distinct_keys m \<Longrightarrow> distinct_keys (AList.delete k m)"
  by (rule distinct_delete)

lemma in_keys_iff: "k \<in> fst ` set m \<longleftrightarrow> map_of m k \<noteq> None"
  by (simp add: map_of_eq_None_iff)

end
