(* ===== verification/Go_Strings.thy ===== *)
theory Go_Strings
  imports Prelude "HOL-Library.Char_ord"
begin

text \<open>
  The parts of Go's \<open>strings\<close>, \<open>strconv\<close>, \<open>encoding/hex\<close> and \<open>encoding/base64\<close> the SDK calls,
  over byte strings. Case folding and white space are the ASCII ones: every comparison the
  SDK makes is against an ASCII constant none of whose letters has a non-ASCII fold.
\<close>

section \<open>strings\<close>

text \<open>\<open>strings.Cut(s, c)\<close> for a one-byte separator, \<open>None\<close> when it is absent.\<close>

fun cut :: "char \<Rightarrow> bytes \<Rightarrow> (bytes \<times> bytes) option" where
  "cut c [] = None"
| "cut c (x # xs) = (if x = c then Some ([], xs) else map_option (\<lambda>(a, b). (x # a, b)) (cut c xs))"

text \<open>\<open>strings.Split(s, c)\<close>: never empty, the separator dropped.\<close>

fun split_on :: "char \<Rightarrow> bytes \<Rightarrow> bytes list" where
  "split_on c [] = [[]]"
| "split_on c (x # xs) =
     (if x = c then [] # split_on c xs
      else (case split_on c xs of [] \<Rightarrow> [[x]] | p # ps \<Rightarrow> (x # p) # ps))"

fun join :: "bytes \<Rightarrow> bytes list \<Rightarrow> bytes" where
  "join sep [] = []"
| "join sep [p] = p"
| "join sep (p # q # ps) = p @ sep @ join sep (q # ps)"

definition is_space :: "char \<Rightarrow> bool" where
  "is_space c \<longleftrightarrow> c = CHR '' '' \<or> (9 \<le> (of_char c :: nat) \<and> of_char c \<le> (13 :: nat))"

definition trim_space :: "bytes \<Rightarrow> bytes" where
  "trim_space s = rev (dropWhile is_space (rev (dropWhile is_space s)))"

definition trim_right_char :: "char \<Rightarrow> bytes \<Rightarrow> bytes" where
  "trim_right_char c s = rev (dropWhile (\<lambda>x. x = c) (rev s))"

definition lower :: "char \<Rightarrow> char" where
  "lower c = (if 65 \<le> (of_char c :: nat) \<and> of_char c \<le> (90 :: nat) then char_of (of_char c + (32 :: nat)) else c)"

definition upper :: "char \<Rightarrow> char" where
  "upper c = (if 97 \<le> (of_char c :: nat) \<and> of_char c \<le> (122 :: nat) then char_of (of_char c - (32 :: nat)) else c)"

definition to_lower :: "bytes \<Rightarrow> bytes" where "to_lower s = map lower s"

definition equal_fold :: "bytes \<Rightarrow> bytes \<Rightarrow> bool" where
  "equal_fold a b \<longleftrightarrow> to_lower a = to_lower b"

fun has_prefix :: "bytes \<Rightarrow> bytes \<Rightarrow> bool" where
  "has_prefix s [] = True"
| "has_prefix [] (p # ps) = False"
| "has_prefix (x # xs) (p # ps) = (x = p \<and> has_prefix xs ps)"

text \<open>\<open>strings.CutSuffix(s, c)\<close> for a one-byte suffix.\<close>

definition cut_suffix :: "bytes \<Rightarrow> char \<Rightarrow> bytes option" where
  "cut_suffix s c = (if s \<noteq> [] \<and> last s = c then Some (butlast s) else None)"

definition contains_any :: "bytes \<Rightarrow> bytes \<Rightarrow> bool" where
  "contains_any s cs \<longleftrightarrow> list_ex (\<lambda>x. x \<in> set cs) s"

text \<open>The bytes before the first \<open>c\<close>: \<open>s[:strings.IndexByte(s, c)]\<close> when there is one.\<close>

definition before_byte :: "char \<Rightarrow> bytes \<Rightarrow> bytes" where
  "before_byte c s = takeWhile (\<lambda>x. x \<noteq> c) s"

text \<open>\<open>strings.Fields\<close>: the maximal runs of non-space bytes.\<close>

fun fields_acc :: "bytes \<Rightarrow> bytes \<Rightarrow> bytes list" where
  "fields_acc acc [] = (if acc = [] then [] else [rev acc])"
| "fields_acc acc (x # xs) =
     (if is_space x then (if acc = [] then fields_acc [] xs else rev acc # fields_acc [] xs)
      else fields_acc (x # acc) xs)"

definition fields :: "bytes \<Rightarrow> bytes list" where "fields s = fields_acc [] s"

lemma has_prefix_iff: "has_prefix s p \<longleftrightarrow> (\<exists>r. s = p @ r)"
  by (induction s p rule: has_prefix.induct) auto

lemma has_prefix_take: "has_prefix s p \<longleftrightarrow> take (length p) s = p"
  by (induction s p rule: has_prefix.induct) auto

lemma cut_Some_iff: "cut c s = Some (a, b) \<longleftrightarrow> s = a @ c # b \<and> c \<notin> set a"
proof (induction s arbitrary: a b)
  case Nil
  then show ?case by simp
next
  case (Cons x xs)
  show ?case
    by (cases a) (auto simp: Cons.IH)
qed

lemma cut_None_iff: "cut c s = None \<longleftrightarrow> c \<notin> set s"
  by (induction s) auto

lemma split_on_nonempty [simp]: "split_on c s \<noteq> []"
  by (induction s) (auto split: list.splits)

lemma split_on_no_sep: "p \<in> set (split_on c s) \<Longrightarrow> c \<notin> set p"
  by (induction s arbitrary: p) (auto split: if_splits list.splits)

lemma join_Cons: "ps \<noteq> [] \<Longrightarrow> join sep (p # ps) = p @ sep @ join sep ps"
  by (cases ps) auto

lemma join_split_on: "join [c] (split_on c s) = s"
proof (induction s)
  case (Cons x xs)
  obtain p ps where "split_on c xs = p # ps"
    using split_on_nonempty [of c xs] by (meson list.exhaust)
  with Cons show ?case by (cases ps) auto
qed simp

lemma split_on_append_sep:
  "c \<notin> set p \<Longrightarrow> split_on c (p @ c # s) = p # split_on c s"
  by (induction p) auto

lemma split_on_no_occurrence: "c \<notin> set p \<Longrightarrow> split_on c p = [p]"
  by (induction p) auto

text \<open>Joining parts that do not contain the separator loses nothing.\<close>

lemma split_on_join:
  "ps \<noteq> [] \<Longrightarrow> \<forall>p\<in>set ps. c \<notin> set p \<Longrightarrow> split_on c (join [c] ps) = ps"
  by (induction "[c]" ps rule: join.induct) (auto simp: split_on_append_sep split_on_no_occurrence)

section \<open>encoding/hex\<close>

definition hex_digit :: "nat \<Rightarrow> char" where
  "hex_digit n = ''0123456789abcdef'' ! n"

definition hex_value :: "char \<Rightarrow> nat option" where
  "hex_value c = (let n = of_char c in
     if 48 \<le> n \<and> n \<le> 57 then Some (n - 48)
     else if 97 \<le> n \<and> n \<le> 102 then Some (n - 87)
     else if 65 \<le> n \<and> n \<le> 70 then Some (n - 55)
     else None)"

fun hex_encode :: "bytes \<Rightarrow> bytes" where
  "hex_encode [] = []"
| "hex_encode (x # xs) = hex_digit (of_char x div 16) # hex_digit (of_char x mod 16) # hex_encode xs"

text \<open>\<open>hex.DecodeString\<close>: an odd length or a non-hex digit is an error.\<close>

fun hex_decode :: "bytes \<Rightarrow> bytes option" where
  "hex_decode [] = Some []"
| "hex_decode [x] = None"
| "hex_decode (x # y # r) =
     (case (hex_value x, hex_value y) of
        (Some a, Some b) \<Rightarrow> map_option (\<lambda>t. char_of (16 * a + b) # t) (hex_decode r)
      | _ \<Rightarrow> None)"

lemma hex_value_digit_all: "list_all (\<lambda>n. hex_value (hex_digit n) = Some n) [0..<16]"
  by (simp add: hex_value_def hex_digit_def upt_rec numeral_nat)

lemma hex_value_digit: "n < 16 \<Longrightarrow> hex_value (hex_digit n) = Some n"
  using hex_value_digit_all by (simp add: list_all_iff)

lemma hex_decode_encode [simp]: "hex_decode (hex_encode s) = Some s"
proof (induction s)
  case (Cons x xs)
  have "of_char x < (256 :: nat)" by (rule nat_of_char_less_256)
  then have "of_char x div 16 < (16 :: nat)" by linarith
  moreover have "16 * (of_char x div 16) + of_char x mod 16 = (of_char x :: nat)" by (rule mult_div_mod_eq)
  ultimately show ?case
    using Cons by (simp add: hex_value_digit del: mult_div_mod_eq)
qed simp

lemma hex_encode_inject [simp]: "hex_encode s = hex_encode t \<longleftrightarrow> s = t"
  by (metis hex_decode_encode option.inject)

section \<open>encoding/base64, RawURLEncoding\<close>

definition b64_char :: "nat \<Rightarrow> char" where
  "b64_char n = ''ABCDEFGHIJKLMNOPQRSTUVWXYZabcdefghijklmnopqrstuvwxyz0123456789-_'' ! n"

fun b64url_encode :: "bytes \<Rightarrow> bytes" where
  "b64url_encode [] = []"
| "b64url_encode [x] =
     (let v = of_char x * 16 in [b64_char (v div 64), b64_char (v mod 64)])"
| "b64url_encode [x, y] =
     (let v = (of_char x * 256 + of_char y) * 4
      in [b64_char (v div 4096), b64_char (v div 64 mod 64), b64_char (v mod 64)])"
| "b64url_encode (x # y # z # r) =
     (let v = (of_char x * 256 + of_char y) * 256 + of_char z
      in b64_char (v div 262144) # b64_char (v div 4096 mod 64) #
         b64_char (v div 64 mod 64) # b64_char (v mod 64) # b64url_encode r)"

section \<open>strconv\<close>

definition is_digit :: "char \<Rightarrow> bool" where
  "is_digit c \<longleftrightarrow> 48 \<le> (of_char c :: nat) \<and> of_char c \<le> (57 :: nat)"

definition digits_value :: "bytes \<Rightarrow> int" where
  "digits_value ds = foldl (\<lambda>n c. 10 * n + (of_char c - 48)) 0 ds"

text \<open>\<open>strconv.ParseInt(s, 10, 64)\<close>: optional sign, digits only, in range.\<close>

definition parse_int64 :: "bytes \<Rightarrow> int option" where
  "parse_int64 s =
     (let (neg, ds) = (case s of [] \<Rightarrow> (False, []) | c # r \<Rightarrow>
            if c = CHR ''-'' then (True, r) else if c = CHR ''+'' then (False, r) else (False, s))
      in if ds = [] \<or> \<not> list_all is_digit ds then None
         else let v = (if neg then - digits_value ds else digits_value ds)
              in if in_int64 v then Some v else None)"

lemma parse_int64_range: "parse_int64 s = Some v \<Longrightarrow> in_int64 v"
  by (auto simp: parse_int64_def Let_def split: if_splits prod.splits)

text \<open>Decimal rendering (\<open>%d\<close>).\<close>

fun show_nat :: "nat \<Rightarrow> bytes" where
  "show_nat n = (if n < 10 then [char_of (48 + n)] else show_nat (n div 10) @ [char_of (48 + n mod 10)])"

declare show_nat.simps [simp del]

definition show_int :: "int \<Rightarrow> bytes" where
  "show_int i = (if i < 0 then CHR ''-'' # show_nat (nat (- i)) else show_nat (nat i))"

lemma digit_char: "n < 10 \<Longrightarrow> is_digit (char_of (48 + n)) \<and> (of_char (char_of (48 + n) :: char) :: nat) = 48 + n"
  by (simp add: is_digit_def)

lemma digit_char_int:
  assumes "n < 10"
  shows "(of_char (char_of (48 + n) :: char) :: int) = 48 + int n"
proof -
  have "(of_char (char_of (48 + n) :: char) :: int) = int (of_char (char_of (48 + n) :: char))"
    by (rule of_nat_of_char [symmetric])
  also have "\<dots> = 48 + int n" unfolding conjunct2 [OF digit_char [OF assms]] by simp
  finally show ?thesis .
qed

lemma digits_value_snoc: "digits_value (ds @ [c]) = 10 * digits_value ds + (of_char c - 48)"
  by (simp add: digits_value_def)

lemma show_nat_digits: "show_nat n \<noteq> [] \<and> list_all is_digit (show_nat n) \<and> digits_value (show_nat n) = int n"
proof (induction n rule: show_nat.induct)
  case (1 n)
  show ?case
  proof (cases "n < 10")
    case True
    have v: "(of_char (char_of (48 + n) :: char) :: int) = 48 + int n"
      by (rule digit_char_int [OF True])
    show ?thesis using digit_char [OF True] True v
      by (subst (1 2 3) show_nat.simps) (simp add: digits_value_def del: of_char_of)
  next
    case False
    then have IH: "list_all is_digit (show_nat (n div 10))" "digits_value (show_nat (n div 10)) = int (n div 10)"
      using 1 by auto
    have lt: "n mod 10 < 10" by simp
    have v: "(of_char (char_of (48 + n mod 10) :: char) :: int) = 48 + int (n mod 10)"
      by (rule digit_char_int [OF lt])
    have "digits_value (show_nat (n div 10) @ [char_of (48 + n mod 10)]) = int n"
      unfolding digits_value_snoc IH(2) v using mult_div_mod_eq [of 10 n] by linarith
    then show ?thesis using False IH(1) digit_char [OF lt]
      by (subst (1 2 3) show_nat.simps) simp
  qed
qed

lemma show_nat_head: "show_nat n = c # r \<Longrightarrow> c = CHR ''0'' \<Longrightarrow> n = 0"
proof (induction n arbitrary: r rule: show_nat.induct)
  case (1 n)
  show ?case
  proof (cases "n < 10")
    case True
    then have "char_of (48 + n) = CHR ''0''" using 1 by (simp add: show_nat.simps [of n])
    then have "(of_char (char_of (48 + n) :: char) :: nat) = of_char (CHR ''0'')" by (rule arg_cong)
    then show ?thesis using digit_char [OF True] by simp
  next
    case False
    then obtain r' where "show_nat (n div 10) = c # r'"
      using 1(2) show_nat_digits [of "n div 10"] by (cases "show_nat (n div 10)") (auto simp: show_nat.simps [of n])
    then have "n div 10 = 0" using 1 False by blast
    with False show ?thesis by simp
  qed
qed

end
