(* ===== verification/Go_Json.thy ===== *)
theory Go_Json
  imports Go_Strings Complex_Main
begin

text \<open>
  The part of \<open>encoding/json\<close> the SDK uses: the RFC 8259 syntax check with the value tree it
  yields (\<open>parse_json\<close>), the compact rendering (\<open>print_json\<close>), string escaping as \<open>Marshal\<close>
  does it and unescaping as \<open>Unmarshal\<close> does it, and the binding of an object's members to
  the fields of a struct. Strings and numbers stay as the literal's own bytes in the tree, so
  a \<open>json.RawMessage\<close> is the subtree and is re-emitted byte for byte, compacted.
  Not modelled: the 10000 nesting limit, and the non-ASCII folds of a member name.
\<close>

datatype json =
    JNull
  | JBool bool
  | JNum bytes
  | JStr bytes
  | JArr "json list"
  | JObj "(bytes \<times> json) list"

section \<open>UTF-8\<close>

definition byte_in :: "char \<Rightarrow> nat \<Rightarrow> nat \<Rightarrow> bool" where
  "byte_in c lo hi \<longleftrightarrow> lo \<le> of_char c \<and> of_char c \<le> hi"

text \<open>Length of the well-formed UTF-8 sequence at the head, 0 when there is none.\<close>

fun utf8_head :: "bytes \<Rightarrow> nat" where
  "utf8_head [] = 0"
| "utf8_head (a # r) =
     (if byte_in a 0 127 then 1
      else case r of [] \<Rightarrow> 0
      | b # r' \<Rightarrow>
        (if byte_in a 194 223 then (if byte_in b 128 191 then 2 else 0)
         else case r' of [] \<Rightarrow> 0
         | c # r'' \<Rightarrow>
           (if byte_in a 224 239 then
              (if byte_in b (if of_char a = (224 :: nat) then 160 else 128)
                            (if of_char a = (237 :: nat) then 159 else 191)
                  \<and> byte_in c 128 191 then 3 else 0)
            else case r'' of [] \<Rightarrow> 0
            | d # _ \<Rightarrow>
              (if byte_in a 240 244
                  \<and> byte_in b (if of_char a = (240 :: nat) then 144 else 128)
                               (if of_char a = (244 :: nat) then 143 else 191)
                  \<and> byte_in c 128 191 \<and> byte_in d 128 191 then 4 else 0))))"

definition utf8_encode :: "nat \<Rightarrow> bytes" where
  "utf8_encode n =
     (if n < 128 then [char_of n]
      else if n < 2048 then [char_of (192 + n div 64), char_of (128 + n mod 64)]
      else if n < 65536 then
        [char_of (224 + n div 4096), char_of (128 + n div 64 mod 64), char_of (128 + n mod 64)]
      else [char_of (240 + n div 262144), char_of (128 + n div 4096 mod 64),
            char_of (128 + n div 64 mod 64), char_of (128 + n mod 64)])"

definition replacement :: bytes where "replacement = utf8_encode 65533"

section \<open>Lexing\<close>

definition is_json_ws :: "char \<Rightarrow> bool" where
  "is_json_ws c \<longleftrightarrow> c = CHR '' '' \<or> c = CHR 0x09 \<or> c = CHR 0x0A \<or> c = CHR 0x0D"

definition skip_ws :: "bytes \<Rightarrow> bytes" where "skip_ws s = dropWhile is_json_ws s"

text \<open>The rest of a string literal after its opening quote: the raw contents and what follows.\<close>

fun scan_string :: "bytes \<Rightarrow> (bytes \<times> bytes) option" where
  "scan_string [] = None"
| "scan_string (c # r) =
     (if c = CHR 0x22 then Some ([], r)
      else if c = CHR 0x5C then
        (case r of [] \<Rightarrow> None
         | e # r' \<Rightarrow>
           (if e \<in> set [CHR 0x22, CHR 0x5C, CHR ''/'', CHR ''b'', CHR ''f'', CHR ''n'', CHR ''r'', CHR ''t'']
            then map_option (\<lambda>(a, b). (c # e # a, b)) (scan_string r')
            else if e = CHR ''u'' then
              (case r' of h1 # h2 # h3 # h4 # r'' \<Rightarrow>
                 (if list_all (\<lambda>h. hex_value h \<noteq> None) [h1, h2, h3, h4]
                  then map_option (\<lambda>(a, b). (c # e # h1 # h2 # h3 # h4 # a, b)) (scan_string r'')
                  else None)
               | _ \<Rightarrow> None)
            else None))
      else if of_char c < (32 :: nat) then None
      else map_option (\<lambda>(a, b). (c # a, b)) (scan_string r))"

definition scan_digits :: "bytes \<Rightarrow> bytes \<times> bytes" where
  "scan_digits s = (takeWhile is_digit s, dropWhile is_digit s)"

definition scan_int :: "bytes \<Rightarrow> (bytes \<times> bytes) option" where
  "scan_int s = (case s of [] \<Rightarrow> None
     | c # r \<Rightarrow> if c = CHR ''0'' then Some ([c], r)
               else if is_digit c then Some (scan_digits s) else None)"

definition scan_frac :: "bytes \<Rightarrow> (bytes \<times> bytes) option" where
  "scan_frac s = (case s of [] \<Rightarrow> Some ([], [])
     | c # r \<Rightarrow> if c = CHR ''.'' then
                 (case scan_digits r of ([], _) \<Rightarrow> None | (ds, r') \<Rightarrow> Some (c # ds, r'))
               else Some ([], s))"

definition scan_exp :: "bytes \<Rightarrow> (bytes \<times> bytes) option" where
  "scan_exp s = (case s of [] \<Rightarrow> Some ([], [])
     | c # r \<Rightarrow> if c = CHR ''e'' \<or> c = CHR ''E'' then
                 (let (sg, r1) = (case r of [] \<Rightarrow> ([], []) | x # r' \<Rightarrow>
                                   if x = CHR ''+'' \<or> x = CHR ''-'' then ([x], r') else ([], r))
                  in case scan_digits r1 of ([], _) \<Rightarrow> None | (ds, r2) \<Rightarrow> Some (c # sg @ ds, r2))
               else Some ([], s))"

definition scan_number :: "bytes \<Rightarrow> (bytes \<times> bytes) option" where
  "scan_number s =
     (let (sg, s0) = (case s of [] \<Rightarrow> ([], []) | c # r \<Rightarrow> if c = CHR ''-'' then ([c], r) else ([], s))
      in case scan_int s0 of None \<Rightarrow> None | Some (i, s1) \<Rightarrow>
         (case scan_frac s1 of None \<Rightarrow> None | Some (f, s2) \<Rightarrow>
         (case scan_exp s2 of None \<Rightarrow> None | Some (e, s3) \<Rightarrow> Some (sg @ i @ f @ e, s3))))"

fun strip_prefix :: "bytes \<Rightarrow> bytes \<Rightarrow> bytes option" where
  "strip_prefix [] s = Some s"
| "strip_prefix (p # ps) [] = None"
| "strip_prefix (p # ps) (x # xs) = (if p = x then strip_prefix ps xs else None)"

section \<open>Parsing\<close>

text \<open>
  One unit of fuel per call; \<open>parse_json\<close> supplies more than the calls an input of that
  length can make.
\<close>

fun parse_value :: "nat \<Rightarrow> bytes \<Rightarrow> (json \<times> bytes) option"
and parse_elems :: "nat \<Rightarrow> bytes \<Rightarrow> (json list \<times> bytes) option"
and parse_members :: "nat \<Rightarrow> bytes \<Rightarrow> ((bytes \<times> json) list \<times> bytes) option" where
  "parse_value 0 s = None"
| "parse_value (Suc n) s =
     (case skip_ws s of [] \<Rightarrow> None
      | c # r \<Rightarrow>
        if c = CHR 0x22 then map_option (\<lambda>(a, b). (JStr a, b)) (scan_string r)
        else if c = CHR 0x5B then
          (case skip_ws r of [] \<Rightarrow> None
           | d # r' \<Rightarrow> if d = CHR 0x5D then Some (JArr [], r')
                      else map_option (\<lambda>(a, b). (JArr a, b)) (parse_elems n (d # r')))
        else if c = CHR 0x7B then
          (case skip_ws r of [] \<Rightarrow> None
           | d # r' \<Rightarrow> if d = CHR 0x7D then Some (JObj [], r')
                      else map_option (\<lambda>(a, b). (JObj a, b)) (parse_members n (d # r')))
        else (case strip_prefix ''null'' (c # r) of Some r' \<Rightarrow> Some (JNull, r')
        | None \<Rightarrow> (case strip_prefix ''true'' (c # r) of Some r' \<Rightarrow> Some (JBool True, r')
        | None \<Rightarrow> (case strip_prefix ''false'' (c # r) of Some r' \<Rightarrow> Some (JBool False, r')
        | None \<Rightarrow> map_option (\<lambda>(a, b). (JNum a, b)) (scan_number (c # r))))))"
| "parse_elems 0 s = None"
| "parse_elems (Suc n) s =
     (case parse_value n s of None \<Rightarrow> None
      | Some (v, r) \<Rightarrow>
        (case skip_ws r of [] \<Rightarrow> None
         | c # r' \<Rightarrow> if c = CHR 0x5D then Some ([v], r')
                    else if c = CHR '','' then map_option (\<lambda>(a, b). (v # a, b)) (parse_elems n r')
                    else None))"
| "parse_members 0 s = None"
| "parse_members (Suc n) s =
     (case skip_ws s of [] \<Rightarrow> None
      | q # r0 \<Rightarrow>
        if q \<noteq> CHR 0x22 then None
        else (case scan_string r0 of None \<Rightarrow> None
        | Some (k, r1) \<Rightarrow>
          (case skip_ws r1 of [] \<Rightarrow> None
           | col # r2 \<Rightarrow>
             if col \<noteq> CHR '':'' then None
             else (case parse_value n r2 of None \<Rightarrow> None
             | Some (v, r3) \<Rightarrow>
               (case skip_ws r3 of [] \<Rightarrow> None
                | c # r4 \<Rightarrow> if c = CHR 0x7D then Some ([(k, v)], r4)
                           else if c = CHR '','' then map_option (\<lambda>(a, b). ((k, v) # a, b)) (parse_members n r4)
                           else None)))))"

definition parse_json :: "bytes \<Rightarrow> json option" where
  "parse_json s = (case parse_value (2 * length s + 2) s of
     None \<Rightarrow> None | Some (v, r) \<Rightarrow> if skip_ws r = [] then Some v else None)"

section \<open>Printing\<close>

fun print_json :: "json \<Rightarrow> bytes" where
  "print_json JNull = ''null''"
| "print_json (JBool b) = (if b then ''true'' else ''false'')"
| "print_json (JNum n) = n"
| "print_json (JStr s) = CHR 0x22 # s @ [CHR 0x22]"
| "print_json (JArr vs) = CHR 0x5B # join '','' (map print_json vs) @ [CHR 0x5D]"
| "print_json (JObj ms) =
     CHR 0x7B # join '','' (map (\<lambda>(k, v). CHR 0x22 # k @ [CHR 0x22] @ '':'' @ print_json v) ms) @ [CHR 0x7D]"

section \<open>Strings of a literal\<close>

definition hex4 :: "nat \<Rightarrow> bytes" where
  "hex4 n = [hex_digit (n div 4096 mod 16), hex_digit (n div 256 mod 16), hex_digit (n div 16 mod 16), hex_digit (n mod 16)]"

text \<open>
  \<open>Marshal\<close>'s escaping of a Go string, without the quotes; \<open>html\<close> is \<open>SetEscapeHTML\<close>, on by
  default. A byte that starts no well-formed sequence becomes the escape of U+FFFD.
\<close>

function escape_from :: "bool \<Rightarrow> bytes \<Rightarrow> bytes" where
  "escape_from html [] = []"
| "escape_from html (c # r) =
     (if of_char c < (128 :: nat) then
        (if c = CHR 0x22 \<or> c = CHR 0x5C then [CHR 0x5C, c]
         else if c = CHR 0x08 then [CHR 0x5C, CHR ''b'']
         else if c = CHR 0x0C then [CHR 0x5C, CHR ''f'']
         else if c = CHR 0x0A then [CHR 0x5C, CHR ''n'']
         else if c = CHR 0x0D then [CHR 0x5C, CHR ''r'']
         else if c = CHR 0x09 then [CHR 0x5C, CHR ''t'']
         else if of_char c < (32 :: nat) \<or> (html \<and> c \<in> set ''<>&'') then CHR 0x5C # CHR ''u'' # hex4 (of_char c)
         else [c]) @ escape_from html r
      else (let n = utf8_head (c # r) in
        if n = 0 then CHR 0x5C # ''ufffd'' @ escape_from html r
        else (if take 3 (c # r) = [CHR 0xE2, CHR 0x80, CHR 0xA8] then CHR 0x5C # ''u2028''
              else if take 3 (c # r) = [CHR 0xE2, CHR 0x80, CHR 0xA9] then CHR 0x5C # ''u2029''
              else take n (c # r)) @ escape_from html (drop n (c # r))))"
  by pat_completeness auto
termination
  by (relation "measure (\<lambda>(_, s). length s)") auto

fun hex4_value :: "bytes \<Rightarrow> nat" where
  "hex4_value s = foldl (\<lambda>n h. 16 * n + (case hex_value h of None \<Rightarrow> 0 | Some v \<Rightarrow> v)) 0 s"

definition short_escape :: "char \<Rightarrow> char option" where
  "short_escape e =
     (if e \<in> set [CHR 0x22, CHR 0x5C, CHR ''/''] then Some e
      else if e = CHR ''b'' then Some (CHR 0x08) else if e = CHR ''f'' then Some (CHR 0x0C)
      else if e = CHR ''n'' then Some (CHR 0x0A) else if e = CHR ''r'' then Some (CHR 0x0D)
      else if e = CHR ''t'' then Some (CHR 0x09) else None)"

text \<open>\<open>Unmarshal\<close>'s reading of a literal's contents; it ends at a byte that is no escape.\<close>

function unquote :: "bytes \<Rightarrow> bytes" where
  "unquote [] = []"
| "unquote (c # r) =
     (if c = CHR 0x5C then
        (case r of [] \<Rightarrow> []
         | e # r' \<Rightarrow>
           (if e = CHR ''u'' then
              (let u = hex4_value (take 4 r'); rest = drop 4 r' in
               if 55296 \<le> u \<and> u < 57344 then
                 (let v = hex4_value (take 4 (drop 2 rest)) in
                  if u < 56320 \<and> take 2 rest = [CHR 0x5C, CHR ''u''] \<and> 56320 \<le> v \<and> v < 57344
                  then utf8_encode (65536 + (u - 55296) * 1024 + (v - 56320)) @ unquote (drop 6 rest)
                  else replacement @ unquote rest)
               else utf8_encode u @ unquote rest)
            else (case short_escape e of None \<Rightarrow> [] | Some x \<Rightarrow> x # unquote r')))
      else (let n = utf8_head (c # r) in
        if n = 0 then replacement @ unquote r
        else take n (c # r) @ unquote (drop n (c # r))))"
  by pat_completeness auto
termination
  by (relation "measure length") (auto simp: less_Suc_eq_le)

definition json_string :: "bool \<Rightarrow> bytes \<Rightarrow> json" where
  "json_string html s = JStr (escape_from html s)"

section \<open>Struct fields\<close>

text \<open>
  \<open>Unmarshal\<close> into a struct with the JSON names \<open>fs\<close>: \<open>null\<close> leaves it as it is, an object
  binds each member to the field of that name or, when no field has it, to the first field
  equal to it up to case; anything else is a type error. A later member overwrites an
  earlier one, \<open>null\<close> leaves a non-pointer field as it is, and a type error in any member
  fails the call.
\<close>

definition struct_members :: "json \<Rightarrow> (bytes \<times> json) list option" where
  "struct_members j = (case j of
       JObj ms \<Rightarrow> Some (map (\<lambda>(k, v). (unquote k, v)) ms)
     | JNull \<Rightarrow> Some []
     | _ \<Rightarrow> None)"

definition field_for :: "bytes list \<Rightarrow> bytes \<Rightarrow> bytes option" where
  "field_for fs k = (if k \<in> set fs then Some k else find (\<lambda>f. equal_fold f k) fs)"

definition field_values :: "bytes list \<Rightarrow> bytes \<Rightarrow> (bytes \<times> json) list \<Rightarrow> json list" where
  "field_values fs f ms = map snd (filter (\<lambda>(k, v). field_for fs k = Some f) ms)"

fun dec_string :: "bytes \<Rightarrow> json list \<Rightarrow> bytes option" where
  "dec_string cur [] = Some cur"
| "dec_string cur (JNull # vs) = dec_string cur vs"
| "dec_string cur (JStr s # vs) = dec_string (unquote s) vs"
| "dec_string cur (v # vs) = None"

text \<open>A \<open>*string\<close> field: \<open>null\<close> sets it to nil.\<close>

fun dec_string_ptr :: "bytes option \<Rightarrow> json list \<Rightarrow> bytes option option" where
  "dec_string_ptr cur [] = Some cur"
| "dec_string_ptr cur (JNull # vs) = dec_string_ptr None vs"
| "dec_string_ptr cur (JStr s # vs) = dec_string_ptr (Some (unquote s)) vs"
| "dec_string_ptr cur (v # vs) = None"

text \<open>An unsigned field of \<open>w\<close> bits: \<open>strconv.ParseUint\<close> of the literal, in range.\<close>

definition uint_literal :: "nat \<Rightarrow> bytes \<Rightarrow> nat option" where
  "uint_literal w n =
     (if n = [] \<or> \<not> list_all is_digit n then None
      else let v = nat (digits_value n) in if v < 2 ^ w then Some v else None)"

fun dec_uint :: "nat \<Rightarrow> nat \<Rightarrow> json list \<Rightarrow> nat option" where
  "dec_uint w cur [] = Some cur"
| "dec_uint w cur (JNull # vs) = dec_uint w cur vs"
| "dec_uint w cur (JNum n # vs) = (case uint_literal w n of None \<Rightarrow> None | Some v \<Rightarrow> dec_uint w v vs)"
| "dec_uint w cur (v # vs) = None"

text \<open>An \<open>*int64\<close> field.\<close>

fun dec_int64_ptr :: "int option \<Rightarrow> json list \<Rightarrow> int option option" where
  "dec_int64_ptr cur [] = Some cur"
| "dec_int64_ptr cur (JNull # vs) = dec_int64_ptr None vs"
| "dec_int64_ptr cur (JNum n # vs) = (case parse_int64 n of None \<Rightarrow> None | Some v \<Rightarrow> dec_int64_ptr (Some v) vs)"
| "dec_int64_ptr cur (v # vs) = None"

text \<open>A \<open>json.RawMessage\<close> field keeps the last member's bytes, \<open>null\<close> included.\<close>

definition dec_raw :: "json list \<Rightarrow> json option" where
  "dec_raw vs = (if vs = [] then None else Some (last vs))"

text \<open>A \<open>[]string\<close> value: \<open>null\<close> elements are empty strings.\<close>

fun dec_string_elems :: "json list \<Rightarrow> bytes list option" where
  "dec_string_elems [] = Some []"
| "dec_string_elems (v # vs) =
     (case dec_string [] [v] of None \<Rightarrow> None | Some s \<Rightarrow> map_option ((#) s) (dec_string_elems vs))"

fun dec_strings :: "bytes list \<Rightarrow> json list \<Rightarrow> bytes list option" where
  "dec_strings cur [] = Some cur"
| "dec_strings cur (JNull # vs) = dec_strings [] vs"
| "dec_strings cur (JArr es # vs) = (case dec_string_elems es of None \<Rightarrow> None | Some xs \<Rightarrow> dec_strings xs vs)"
| "dec_strings cur (v # vs) = None"

declare unquote.simps(2) [simp del] escape_from.simps(2) [simp del] utf8_head.simps(2) [simp del]
  parse_value.simps(2) [simp del] scan_string.simps(2) [simp del]

end
