(* ===== verification/Errors.thy ===== *)
theory Errors
  imports Go_Json
begin

text \<open>
  \<open>errors.go\<close>: the SDK's error values, their sentinels, \<open>errors.Is\<close> and \<open>errors.As\<close> over
  their \<open>Unwrap\<close> chains, the HTTP and gRPC status tables, and the redaction of a response's
  headers before they reach a \<open>NetworkError\<close>. The error text is the \<open>Message\<close> field; the
  rendering of a wrapped response is kept as its status and its (redacted) headers.
\<close>

section \<open>Error values\<close>

text \<open>
  The sentinels of \<open>errors.go\<close>, \<open>ErrDrop\<close> of \<open>amqp/errdrop.go\<close>, and those of \<open>management_errors.go\<close>.
\<close>

datatype sentinel =
    ErrAuth | ErrAuthz | ErrNetwork | ErrAccessDenied | ErrExpiredToken | ErrDrop
  | ErrNotFound | ErrConflict | ErrValidation

record auth_error =
  ae_message :: bytes
  ae_reason :: bytes
  ae_set_refusal :: bool

record oauth_protocol_error =
  op_auth :: auth_error
  op_error_code :: bytes
  op_error_description :: bytes
  op_retry_after :: duration

record authz_error =
  az_message :: bytes
  az_action :: bytes
  az_resource_id :: bytes

text \<open>The typed errors of the management operations.\<close>

record NotFoundError =
  nf_operation :: bytes
  nf_message :: bytes

record ConflictError =
  cf_operation :: bytes
  cf_message :: bytes
  cf_reason_code :: bytes

record FieldError =
  fe_field :: bytes
  fe_message :: bytes

record ValidationError =
  ve_operation :: bytes
  ve_status :: int
  ve_message :: bytes
  ve_fields :: "FieldError list"

text \<open>\<open>http.Header\<close>: canonical key to values.\<close>

type_synonym http_header = "(bytes \<times> bytes list) list"

text \<open>
  Every \<open>error\<close> value the SDK builds or passes on. \<open>EHttpCause\<close> is the
  \<open>"http status %d, headers: %v"\<close> error of \<open>newNetworkError\<close>, \<open>EWrap\<close> an error made by
  \<open>fmt.Errorf\<close> with one \<open>%w\<close>, \<open>EPlain\<close> any other leaf.
\<close>

datatype go_error =
    EAuth auth_error
  | EOAuth oauth_protocol_error
  | EAuthz authz_error
  | ENetwork bytes duration "go_error option"
  | ESentinel sentinel
  | EHttpCause int http_header
  | EPlain bytes
  | EWrap bytes go_error
  | ENotFound NotFoundError
  | EConflict ConflictError
  | EValidation ValidationError

definition AuthError :: "bytes \<Rightarrow> go_error" where
  "AuthError m = EAuth \<lparr>ae_message = m, ae_reason = [], ae_set_refusal = False\<rparr>"

definition AuthzError :: "bytes \<Rightarrow> go_error" where
  "AuthzError m = EAuthz \<lparr>az_message = m, az_action = [], az_resource_id = []\<rparr>"

definition NetworkError :: "bytes \<Rightarrow> go_error" where
  "NetworkError m = ENetwork m 0 None"

text \<open>The \<open>Is\<close> method of each type; types without one match nothing.\<close>

fun is_method :: "go_error \<Rightarrow> sentinel \<Rightarrow> bool" where
  "is_method (EAuth e) t = (t = ErrAuth)"
| "is_method (EOAuth e) t = (case t of
      ErrAuth \<Rightarrow> True
    | ErrAccessDenied \<Rightarrow> op_error_code e = ''access_denied''
    | ErrExpiredToken \<Rightarrow> op_error_code e = ''expired_token''
    | _ \<Rightarrow> False)"
| "is_method (EAuthz e) t = (t = ErrAuthz)"
| "is_method (ENetwork m r c) t = (t = ErrNetwork)"
| "is_method (ENotFound e) t = (t \<in> {ErrNotFound, ErrAuthz})"
| "is_method (EConflict e) t = (t \<in> {ErrConflict, ErrAuthz})"
| "is_method (EValidation e) t = (t \<in> {ErrValidation, ErrNetwork})"
| "is_method _ t = False"

fun unwrap :: "go_error \<Rightarrow> go_error option" where
  "unwrap (EOAuth e) = Some (EAuth (op_auth e))"
| "unwrap (ENetwork m r c) = c"
| "unwrap (EWrap m e) = Some e"
| "unwrap _ = None"

fun chain_depth :: "go_error \<Rightarrow> nat" where
  "chain_depth (EOAuth e) = 1"
| "chain_depth (ENetwork m r None) = 0"
| "chain_depth (ENetwork m r (Some c)) = Suc (chain_depth c)"
| "chain_depth (EWrap m e) = Suc (chain_depth e)"
| "chain_depth _ = 0"

lemma unwrap_depth: "unwrap e = Some e' \<Longrightarrow> chain_depth e' < chain_depth e"
  by (cases e rule: unwrap.cases) auto

text \<open>\<open>errors.Is(err, target)\<close>.\<close>

function errors_is :: "go_error \<Rightarrow> sentinel \<Rightarrow> bool" where
  "errors_is e t = (e = ESentinel t \<or> is_method e t \<or>
     (case unwrap e of None \<Rightarrow> False | Some e' \<Rightarrow> errors_is e' t))"
  by pat_completeness auto
termination
  by (relation "measure (chain_depth \<circ> fst)") (auto dest: unwrap_depth)

declare errors_is.simps [simp del]

text \<open>\<open>errors.As\<close> with a \<open>*AuthError\<close>, \<open>*OAuthProtocolError\<close> or \<open>*NetworkError\<close> target.\<close>

function errors_as_auth :: "go_error \<Rightarrow> auth_error option" where
  "errors_as_auth e = (case e of EAuth a \<Rightarrow> Some a
     | _ \<Rightarrow> (case unwrap e of None \<Rightarrow> None | Some e' \<Rightarrow> errors_as_auth e'))"
  by pat_completeness auto
termination
  by (relation "measure chain_depth") (auto dest: unwrap_depth)

declare errors_as_auth.simps [simp del]

function errors_as_oauth :: "go_error \<Rightarrow> oauth_protocol_error option" where
  "errors_as_oauth e = (case e of EOAuth p \<Rightarrow> Some p
     | _ \<Rightarrow> (case unwrap e of None \<Rightarrow> None | Some e' \<Rightarrow> errors_as_oauth e'))"
  by pat_completeness auto
termination
  by (relation "measure chain_depth") (auto dest: unwrap_depth)

declare errors_as_oauth.simps [simp del]

function errors_as_network :: "go_error \<Rightarrow> (bytes \<times> duration) option" where
  "errors_as_network e = (case e of ENetwork m r c \<Rightarrow> Some (m, r)
     | _ \<Rightarrow> (case unwrap e of None \<Rightarrow> None | Some e' \<Rightarrow> errors_as_network e'))"
  by pat_completeness auto
termination
  by (relation "measure chain_depth") (auto dest: unwrap_depth)

declare errors_as_network.simps [simp del]

section \<open>Header redaction\<close>

definition safeResponseHeaders :: "bytes list" where
  "safeResponseHeaders = [''content-type'', ''content-length'', ''date'', ''server'',
     ''retry-after'', ''x-request-id'', ''x-tenant-id'']"

definition redactedHeader :: bytes where "redactedHeader = ''[REDACTED]''"

text \<open>
  \<open>textproto.CanonicalMIMEHeaderKey\<close>, which \<open>Header.Set\<close> applies to its key: a letter is
  upper case at the start and after a hyphen, lower case elsewhere; a key with a byte that
  is no token character is left as it is.
\<close>

definition is_token_char :: "char \<Rightarrow> bool" where
  "is_token_char c \<longleftrightarrow> byte_in c 48 57 \<or> byte_in c 65 90 \<or> byte_in c 97 122
     \<or> c \<in> set ''!#$%&*+-.^_|~'' \<or> c = CHR 0x27 \<or> c = CHR 0x60"

fun canonical_from :: "bool \<Rightarrow> bytes \<Rightarrow> bytes" where
  "canonical_from up [] = []"
| "canonical_from up (c # r) = (if up then upper c else lower c) # canonical_from (c = CHR ''-'') r"

definition canonical_key :: "bytes \<Rightarrow> bytes" where
  "canonical_key k = (if list_all is_token_char k then canonical_from True k else k)"

definition header_set :: "bytes \<Rightarrow> bytes \<Rightarrow> http_header \<Rightarrow> http_header" where
  "header_set k v h = AList.update (canonical_key k) [v] h"

record http_response =
  status_code :: int
  headers :: http_header

definition safe_header_name :: "bytes \<Rightarrow> bool" where
  "safe_header_name n \<longleftrightarrow> to_lower n \<in> set safeResponseHeaders"

fun redact_names :: "bytes list \<Rightarrow> http_header \<Rightarrow> http_header" where
  "redact_names [] h = h"
| "redact_names (n # ns) h =
     redact_names ns (if safe_header_name n then h else header_set n redactedHeader h)"

definition sanitizeResponse :: "http_response option \<Rightarrow> http_response option" where
  "sanitizeResponse resp = (case resp of None \<Rightarrow> None
     | Some r \<Rightarrow> Some (r\<lparr>headers := redact_names (map fst (headers r)) (headers r)\<rparr>))"

definition newNetworkError :: "bytes \<Rightarrow> http_response option \<Rightarrow> go_error option \<Rightarrow> go_error" where
  "newNetworkError message resp cause =
     (case sanitizeResponse resp of
        Some s \<Rightarrow> ENetwork message 0 (Some (EHttpCause (status_code s) (headers s)))
      | None \<Rightarrow> ENetwork message 0 cause)"

section \<open>Status tables\<close>

definition errorFromHTTPStatus :: "int \<Rightarrow> bytes \<Rightarrow> http_response option \<Rightarrow> go_error option \<Rightarrow> go_error" where
  "errorFromHTTPStatus status message resp cause =
     (if status = 401 then AuthError message
      else if status = 403 \<or> status = 409 then AuthzError message
      else newNetworkError message resp cause)"

text \<open>gRPC codes 16 (Unauthenticated) and 7 (PermissionDenied).\<close>

definition errorFromGRPCStatus :: "int \<Rightarrow> bytes \<Rightarrow> go_error" where
  "errorFromGRPCStatus code message =
     (if code = 16 then AuthError message
      else if code = 7 then AuthzError message
      else newNetworkError message None None)"

definition parseAuthzFields :: "bytes \<Rightarrow> bytes \<times> bytes" where
  "parseAuthzFields body =
     (case Option.bind (parse_json body) struct_members of
        None \<Rightarrow> ([], [])
      | Some ms \<Rightarrow>
          (let fs = [''action'', ''resource_id''] in
           case (dec_string [] (field_values fs ''action'' ms), dec_string [] (field_values fs ''resource_id'' ms)) of
             (Some a, Some r) \<Rightarrow> (a, r)
           | _ \<Rightarrow> ([], [])))"

section \<open>The taxonomy\<close>

text \<open>
  An \<open>*OAuthProtocolError\<close> is an \<open>*AuthError\<close> to both \<open>errors.Is\<close> and \<open>errors.As\<close>, and never
  a transport or an authorization failure.
\<close>

lemma oauth_is_auth:
  "errors_is (EOAuth e) ErrAuth" "\<not> errors_is (EOAuth e) ErrAuthz" "\<not> errors_is (EOAuth e) ErrNetwork"
  "errors_as_auth (EOAuth e) = Some (op_auth e)"
  by (simp_all add: errors_is.simps errors_as_auth.simps)

text \<open>The three families of a status are told apart by the three sentinels.\<close>

definition family :: "go_error \<Rightarrow> sentinel option" where
  "family e = (case e of EAuth _ \<Rightarrow> Some ErrAuth | EOAuth _ \<Rightarrow> Some ErrAuth
     | EAuthz _ \<Rightarrow> Some ErrAuthz | ENetwork _ _ _ \<Rightarrow> Some ErrNetwork | _ \<Rightarrow> None)"

lemma newNetworkError_family: "family (newNetworkError m r c) = Some ErrNetwork"
  by (simp add: newNetworkError_def family_def split: option.splits)

lemma family_http: "family (errorFromHTTPStatus status m r c) =
    Some (if status = 401 then ErrAuth else if status \<in> {403, 409} then ErrAuthz else ErrNetwork)"
  using newNetworkError_family by (auto simp: errorFromHTTPStatus_def family_def AuthError_def AuthzError_def)

lemma family_grpc: "family (errorFromGRPCStatus code m) =
    Some (if code = 16 then ErrAuth else if code = 7 then ErrAuthz else ErrNetwork)"
  using newNetworkError_family by (auto simp: errorFromGRPCStatus_def family_def AuthError_def AuthzError_def)

section \<open>Redaction\<close>

definition canonical_headers :: "http_header \<Rightarrow> bool" where
  "canonical_headers h \<longleftrightarrow> (\<forall>n \<in> fst ` set h. canonical_key n = n)"

lemma redact_names_lookup:
  "\<forall>n \<in> set ns. canonical_key n = n \<Longrightarrow>
   map_of (redact_names ns h) k =
     (if k \<in> set ns \<and> \<not> safe_header_name k then Some [redactedHeader] else map_of h k)"
  by (induction ns arbitrary: h) (auto simp: header_set_def)

lemma redact_names_keys:
  "\<forall>n \<in> set ns. canonical_key n = n \<Longrightarrow> set ns \<subseteq> fst ` set h \<Longrightarrow>
   fst ` set (redact_names ns h) = fst ` set h"
  by (induction ns arbitrary: h) (auto simp: header_set_def dom_update insert_absorb)

lemma distinct_redact_names: "distinct_keys h \<Longrightarrow> distinct_keys (redact_names ns h)"
  by (induction ns arbitrary: h) (auto simp: header_set_def distinct_keys_update)

lemma sanitize_lookup:
  assumes "canonical_headers (headers r)"
  shows "map_of (redact_names (map fst (headers r)) (headers r)) k =
    map_option (\<lambda>vs. if safe_header_name k then vs else [redactedHeader]) (map_of (headers r) k)"
proof -
  have "\<forall>n \<in> set (map fst (headers r)). canonical_key n = n"
    using assms by (simp add: canonical_headers_def)
  from redact_names_lookup [OF this, of "headers r" k] show ?thesis
    using in_keys_iff [of k "headers r"] by (cases "map_of (headers r) k") auto
qed

section \<open>Properties\<close>

text \<open>
  (C32) A \<open>NetworkError\<close> built from a response carries, for every header the response has, its values
  when the name is on the allowlist and the placeholder when it is not, whatever cause the caller
  passed, and no header the response did not have; the names are as \<open>net/http\<close> reads them off
  the wire, in canonical form.
\<close>

theorem network_error_redacts:
  assumes "canonical_headers (headers r)"
  shows "\<exists>h. newNetworkError m (Some r) cause = ENetwork m 0 (Some (EHttpCause (status_code r) h)) \<and>
    (\<forall>k. map_of h k = map_option (\<lambda>vs. if safe_header_name k then vs else [''[REDACTED]'']) (map_of (headers r) k))"
  unfolding redactedHeader_def [symmetric]
  using sanitize_lookup [OF assms]
  by (simp add: newNetworkError_def sanitizeResponse_def)

definition example_response :: http_response where
  "example_response = \<lparr>status_code = 500, headers =
     [(''Set-Cookie'', [''axiam_access=secret'', ''b=c'']), (''Retry-After'', [''3''])]\<rparr>"

theorem network_error_redacts_witness:
  "\<exists>h. newNetworkError ''m'' (Some example_response) None = ENetwork ''m'' 0 (Some (EHttpCause 500 h)) \<and>
    map_of h ''Set-Cookie'' = Some [''[REDACTED]''] \<and> map_of h ''Retry-After'' = Some [''3'']"
proof -
  have c: "canonical_headers (headers example_response)" by code_simp
  have s: "\<not> safe_header_name ''Set-Cookie''" "safe_header_name ''Retry-After''" by code_simp+
  from network_error_redacts [OF c, of "''m''" None] obtain h where
    h: "newNetworkError ''m'' (Some example_response) None =
          ENetwork ''m'' 0 (Some (EHttpCause (status_code example_response) h))"
       "\<And>k. map_of h k = map_option (\<lambda>vs. if safe_header_name k then vs else [''[REDACTED]''])
          (map_of (headers example_response) k)" by blast
  show ?thesis
    by (intro exI [of _ h]) (simp add: h s, simp add: example_response_def)
qed

text \<open>
  (C13) The proviso on the names is needed: \<open>Header.Set\<close> writes the canonical form of the name, so the
  value of a header stored under another spelling stays in the error beside the placeholder.
\<close>

theorem noncanonical_header_leaks:
  "newNetworkError ''m'' (Some \<lparr>status_code = 500, headers = [(''x-auth-token'', [''secret''])]\<rparr>) None =
     ENetwork ''m'' 0 (Some (EHttpCause 500
       [(''x-auth-token'', [''secret'']), (''X-Auth-Token'', [''[REDACTED]''])]))"
  by code_simp

text \<open>
  (C14) The status tables: an error made from an HTTP response, or from a gRPC status, answers
  \<open>errors.Is\<close> for exactly one of the SDK's sentinels, the one its status stands for, whatever
  message and cause came with it.
\<close>

theorem status_families:
  "(errors_is (errorFromHTTPStatus status m (Some r) cause) s \<longleftrightarrow>
      s = (if status = 401 then ErrAuth else if status \<in> {403, 409} then ErrAuthz else ErrNetwork)) \<and>
   (errors_is (errorFromGRPCStatus code m) s \<longleftrightarrow>
      s = (if code = 16 then ErrAuth else if code = 7 then ErrAuthz else ErrNetwork))"
proof
  show "errors_is (errorFromHTTPStatus status m (Some r) cause) s \<longleftrightarrow>
      s = (if status = 401 then ErrAuth else if status \<in> {403, 409} then ErrAuthz else ErrNetwork)"
    by (cases s) (auto simp: errorFromHTTPStatus_def newNetworkError_def sanitizeResponse_def
      AuthError_def AuthzError_def errors_is.simps)
  show "errors_is (errorFromGRPCStatus code m) s \<longleftrightarrow>
      s = (if code = 16 then ErrAuth else if code = 7 then ErrAuthz else ErrNetwork)"
    by (cases s) (auto simp: errorFromGRPCStatus_def newNetworkError_def sanitizeResponse_def
      AuthError_def AuthzError_def errors_is.simps)
qed

end
