(* ===== verification/Retry.thy ===== *)
theory Retry
  imports Errors
begin

text \<open>
  \<open>retry.go\<close>: the bounded read-only retry policy. The operation, the jitter source, the
  clock and the sleep are functions on a world of any type; the loop is the source's, with
  one addition that computes nothing: it returns the list of what it did (calls, telemetry
  events, waits), which the properties are about. \<open>float64\<close> products are taken exactly and
  then truncated, as the conversion to \<open>time.Duration\<close> does.
\<close>

section \<open>Backoff and jitter\<close>

definition MaxAttempts :: nat where "MaxAttempts = 3"
definition BaseDelay :: duration where "BaseDelay = 200 * Millisecond"
definition MaxDelay :: duration where "MaxDelay = 5 * Second"

text \<open>
  A left shift of an \<open>int64\<close>. Go panics on a negative count; \<open>attempt\<close> is 1-based, and a
  \<open>nat\<close> here.
\<close>

definition shl64 :: "duration \<Rightarrow> nat \<Rightarrow> duration" where
  "shl64 d n = sint (push_bit n (word_of_int d :: 64 word))"

definition backoffFor :: "nat \<Rightarrow> duration" where
  "backoffFor attempt =
     (let d = shl64 BaseDelay (attempt - 1)
      in if d > MaxDelay \<or> d \<le> 0 then MaxDelay else d)"

definition clamp_fraction :: "rat \<Rightarrow> rat" where
  "clamp_fraction f = (if f < 0 then 0 else if f > 1 then 1 else f)"

text \<open>\<open>time.Duration(float64(b) * f)\<close> for non-negative factors.\<close>

definition scale :: "duration \<Rightarrow> rat \<Rightarrow> duration" where
  "scale b f = \<lfloor>rat_of_int b * f\<rfloor>"

definition delayFor :: "nat \<Rightarrow> duration \<Rightarrow> rat \<Rightarrow> duration" where
  "delayFor attempt retryAfter fraction =
     (let jittered = scale (backoffFor attempt) (clamp_fraction fraction)
      in if retryAfter > jittered then retryAfter else jittered)"

section \<open>The loop\<close>

record 'w retry_deadline =
  rd_at :: time
  rd_now :: "'w \<Rightarrow> time"
  rd_sleep :: "duration \<Rightarrow> 'w \<Rightarrow> go_error option \<times> 'w"

record retry_event =
  re_operation :: bytes
  re_attempt :: nat
  re_delay :: duration
  re_reason :: go_error

datatype retry_action =
    Call nat "go_error option"
  | Emit retry_event
  | Wait duration

text \<open>
  The client's parts the loop uses: \<open>retryEnabled\<close>, the jitter draw, and the wait of the
  unbounded case (a \<open>select\<close> between the context and a timer).
\<close>

record 'w retry_client =
  rc_enabled :: bool
  rc_jitter :: "'w \<Rightarrow> rat \<times> 'w"
  rc_wait :: "duration \<Rightarrow> 'w \<Rightarrow> go_error option \<times> 'w"

text \<open>\<open>errors.New\<close> sentinel of \<open>retryReadOnlyUntil\<close>.\<close>

definition errRetryDeadline :: go_error where
  "errRetryDeadline = EPlain ''axiam: retry deadline reached, no request sent after it''"

definition network_retry_after :: "go_error \<Rightarrow> duration option" where
  "network_retry_after e = (case e of ENetwork m r c \<Rightarrow> Some r | _ \<Rightarrow> None)"

text \<open>The wait of one retry and whether the deadline caps it.\<close>

definition retry_wait :: "'w retry_deadline option \<Rightarrow> duration \<Rightarrow> 'w \<Rightarrow> duration \<times> bool" where
  "retry_wait bound wait w =
     (case bound of None \<Rightarrow> (wait, False)
      | Some b \<Rightarrow>
          (let left = time_sub (rd_at b) (rd_now b w)
           in if wait \<ge> left then (if left < 0 then 0 else left, True) else (wait, False)))"

text \<open>
  Serving the wait: a bounded retry sleeps on the deadline's own clock, and not at all for
  a zero wait; the error of an interrupted sleep, the deadline error, or \<open>None\<close> to go on.
\<close>

definition serve_wait ::
  "'w retry_client \<Rightarrow> 'w retry_deadline option \<Rightarrow> duration \<Rightarrow> bool \<Rightarrow> 'w \<Rightarrow> (go_error option \<times> 'w) \<times> retry_action list" where
  "serve_wait c bound wait atDeadline w =
     (case bound of
        None \<Rightarrow> (rc_wait c wait w, [Wait wait])
      | Some b \<Rightarrow>
          (let ((err, w'), acts) = (if wait > 0 then (rd_sleep b wait w, [Wait wait]) else ((None, w), []))
           in (case err of
                 Some e \<Rightarrow> ((Some e, w'), acts)
               | None \<Rightarrow> ((if atDeadline then Some errRetryDeadline else None, w'), acts))))"

function retry_loop ::
  "'w retry_client \<Rightarrow> bytes \<Rightarrow> 'w retry_deadline option \<Rightarrow> (nat \<Rightarrow> 'w \<Rightarrow> go_error option \<times> 'w) \<Rightarrow>
   nat \<Rightarrow> nat \<Rightarrow> 'w \<Rightarrow> (go_error option \<times> 'w) \<times> retry_action list" where
  "retry_loop c operation bound op attempts attempt w =
     (let (lastErr, w1) = op attempt w in
      case lastErr of
        None \<Rightarrow> ((None, w1), [Call attempt None])
      | Some e \<Rightarrow>
        (case network_retry_after e of
           None \<Rightarrow> ((Some e, w1), [Call attempt (Some e)])
         | Some ra \<Rightarrow>
           if attempt \<ge> attempts then ((Some e, w1), [Call attempt (Some e)])
           else
             (let (f, w2) = rc_jitter c w1;
                  (wait, atDeadline) = retry_wait bound (delayFor attempt ra f) w2;
                  ev = \<lparr>re_operation = operation, re_attempt = attempt, re_delay = wait, re_reason = e\<rparr>;
                  ((err, w3), acts) = serve_wait c bound wait atDeadline w2;
                  pre = [Call attempt (Some e), Emit ev] @ acts
              in case err of
                   Some e' \<Rightarrow> ((Some e', w3), pre)
                 | None \<Rightarrow>
                   (let (res, rest) = retry_loop c operation bound op attempts (Suc attempt) w3
                    in (res, pre @ rest)))))"
  by pat_completeness auto
termination
  by (relation "measure (\<lambda>(_, _, _, _, attempts, attempt, _). attempts - attempt)") auto

declare retry_loop.simps [simp del]

definition retryReadOnlyUntil ::
  "'w retry_client \<Rightarrow> bytes \<Rightarrow> 'w retry_deadline option \<Rightarrow> (nat \<Rightarrow> 'w \<Rightarrow> go_error option \<times> 'w) \<Rightarrow>
   'w \<Rightarrow> (go_error option \<times> 'w) \<times> retry_action list" where
  "retryReadOnlyUntil c operation bound op w =
     retry_loop c operation bound op (if rc_enabled c then MaxAttempts else 1) 1 w"

definition retryReadOnly ::
  "'w retry_client \<Rightarrow> bytes \<Rightarrow> (nat \<Rightarrow> 'w \<Rightarrow> go_error option \<times> 'w) \<Rightarrow>
   'w \<Rightarrow> (go_error option \<times> 'w) \<times> retry_action list" where
  "retryReadOnly c operation op w = retryReadOnlyUntil c operation None op w"

text \<open>The attempt numbers a run made, in order, and the waits it served.\<close>

definition calls_of :: "retry_action list \<Rightarrow> nat list" where
  "calls_of acts = List.map_filter (\<lambda>a. case a of Call n _ \<Rightarrow> Some n | _ \<Rightarrow> None) acts"

definition waits_of :: "retry_action list \<Rightarrow> duration list" where
  "waits_of acts = List.map_filter (\<lambda>a. case a of Wait d \<Rightarrow> Some d | _ \<Rightarrow> None) acts"

section \<open>Interface: a jittered backoff\<close>

text \<open>
  Both reconnect loops of the SDK draw a full-jitter delay from a backoff with a ceiling;
  what a caller relies on is that the delay lies between zero and the ceiling.
\<close>

locale jittered_backoff =
  fixes backoff :: "nat \<Rightarrow> duration" and ceiling :: duration
  assumes backoff_pos: "0 < backoff n" and backoff_le: "backoff n \<le> ceiling"
begin

lemma jitter_nonneg: "0 \<le> scale (backoff n) (clamp_fraction f)"
  using backoff_pos [of n] by (simp add: scale_def clamp_fraction_def zero_le_mult_iff)

lemma jitter_le_backoff: "scale (backoff n) (clamp_fraction f) \<le> backoff n"
proof -
  have "rat_of_int (backoff n) * clamp_fraction f \<le> rat_of_int (backoff n) * 1"
    using backoff_pos [of n] by (intro mult_left_mono) (auto simp: clamp_fraction_def)
  then have "\<lfloor>rat_of_int (backoff n) * clamp_fraction f\<rfloor> \<le> \<lfloor>rat_of_int (backoff n)\<rfloor>"
    by (intro floor_mono) simp
  then show ?thesis by (simp add: scale_def)
qed

lemma jitter_le_ceiling: "scale (backoff n) (clamp_fraction f) \<le> ceiling"
  using jitter_le_backoff backoff_le order_trans by blast

lemma jitter_full: "1 \<le> f \<Longrightarrow> scale (backoff n) (clamp_fraction f) = backoff n"
  by (cases "f = 1") (auto simp: scale_def clamp_fraction_def)

lemma jitter_zero: "f \<le> 0 \<Longrightarrow> scale (backoff n) (clamp_fraction f) = 0"
  by (cases "f = 0") (auto simp: scale_def clamp_fraction_def)

end

section \<open>The backoff is the capped exponential, at every attempt\<close>

lemmas delay_defs = BaseDelay_def MaxDelay_def Millisecond_def Second_def

lemma shl64_eq: "shl64 d n = wrap64 (d * 2 ^ n)"
  by (simp add: shl64_def wrap64_def push_bit_eq_mult)

text \<open>
  \<open>BaseDelay\<close> is a multiple of \<open>2 ^ 8\<close>, so a shift far enough to overflow leaves a multiple
  of \<open>2 ^ 33\<close>: zero, negative, or above the ceiling. The guard \<open>d <= 0\<close> is enough.
\<close>

lemma wrap64_multiple: "2 ^ k dvd x \<Longrightarrow> k \<le> 64 \<Longrightarrow> 2 ^ k dvd wrap64 x"
proof -
  assume x: "2 ^ k dvd x" and k: "k \<le> 64"
  obtain j where j: "wrap64 x = x + j * 18446744073709551616" using wrap64_offset by blast
  have "(2 :: int) ^ k dvd 2 ^ 64" using k by (rule le_imp_power_dvd)
  then show "2 ^ k dvd wrap64 x" unfolding j using x by (simp add: dvd_add dvd_mult)
qed

lemma shift_overflow:
  assumes "25 \<le> n"
  shows "let d = shl64 BaseDelay n in d > MaxDelay \<or> d \<le> 0"
proof -
  have base: "(2 :: int) ^ 8 dvd BaseDelay" by (simp add: delay_defs)
  have "(2 :: int) ^ 25 dvd 2 ^ n" using assms by (rule le_imp_power_dvd)
  with base have "(2 :: int) ^ 8 * 2 ^ 25 dvd BaseDelay * 2 ^ n" by (rule mult_dvd_mono)
  then have "(2 :: int) ^ 33 dvd BaseDelay * 2 ^ n" by (simp flip: power_add)
  then have "2 ^ 33 dvd shl64 BaseDelay n" unfolding shl64_eq by (rule wrap64_multiple) simp
  then have "shl64 BaseDelay n \<le> 0 \<or> 2 ^ 33 \<le> shl64 BaseDelay n" using zdvd_imp_le by force
  then show ?thesis by (auto simp: delay_defs Let_def)
qed

lemma shift_small: "n < 25 \<Longrightarrow> shl64 BaseDelay n = BaseDelay * 2 ^ n"
proof -
  assume "n < 25"
  then have "(2 :: int) ^ n \<le> 2 ^ 24" by (intro power_increasing) auto
  then have "(2 :: int) ^ n \<le> 16777216" by simp
  moreover have "(0 :: int) < 2 ^ n" by simp
  ultimately have "in_int64 (BaseDelay * 2 ^ n)"
    unfolding in_int64_def delay_defs min_int64_def max_int64_def by linarith
  then show ?thesis by (simp add: shl64_eq)
qed

lemma backoffFor_eq_min: "backoffFor attempt = min MaxDelay (BaseDelay * 2 ^ (attempt - 1))"
proof (cases "attempt - 1 < 25")
  case True
  then show ?thesis by (simp add: backoffFor_def shift_small min_def Let_def) (simp add: delay_defs)
next
  case False
  then have "(2 :: int) ^ 25 \<le> 2 ^ (attempt - 1)" by (intro power_increasing) auto
  then have "MaxDelay \<le> BaseDelay * 2 ^ (attempt - 1)" by (simp add: delay_defs)
  moreover have "backoffFor attempt = MaxDelay"
    using shift_overflow [of "attempt - 1"] False by (auto simp: backoffFor_def Let_def)
  ultimately show ?thesis by (simp add: min_def)
qed

interpretation retry_backoff: jittered_backoff backoffFor MaxDelay
  by unfold_locales (simp_all add: backoffFor_eq_min, simp add: delay_defs)

lemma delayFor_bounds:
  "ra \<le> delayFor n ra f" "0 \<le> delayFor n ra f" "delayFor n ra f \<le> max ra (backoffFor n)"
  using retry_backoff.jitter_nonneg [of n f] retry_backoff.jitter_le_backoff [of n f]
  by (auto simp: delayFor_def Let_def)

section \<open>What a run did\<close>

definition results_of :: "retry_action list \<Rightarrow> go_error option list" where
  "results_of acts = List.map_filter (\<lambda>a. case a of Call _ r \<Rightarrow> Some r | _ \<Rightarrow> None) acts"

lemma action_lists [simp]:
  "calls_of [] = []" "calls_of (Call n r # acts) = n # calls_of acts"
  "calls_of (Emit e # acts) = calls_of acts" "calls_of (Wait d # acts) = calls_of acts"
  "waits_of [] = []" "waits_of (Call n r # acts) = waits_of acts"
  "waits_of (Emit e # acts) = waits_of acts" "waits_of (Wait d # acts) = d # waits_of acts"
  "results_of [] = []" "results_of (Call n r # acts) = r # results_of acts"
  "results_of (Emit e # acts) = results_of acts" "results_of (Wait d # acts) = results_of acts"
  by (simp_all add: calls_of_def waits_of_def results_of_def map_filter_simps)

lemma action_lists_append [simp]:
  "calls_of (xs @ ys) = calls_of xs @ calls_of ys"
  "waits_of (xs @ ys) = waits_of xs @ waits_of ys"
  "results_of (xs @ ys) = results_of xs @ results_of ys"
  by (simp_all add: calls_of_def waits_of_def results_of_def map_filter_def)

lemma serve_wait_acts:
  "snd (serve_wait c bound wait d w) = [] \<or> snd (serve_wait c bound wait d w) = [Wait wait]"
  by (auto simp: serve_wait_def Let_def split: option.splits prod.splits)

lemma serve_wait_lists [simp]:
  "serve_wait c bound wait d w = (r, acts) \<Longrightarrow> calls_of acts = []"
  "serve_wait c bound wait d w = (r, acts) \<Longrightarrow> results_of acts = []"
  "serve_wait c bound wait d w = (r, acts) \<Longrightarrow> Emit e \<notin> set acts"
  using serve_wait_acts [of c bound wait d w] by auto

text \<open>
  One round of the loop, as three cases: the call's result is final; the wait ended the
  run; the run goes on with the next attempt.
\<close>

lemma retry_loop_cases:
  obtains (final) w1 r where "op attempt w = (r, w1)"
      "retry_loop c operation bound op N attempt w = ((r, w1), [Call attempt r])"
      "r = None \<or> attempt \<ge> N \<or> (\<exists>e. r = Some e \<and> network_retry_after e = None)"
    | (stopped) w1 e ra f w2 wait dl w3 acts e' where "op attempt w = (Some e, w1)"
      "network_retry_after e = Some ra" "attempt < N" "rc_jitter c w1 = (f, w2)"
      "retry_wait bound (delayFor attempt ra f) w2 = (wait, dl)"
      "serve_wait c bound wait dl w2 = ((Some e', w3), acts)"
      "retry_loop c operation bound op N attempt w =
         ((Some e', w3), Call attempt (Some e) # Emit \<lparr>re_operation = operation,
             re_attempt = attempt, re_delay = wait, re_reason = e\<rparr> # acts)"
    | (again) w1 e ra f w2 wait dl w3 acts where "op attempt w = (Some e, w1)"
      "network_retry_after e = Some ra" "attempt < N" "rc_jitter c w1 = (f, w2)"
      "retry_wait bound (delayFor attempt ra f) w2 = (wait, dl)"
      "serve_wait c bound wait dl w2 = ((None, w3), acts)"
      "retry_loop c operation bound op N attempt w =
         (let (res, rest) = retry_loop c operation bound op N (Suc attempt) w3
          in (res, Call attempt (Some e) # Emit \<lparr>re_operation = operation,
             re_attempt = attempt, re_delay = wait, re_reason = e\<rparr> # acts @ rest))"
proof -
  obtain r w1 where op: "op attempt w = (r, w1)" by force
  show thesis
  proof (cases "r = None \<or> attempt \<ge> N \<or> (\<exists>e. r = Some e \<and> network_retry_after e = None)")
    case True
    then show thesis
      by (intro final [OF op]) (auto simp: retry_loop.simps [of c operation bound op N attempt w] op split: option.splits)
  next
    case False
    then obtain e ra where r: "r = Some e" "network_retry_after e = Some ra" "attempt < N" by (auto simp: not_le)
    obtain f w2 where j: "rc_jitter c w1 = (f, w2)" by force
    obtain wait dl where wt: "retry_wait bound (delayFor attempt ra f) w2 = (wait, dl)" by force
    obtain err w3 acts where sw: "serve_wait c bound wait dl w2 = ((err, w3), acts)" by (metis surj_pair)
    show thesis
    proof (cases err)
      case None
      show thesis
        by (rule again [OF op [unfolded r(1)] r(2,3) j wt sw [unfolded None]])
          (use False in \<open>simp add: retry_loop.simps [of c operation bound op N attempt w] op r(1,2) j wt sw None split: prod.splits\<close>)
    next
      case (Some e')
      show thesis
        by (rule stopped [OF op [unfolded r(1)] r(2,3) j wt sw [unfolded Some]])
          (use False in \<open>simp add: retry_loop.simps [of c operation bound op N attempt w] op r(1,2) j wt sw Some\<close>)
    qed
  qed
qed

lemma retry_loop_induct:
  assumes final: "\<And>attempt w w1 r. op attempt w = (r, w1) \<Longrightarrow>
      r = None \<or> attempt \<ge> N \<or> (\<exists>e. r = Some e \<and> network_retry_after e = None) \<Longrightarrow>
      P attempt w ((r, w1), [Call attempt r])"
    and stopped: "\<And>attempt w w1 e ra f w2 wait dl w3 acts e'. op attempt w = (Some e, w1) \<Longrightarrow>
      network_retry_after e = Some ra \<Longrightarrow> attempt < N \<Longrightarrow> rc_jitter c w1 = (f, w2) \<Longrightarrow>
      retry_wait bound (delayFor attempt ra f) w2 = (wait, dl) \<Longrightarrow>
      serve_wait c bound wait dl w2 = ((Some e', w3), acts) \<Longrightarrow>
      P attempt w ((Some e', w3), Call attempt (Some e) # Emit \<lparr>re_operation = operation,
             re_attempt = attempt, re_delay = wait, re_reason = e\<rparr> # acts)"
    and again: "\<And>attempt w w1 e ra f w2 wait dl w3 acts res rest. op attempt w = (Some e, w1) \<Longrightarrow>
      network_retry_after e = Some ra \<Longrightarrow> attempt < N \<Longrightarrow> rc_jitter c w1 = (f, w2) \<Longrightarrow>
      retry_wait bound (delayFor attempt ra f) w2 = (wait, dl) \<Longrightarrow>
      serve_wait c bound wait dl w2 = ((None, w3), acts) \<Longrightarrow>
      P (Suc attempt) w3 (res, rest) \<Longrightarrow>
      P attempt w (res, Call attempt (Some e) # Emit \<lparr>re_operation = operation,
             re_attempt = attempt, re_delay = wait, re_reason = e\<rparr> # acts @ rest)"
  shows "P attempt w (retry_loop c operation bound op N attempt w)"
proof (induction "N - attempt" arbitrary: attempt w rule: less_induct)
  case less
  show ?case
  proof (cases rule: retry_loop_cases [of op attempt w c operation bound N])
    case (final w1 r)
    then show ?thesis by (simp add: assms(1))
  next
    case (stopped w1 e ra f w2 wait dl w3 acts e')
    then show ?thesis by (simp add: assms(2))
  next
    case (again w1 e ra f w2 wait dl w3 acts)
    obtain res rest where rec: "retry_loop c operation bound op N (Suc attempt) w3 = (res, rest)" by (metis surj_pair)
    have "P (Suc attempt) w3 (res, rest)"
      using less [of "Suc attempt" w3] again(3) rec by simp
    from assms(3) [OF again(1-6) this] show ?thesis by (simp add: again(7) rec)
  qed
qed

lemma retry_loop_calls:
  assumes "attempt \<le> N"
  shows "let ns = calls_of (snd (retry_loop c operation bound op N attempt w))
    in ns \<noteq> [] \<and> ns = [attempt..<attempt + length ns] \<and> attempt + length ns \<le> Suc N"
proof -
  define P where "P = (\<lambda>a (_ :: 'a) (r :: (go_error option \<times> 'a) \<times> retry_action list).
    a \<le> N \<longrightarrow> (let ns = calls_of (snd r) in ns \<noteq> [] \<and> ns = [a..<a + length ns] \<and> a + length ns \<le> Suc N))"
  have "P attempt w (retry_loop c operation bound op N attempt w)"
  proof (rule retry_loop_induct [where P = P], goal_cases)
    case (1 attempt w w1 r)
    then show ?case by (simp add: P_def)
  next
    case (2 attempt w w1 e ra f w2 wait dl w3 acts e')
    then show ?case by (simp add: P_def)
  next
    case (3 attempt w w1 e ra f w2 wait dl w3 acts res rest)
    from 3(7) 3(3) have "calls_of rest \<noteq> []" "calls_of rest = [Suc attempt..<Suc attempt + length (calls_of rest)]"
      "Suc attempt + length (calls_of rest) \<le> Suc N"
      unfolding P_def by (simp_all add: Let_def)
    moreover from this(1) have "Suc 0 \<le> length (calls_of rest)" by (simp add: Suc_leI)
    ultimately show ?case using 3(6) by (simp add: P_def Let_def upt_conv_Cons)
  qed
  with assms show ?thesis by (simp add: P_def)
qed

text \<open>Every call before the last one failed, with a transport failure.\<close>

definition transient_result :: "go_error option \<Rightarrow> bool" where
  "transient_result r \<longleftrightarrow> (\<exists>m ra ca. r = Some (ENetwork m ra ca))"

lemma network_retry_after_Some: "network_retry_after e = Some ra \<Longrightarrow> transient_result (Some e)"
  by (auto simp: network_retry_after_def transient_result_def split: go_error.splits)

lemma retry_loop_transient:
  "let rs = results_of (snd (retry_loop c operation bound op N attempt w))
   in rs \<noteq> [] \<and> list_all transient_result (butlast rs)"
  by (rule retry_loop_induct [where P = "\<lambda>_ _ r. let rs = results_of (snd r) in rs \<noteq> [] \<and> list_all transient_result (butlast rs)"])
    (simp_all add: Let_def network_retry_after_Some)

text \<open>The run's result is the last call's, unless a wait ended the run.\<close>

lemma retry_loop_result:
  "let l = last (results_of (snd (retry_loop c operation bound op N attempt w)));
       res = fst (fst (retry_loop c operation bound op N attempt w))
   in res = l \<or> transient_result l \<and> res \<noteq> None"
proof -
  define P where "P = (\<lambda>(_ :: nat) (_ :: 'a) (r :: (go_error option \<times> 'a) \<times> retry_action list).
    results_of (snd r) \<noteq> [] \<and> (fst (fst r) = last (results_of (snd r)) \<or>
      transient_result (last (results_of (snd r))) \<and> fst (fst r) \<noteq> None))"
  have "P attempt w (retry_loop c operation bound op N attempt w)"
    by (rule retry_loop_induct [where P = P]) (simp_all add: P_def network_retry_after_Some)
  then show ?thesis by (simp add: P_def Let_def)
qed

section \<open>Delays\<close>

text \<open>
  Every announced retry follows a transport failure, and its delay is at least the server's
  \<open>Retry-After\<close> and at most the larger of that and the backoff of the attempt; a deadline
  can only shorten it.
\<close>

definition delay_ok :: "'w retry_deadline option \<Rightarrow> retry_action \<Rightarrow> bool" where
  "delay_ok bound a = (case a of
      Emit ev \<Rightarrow> (case network_retry_after (re_reason ev) of None \<Rightarrow> False
        | Some ra \<Rightarrow> 0 \<le> re_delay ev \<and> re_delay ev \<le> max ra (backoffFor (re_attempt ev)) \<and>
            (if bound = None then ra \<le> re_delay ev else True))
    | _ \<Rightarrow> True)"

lemma retry_wait_bounds:
  assumes "retry_wait bound (delayFor n ra f) w = (wait, dl)"
  shows "0 \<le> wait" "wait \<le> max ra (backoffFor n)" "bound = None \<Longrightarrow> ra \<le> wait"
  using assms delayFor_bounds [where ra = ra and n = n and f = f]
  by (auto simp: retry_wait_def Let_def split: option.splits if_splits)

lemma serve_wait_delay_ok:
  "serve_wait c bound wait dl w = (r, acts) \<Longrightarrow> list_all (delay_ok b) acts"
  using serve_wait_acts [of c bound wait dl w] by (auto simp: delay_ok_def)

lemma retry_loop_delays:
  "list_all (delay_ok bound) (snd (retry_loop c operation bound op N attempt w))"
  by (rule retry_loop_induct [where P = "\<lambda>_ _ r. list_all (delay_ok bound) (snd r)"])
    (simp_all add: delay_ok_def [where a = "Call _ _"] delay_ok_def [where a = "Emit _"]
      serve_wait_delay_ok retry_wait_bounds)

section \<open>The deadline\<close>

text \<open>
  The clock of a deadline: the waits it serves are exact, and neither the jitter draw nor a
  failed attempt moves it backwards.
\<close>

definition clock_laws :: "'w retry_client \<Rightarrow> 'w retry_deadline \<Rightarrow> (nat \<Rightarrow> 'w \<Rightarrow> go_error option \<times> 'w) \<Rightarrow> bool" where
  "clock_laws c b op \<longleftrightarrow>
     (\<forall>d w. 0 < d \<longrightarrow> fst (rd_sleep b d w) = None \<longrightarrow> rd_now b (snd (rd_sleep b d w)) = rd_now b w + d) \<and>
     (\<forall>w. rd_now b w \<le> rd_now b (snd (rc_jitter c w))) \<and>
     (\<forall>n w. rd_now b w \<le> rd_now b (snd (op n w)))"

text \<open>A wait that lets the run go on ends before the deadline.\<close>

lemma wait_before_deadline:
  assumes laws: "clock_laws c b op"
    and wt: "retry_wait (Some b) (delayFor n ra f) w2 = (wait, dl)"
    and sw: "serve_wait c (Some b) wait dl w2 = ((None, w3), acts)"
  shows "rd_now b w3 < rd_at b"
proof -
  let ?d = "delayFor n ra f"
  have dl: "\<not> dl"
    using sw by (auto simp: serve_wait_def Let_def split: option.splits prod.splits if_splits)
  then have wait: "wait = ?d" "\<not> time_sub (rd_at b) (rd_now b w2) \<le> ?d"
    using wt by (auto simp: retry_wait_def Let_def split: if_splits)
  with delayFor_bounds(2) [of n ra f] have left: "wait < rd_at b - rd_now b w2"
    by (auto simp: time_sub_def sat64_def min_int64_def split: if_splits)
  show ?thesis
  proof (cases "wait > 0")
    case True
    with sw have "fst (rd_sleep b wait w2) = None" "snd (rd_sleep b wait w2) = w3"
      by (auto simp: serve_wait_def Let_def split: option.splits prod.splits if_splits)
    with laws True have "rd_now b w3 = rd_now b w2 + wait" unfolding clock_laws_def by metis
    with left show ?thesis by simp
  next
    case False
    with sw have "w3 = w2"
      by (auto simp: serve_wait_def Let_def split: option.splits prod.splits if_splits)
    with left False wait delayFor_bounds(2) [of n ra f] show ?thesis by simp
  qed
qed

text \<open>
  So no retry is sent at or after the deadline: the run does not depend on what the
  operation would do there.
\<close>

lemma retry_loop_deadline:
  assumes "clock_laws c b op"
    and "\<And>n w. n = attempt \<or> rd_now b w < rd_at b \<Longrightarrow> op' n w = op n w"
  shows "retry_loop c operation (Some b) op' N attempt w = retry_loop c operation (Some b) op N attempt w"
proof -
  define P where "P = (\<lambda>a w r. (a = attempt \<or> rd_now b w < rd_at b) \<longrightarrow>
    retry_loop c operation (Some b) op' N a w = r)"
  have "P attempt w (retry_loop c operation (Some b) op N attempt w)"
  proof (rule retry_loop_induct [where P = P], goal_cases)
    case (1 a w w1 r)
    then show ?case
      unfolding P_def retry_loop.simps [of c operation "Some b" op' N a w]
      by (auto simp: assms(2) split: option.splits)
  next
    case (2 a w w1 e ra f w2 wait dl w3 acts e')
    then show ?case
      unfolding P_def retry_loop.simps [of c operation "Some b" op' N a w]
      by (auto simp: assms(2))
  next
    case (3 a w w1 e ra f w2 wait dl w3 acts res rest)
    from wait_before_deadline [OF assms(1) 3(5,6)] 3(7)
    have "retry_loop c operation (Some b) op' N (Suc a) w3 = (res, rest)" by (simp add: P_def)
    with 3 show ?case
      unfolding P_def retry_loop.simps [of c operation "Some b" op' N a w]
      by (auto simp: assms(2))
  qed
  then show ?thesis by (simp add: P_def)
qed

section \<open>Properties\<close>

text \<open>
  (C14) A retried read-only operation is called with attempt numbers 1, 2, ... without a gap, at
  least once and at most \<open>MaxAttempts\<close> times (once when retries are disabled); every call
  before the last failed with a \<open>*NetworkError\<close>, so a decisive answer is never retried; and the
  outcome is the last call's, unless that call was a transport failure whose wait was
  cut short, in which case the run fails.
\<close>

theorem retry_policy:
  "let r = retryReadOnlyUntil c operation bound op w; ns = calls_of (snd r); rs = results_of (snd r)
   in ns = [1..<Suc (length ns)] \<and> 1 \<le> length ns \<and> length ns \<le> (if rc_enabled c then 3 else 1) \<and>
      list_all transient_result (butlast rs) \<and>
      (fst (fst r) = last rs \<or> transient_result (last rs) \<and> fst (fst r) \<noteq> None)"
proof -
  let ?N = "if rc_enabled c then MaxAttempts else 1"
  let ?r = "retry_loop c operation bound op ?N 1 w"
  have N: "1 \<le> ?N" "?N = (if rc_enabled c then 3 else 1)" by (simp_all add: MaxAttempts_def)
  define ns where "ns = calls_of (snd ?r)"
  have ns: "ns \<noteq> [] \<and> ns = [1..<1 + length ns] \<and> 1 + length ns \<le> Suc ?N"
    using retry_loop_calls [OF N(1), of c operation bound op w] by (simp add: ns_def Let_def)
  have len: "1 \<le> length ns" using ns by (simp add: Suc_leI)
  show ?thesis
    using ns len retry_loop_transient [of c operation bound op ?N 1 w]
      retry_loop_result [of c operation bound op ?N 1 w] N(2)
    unfolding retryReadOnlyUntil_def Let_def ns_def by (simp del: upt_Suc)
qed

text \<open>
  (C30) The backoff of every attempt is 200 ms doubled per attempt and capped at 5 s, the shift's
  overflow included; and each retry of a run waits at least nothing, at least the server's
  \<open>Retry-After\<close> when no deadline bounds the run, and never longer than the larger of
  \<open>Retry-After\<close> and the backoff.
\<close>

theorem retry_delays:
  "backoffFor n = min (5 * Second) (200 * Millisecond * 2 ^ (n - 1)) \<and>
   list_all (delay_ok bound) (snd (retryReadOnlyUntil c operation bound op w))"
  using retry_loop_delays
  by (auto simp: retryReadOnlyUntil_def backoffFor_eq_min BaseDelay_def MaxDelay_def)


text \<open>A world that is only a clock, an operation that always fails in transport.\<close>

definition example_client :: "time retry_client" where
  "example_client = \<lparr>rc_enabled = True, rc_jitter = (\<lambda>w. (1, w)), rc_wait = (\<lambda>d w. (None, w + d))\<rparr>"

definition example_deadline :: "time retry_deadline" where
  "example_deadline = \<lparr>rd_at = 500 * Millisecond, rd_now = (\<lambda>w. w), rd_sleep = (\<lambda>d w. (None, w + d))\<rparr>"

definition example_failing :: "nat \<Rightarrow> time \<Rightarrow> go_error option \<times> time" where
  "example_failing n w = (Some (NetworkError ''down''), w)"

definition example_recovering :: "nat \<Rightarrow> time \<Rightarrow> go_error option \<times> time" where
  "example_recovering n w = (if n = 1 \<or> w < 500 * Millisecond then Some (NetworkError ''down'') else None, w)"


end
