(* ===== verification/Decision_Memo.thy ===== *)
theory Decision_Memo
  imports Errors
begin

text \<open>
  \<open>decision_memo.go\<close>: the opt-in memo of authorization decisions. The state is the source's
  pair of structures, a map from key to list element and a list of elements with the oldest
  first; an element's identity is a number. Its contract is a bounded first-in first-out map
  (\<open>memo_spec\<close>), which the operations refine.
\<close>

section \<open>Data\<close>

record AccessCheck =
  ac_Action :: bytes
  ac_ResourceID :: bytes
  ac_Scope :: bytes
  ac_SubjectID :: bytes

record AccessResult =
  ar_Allowed :: bool
  ar_Reason :: bytes
  ar_ReasonCode :: bytes

definition MaxMemoTTL :: duration where "MaxMemoTTL = 5 * Second"
definition maxMemoEntries :: nat where "maxMemoEntries = 1024"
definition memoSep :: char where "memoSep = CHR 0x1F"
definition memoAbsent :: bytes where "memoAbsent = [CHR 0x00]"

definition memo_part :: "bytes \<Rightarrow> bytes" where
  "memo_part s = (if s = [] then memoAbsent else s)"

definition memo_parts :: "AccessCheck \<Rightarrow> bytes option \<Rightarrow> bytes list" where
  "memo_parts check actingTenant =
     [(case actingTenant of None \<Rightarrow> memoAbsent | Some t \<Rightarrow> t),
      memo_part (ac_SubjectID check), ac_ResourceID check, ac_Action check, memo_part (ac_Scope check)]"

definition memoKey :: "AccessCheck \<Rightarrow> bytes option \<Rightarrow> bytes" where
  "memoKey check actingTenant = join [memoSep] (memo_parts check actingTenant)"

record memoEntry =
  me_key :: bytes
  me_result :: AccessResult
  me_storedAt :: time

record decisionMemo =
  dm_ttl :: duration
  dm_entries :: "(bytes \<times> nat) list"
  dm_order :: "(nat \<times> memoEntry) list"
  dm_next :: nat

definition clamp_ttl :: "duration \<Rightarrow> duration" where
  "clamp_ttl ttl = (if ttl < 0 then 0 else if ttl > MaxMemoTTL then MaxMemoTTL else ttl)"

definition newDecisionMemo :: "duration \<Rightarrow> decisionMemo" where
  "newDecisionMemo ttl = \<lparr>dm_ttl = clamp_ttl ttl, dm_entries = [], dm_order = [], dm_next = 0\<rparr>"

definition memo_enabled :: "decisionMemo \<Rightarrow> bool" where
  "memo_enabled m \<longleftrightarrow> dm_ttl m > 0"

section \<open>Operations\<close>

text \<open>\<open>order.Remove(el)\<close> and the element a key maps to.\<close>

definition order_remove :: "nat \<Rightarrow> (nat \<times> memoEntry) list \<Rightarrow> (nat \<times> memoEntry) list" where
  "order_remove el xs = filter (\<lambda>(i, _). i \<noteq> el) xs"

definition element :: "decisionMemo \<Rightarrow> nat \<Rightarrow> memoEntry option" where
  "element m el = map_of (dm_order m) el"

definition memo_drop :: "bytes \<Rightarrow> nat \<Rightarrow> decisionMemo \<Rightarrow> decisionMemo" where
  "memo_drop key el m =
     m\<lparr>dm_order := order_remove el (dm_order m), dm_entries := AList.delete key (dm_entries m)\<rparr>"

definition memo_get :: "time \<Rightarrow> bytes \<Rightarrow> decisionMemo \<Rightarrow> AccessResult option \<times> decisionMemo" where
  "memo_get now key m =
     (if \<not> memo_enabled m then (None, m)
      else (case map_of (dm_entries m) key of
              None \<Rightarrow> (None, m)
            | Some el \<Rightarrow>
              (case element m el of
                 None \<Rightarrow> (None, m)
               | Some entry \<Rightarrow>
                 if time_sub now (me_storedAt entry) \<ge> dm_ttl m then (None, memo_drop key el m)
                 else (Some (me_result entry), m))))"

text \<open>The eviction loop: drop the oldest element while there are too many.\<close>

fun evict :: "(nat \<times> memoEntry) list \<Rightarrow> (bytes \<times> nat) list \<Rightarrow> (nat \<times> memoEntry) list \<times> (bytes \<times> nat) list" where
  "evict [] es = ([], es)"
| "evict ((i, e) # xs) es =
     (if length ((i, e) # xs) > maxMemoEntries then evict xs (AList.delete (me_key e) es)
      else ((i, e) # xs, es))"

definition memo_set :: "time \<Rightarrow> bytes \<Rightarrow> AccessResult \<Rightarrow> decisionMemo \<Rightarrow> decisionMemo" where
  "memo_set now key result m =
     (if \<not> memo_enabled m then m
      else
        (let m1 = (case map_of (dm_entries m) key of None \<Rightarrow> m | Some el \<Rightarrow> memo_drop key el m);
             entry = \<lparr>me_key = key, me_result = result, me_storedAt = now\<rparr>;
             (order, entries) = evict (dm_order m1 @ [(dm_next m, entry)])
                                      (AList.update key (dm_next m) (dm_entries m1))
         in m1\<lparr>dm_order := order, dm_entries := entries, dm_next := Suc (dm_next m)\<rparr>))"

definition memo_clear :: "decisionMemo \<Rightarrow> decisionMemo" where
  "memo_clear m = m\<lparr>dm_entries := [], dm_order := []\<rparr>"

definition memo_len :: "decisionMemo \<Rightarrow> nat" where
  "memo_len m = length (dm_order m)"

text \<open>\<open>reportMemoClamp\<close>: whether the clamp event fires, and what it carries.\<close>

definition reportMemoClamp :: "duration \<Rightarrow> duration \<Rightarrow> bool \<Rightarrow> (duration \<times> duration) option" where
  "reportMemoClamp requested effective installed =
     (if \<not> installed \<or> requested \<le> 0 \<or> requested = effective then None else Some (requested, effective))"

section \<open>The two structures agree\<close>

definition linked :: "(nat \<times> memoEntry) list \<Rightarrow> (bytes \<times> nat) list \<Rightarrow> bool" where
  "linked order entries \<longleftrightarrow>
     distinct (map fst order) \<and> distinct (map (me_key \<circ> snd) order) \<and> distinct_keys entries \<and>
     (\<forall>k i. map_of entries k = Some i \<longleftrightarrow> (\<exists>e. (i, e) \<in> set order \<and> me_key e = k))"

definition memo_inv :: "decisionMemo \<Rightarrow> bool" where
  "memo_inv m \<longleftrightarrow> linked (dm_order m) (dm_entries m) \<and>
     (\<forall>i \<in> fst ` set (dm_order m). i < dm_next m) \<and> length (dm_order m) \<le> maxMemoEntries"

text \<open>The contract: a list of entries, oldest first, at most one per key.\<close>

definition memo_spec :: "decisionMemo \<Rightarrow> memoEntry list" where
  "memo_spec m = map snd (dm_order m)"

definition spec_lookup :: "bytes \<Rightarrow> memoEntry list \<Rightarrow> memoEntry option" where
  "spec_lookup k es = find (\<lambda>e. me_key e = k) es"

definition spec_remove :: "bytes \<Rightarrow> memoEntry list \<Rightarrow> memoEntry list" where
  "spec_remove k es = filter (\<lambda>e. me_key e \<noteq> k) es"

definition spec_insert :: "nat \<Rightarrow> memoEntry \<Rightarrow> memoEntry list \<Rightarrow> memoEntry list" where
  "spec_insert cap e es =
     (let es' = spec_remove (me_key e) es @ [e] in drop (length es' - cap) es')"

lemma memo_inv_new: "memo_inv (newDecisionMemo ttl)"
  by (simp add: memo_inv_def linked_def newDecisionMemo_def)

lemma memo_inv_clear: "memo_inv (memo_clear m)"
  by (simp add: memo_inv_def linked_def memo_clear_def)

lemma linkedD:
  assumes "linked order entries"
  shows "distinct (map fst order)" "distinct (map (me_key \<circ> snd) order)" "distinct_keys entries"
    "map_of entries k = Some i \<longleftrightarrow> (\<exists>e. (i, e) \<in> set order \<and> me_key e = k)"
  using assms unfolding linked_def by blast+

lemma linked_unique:
  assumes "linked order entries"
  shows "(i, e) \<in> set order \<Longrightarrow> (i, e') \<in> set order \<Longrightarrow> e = e'"
    and "(i, e) \<in> set order \<Longrightarrow> (i', e') \<in> set order \<Longrightarrow> me_key e = me_key e' \<Longrightarrow> i = i'"
proof -
  show "(i, e) \<in> set order \<Longrightarrow> (i, e') \<in> set order \<Longrightarrow> e = e'"
    using linkedD(1) [OF assms] by (rule eq_key_imp_eq_value)
  assume a: "(i, e) \<in> set order" "(i', e') \<in> set order" "me_key e = me_key e'"
  have "map_of entries (me_key e) = Some i" using linkedD(4) [OF assms, of "me_key e" i] a(1) by blast
  moreover have "map_of entries (me_key e) = Some i'"
    using linkedD(4) [OF assms, of "me_key e'" i'] a(2) unfolding a(3) by blast
  ultimately show "i = i'" by simp
qed

lemma linked_remove:
  assumes "linked order entries" "map_of entries k = Some el"
  shows "linked (order_remove el order) (AList.delete k entries)"
    and "order_remove el order = filter (\<lambda>(_, e). me_key e \<noteq> k) order"
proof -
  have same: "(i = el) = (me_key e = k)" if "(i, e) \<in> set order" for i e
    using linkedD(4) [OF assms(1)] linked_unique [OF assms(1)] assms(2) that by metis
  show eq: "order_remove el order = filter (\<lambda>(_, e). me_key e \<noteq> k) order"
    unfolding order_remove_def by (rule filter_cong [OF refl]) (auto dest: same)
  have "map_of (AList.delete k entries) k' = Some i \<longleftrightarrow>
      (\<exists>e. (i, e) \<in> set (order_remove el order) \<and> me_key e = k')" for k' i
    unfolding eq using linkedD(4) [OF assms(1), of k' i] by auto
  then show "linked (order_remove el order) (AList.delete k entries)"
    using linkedD(1-3) [OF assms(1)]
    by (simp add: linked_def order_remove_def distinct_map_filter distinct_delete)
qed

lemma linked_push:
  assumes "linked order entries" "map_of entries (me_key e) = None" "el \<notin> fst ` set order"
  shows "linked (order @ [(el, e)]) (AList.update (me_key e) el entries)"
proof -
  have fresh: "me_key e' \<noteq> me_key e" if "(i, e') \<in> set order" for i e'
    using linkedD(4) [OF assms(1), of "me_key e" i] assms(2) that by auto
  then have "me_key e \<notin> set (map (me_key \<circ> snd) order)" by force
  moreover have "map_of (AList.update (me_key e) el entries) k' = Some i \<longleftrightarrow>
      (\<exists>e'. (i, e') \<in> set (order @ [(el, e)]) \<and> me_key e' = k')" for k' i
    using linkedD(4) [OF assms(1), of k' i] fresh by auto
  ultimately show ?thesis
    using linkedD(1-3) [OF assms(1)] assms(3) by (simp add: linked_def distinct_update)
qed

lemma linked_evict:
  assumes "linked order entries" "evict order entries = (order', entries')"
  shows "linked order' entries' \<and> order' = drop (length order - maxMemoEntries) order"
  using assms
proof (induction order entries arbitrary: order' entries' rule: evict.induct)
  case (2 i e xs es)
  show ?case
  proof (cases "length ((i, e) # xs) > maxMemoEntries")
    case True
    have link: "map_of es (me_key e) = Some i" using linkedD(4) [OF 2(2), of "me_key e" i] by auto
    have "order_remove i ((i, e) # xs) = xs"
      using linkedD(1) [OF 2(2)] by (force simp: order_remove_def filter_id_conv)
    with linked_remove(1) [OF 2(2) link] have "linked xs (AList.delete (me_key e) es)" by simp
    moreover have "evict xs (AList.delete (me_key e) es) = (order', entries')" using 2(3) True by simp
    ultimately have "linked order' entries' \<and> order' = drop (length xs - maxMemoEntries) xs"
      using 2(1) [OF True] by blast
    with True show ?thesis by (auto simp: Suc_diff_le)
  next
    case False
    with 2(3) have "order' = (i, e) # xs" "entries' = es" by auto
    with 2(2) False show ?thesis by simp
  qed
qed (simp add: linked_def)

lemma memo_invD:
  assumes "memo_inv m"
  shows "linked (dm_order m) (dm_entries m)" "\<And>i. i \<in> fst ` set (dm_order m) \<Longrightarrow> i < dm_next m"
    "length (dm_order m) \<le> maxMemoEntries"
  using assms unfolding memo_inv_def by blast+

lemma spec_lookup_memberI:
  "distinct (map me_key es) \<Longrightarrow> e \<in> set es \<Longrightarrow> spec_lookup (me_key e) es = Some e"
  unfolding spec_lookup_def by (induction es) force+

lemma spec_lookup_SomeD: "spec_lookup k es = Some e \<Longrightarrow> e \<in> set es \<and> me_key e = k"
  by (auto simp: spec_lookup_def find_Some_iff)

lemma spec_lookup_NoneD: "spec_lookup k es = None \<Longrightarrow> e \<in> set es \<Longrightarrow> me_key e \<noteq> k"
  by (auto simp: spec_lookup_def find_None_iff)

lemma memo_inv_spec_distinct: "memo_inv m \<Longrightarrow> distinct (map me_key (memo_spec m))"
  by (simp add: memo_spec_def linkedD(2) [OF memo_invD(1)])

text \<open>Looking a key up through the two structures is looking it up in the list.\<close>

lemma memo_lookup_refines:
  assumes "memo_inv m"
  shows "(case map_of (dm_entries m) k of None \<Rightarrow> None | Some el \<Rightarrow> element m el) = spec_lookup k (memo_spec m)"
proof (cases "map_of (dm_entries m) k")
  case None
  then have "me_key e \<noteq> k" if "(i, e) \<in> set (dm_order m)" for i e
    using linkedD(4) [OF memo_invD(1) [OF assms], of k i] that by auto
  then have "spec_lookup k (memo_spec m) = None"
    unfolding spec_lookup_def find_None_iff memo_spec_def by force
  with None show ?thesis by simp
next
  case (Some el)
  then obtain e where e: "(el, e) \<in> set (dm_order m)" "me_key e = k"
    using linkedD(4) [OF memo_invD(1) [OF assms], of k el] by blast
  then have "element m el = Some e"
    using linkedD(1) [OF memo_invD(1) [OF assms]] by (simp add: element_def map_of_eq_Some_iff)
  moreover have "spec_lookup k (memo_spec m) = Some e"
    using spec_lookup_memberI [OF memo_inv_spec_distinct [OF assms], of e] e by (force simp: memo_spec_def)
  ultimately show ?thesis using Some by simp
qed

lemma memo_drop_refines:
  assumes "memo_inv m" "map_of (dm_entries m) k = Some el"
  shows "memo_inv (memo_drop k el m)" "memo_spec (memo_drop k el m) = spec_remove k (memo_spec m)"
    "dm_next (memo_drop k el m) = dm_next m" "dm_ttl (memo_drop k el m) = dm_ttl m"
    "map_of (dm_entries (memo_drop k el m)) k = None"
proof -
  note l = linked_remove [OF memo_invD(1) [OF assms(1)] assms(2)]
  have "length (order_remove el (dm_order m)) \<le> maxMemoEntries"
    using memo_invD(3) [OF assms(1)] length_filter_le order_trans unfolding order_remove_def by blast
  moreover have "\<forall>i \<in> fst ` set (order_remove el (dm_order m)). i < dm_next m"
    using memo_invD(2) [OF assms(1)] by (auto simp: order_remove_def)
  ultimately show "memo_inv (memo_drop k el m)" using l(1) by (simp add: memo_inv_def memo_drop_def)
  show "memo_spec (memo_drop k el m) = spec_remove k (memo_spec m)"
    by (simp add: memo_spec_def memo_drop_def l(2) spec_remove_def filter_map comp_def case_prod_unfold)
qed (simp_all add: memo_drop_def)

lemma spec_remove_absent: "spec_lookup k es = None \<Longrightarrow> spec_remove k es = es"
  by (auto simp: spec_lookup_def spec_remove_def find_None_iff filter_id_conv)

section \<open>Refinement\<close>

lemma memo_get_eq:
  assumes "memo_inv m" "memo_enabled m"
  shows "memo_get now k m =
    (case spec_lookup k (memo_spec m) of None \<Rightarrow> (None, m)
     | Some e \<Rightarrow> if time_sub now (me_storedAt e) < dm_ttl m then (Some (me_result e), m)
                 else (None, memo_drop k (the (map_of (dm_entries m) k)) m))"
proof (cases "map_of (dm_entries m) k")
  case None
  with memo_lookup_refines [OF assms(1), of k] assms(2) show ?thesis by (simp add: memo_get_def)
next
  case (Some el)
  then have "element m el = spec_lookup k (memo_spec m)"
    using memo_lookup_refines [OF assms(1), of k] by simp
  with Some assms(2) show ?thesis by (simp add: memo_get_def split: option.split)
qed

lemma memo_entry_exists:
  "memo_inv m \<Longrightarrow> spec_lookup k (memo_spec m) = Some e \<Longrightarrow> map_of (dm_entries m) k \<noteq> None"
  using memo_lookup_refines [of m k] by (auto split: option.splits)

lemma memo_get_refines:
  assumes "memo_inv m" "memo_enabled m"
  shows "fst (memo_get now k m) =
      (case spec_lookup k (memo_spec m) of None \<Rightarrow> None
       | Some e \<Rightarrow> if time_sub now (me_storedAt e) < dm_ttl m then Some (me_result e) else None)"
    and "memo_spec (snd (memo_get now k m)) =
      (case spec_lookup k (memo_spec m) of None \<Rightarrow> memo_spec m
       | Some e \<Rightarrow> if time_sub now (me_storedAt e) < dm_ttl m then memo_spec m
                   else spec_remove k (memo_spec m))"
    and "memo_inv (snd (memo_get now k m))"
proof -
  show "fst (memo_get now k m) =
      (case spec_lookup k (memo_spec m) of None \<Rightarrow> None
       | Some e \<Rightarrow> if time_sub now (me_storedAt e) < dm_ttl m then Some (me_result e) else None)"
    unfolding memo_get_eq [OF assms] by (simp split: option.split)
  show "memo_spec (snd (memo_get now k m)) =
      (case spec_lookup k (memo_spec m) of None \<Rightarrow> memo_spec m
       | Some e \<Rightarrow> if time_sub now (me_storedAt e) < dm_ttl m then memo_spec m
                   else spec_remove k (memo_spec m))"
    unfolding memo_get_eq [OF assms] using memo_entry_exists [OF assms(1), of k]
    by (auto simp: memo_drop_refines(2) [OF assms(1)] split: option.split)
  show "memo_inv (snd (memo_get now k m))"
    unfolding memo_get_eq [OF assms] using memo_entry_exists [OF assms(1), of k]
    by (auto simp: memo_drop_refines(1) [OF assms(1)] assms(1) split: option.split)
qed

lemma memo_set_refines:
  assumes "memo_inv m" "memo_enabled m"
  shows "memo_spec (memo_set now k r m) =
      spec_insert maxMemoEntries \<lparr>me_key = k, me_result = r, me_storedAt = now\<rparr> (memo_spec m)"
    and "memo_inv (memo_set now k r m)"
proof -
  let ?e = "\<lparr>me_key = k, me_result = r, me_storedAt = now\<rparr>"
  define m1 where "m1 = (case map_of (dm_entries m) k of None \<Rightarrow> m | Some el \<Rightarrow> memo_drop k el m)"
  have m1: "memo_inv m1" "memo_spec m1 = spec_remove k (memo_spec m)" "dm_next m1 = dm_next m"
    "map_of (dm_entries m1) k = None"
    using assms(1) memo_drop_refines [OF assms(1), of k] memo_lookup_refines [OF assms(1), of k]
    by (auto simp: m1_def spec_remove_absent split: option.splits)
  obtain order entries where ev: "evict (dm_order m1 @ [(dm_next m, ?e)])
      (AList.update k (dm_next m) (dm_entries m1)) = (order, entries)" by force
  have set: "memo_set now k r m = m1\<lparr>dm_order := order, dm_entries := entries, dm_next := Suc (dm_next m)\<rparr>"
    using assms(2) ev by (simp add: memo_set_def m1_def Let_def)
  have "linked (dm_order m1 @ [(dm_next m, ?e)]) (AList.update k (dm_next m) (dm_entries m1))"
    using linked_push [OF memo_invD(1) [OF m1(1)], of ?e "dm_next m"] m1(3,4) memo_invD(2) [OF m1(1)] by fastforce
  from linked_evict [OF this ev] have l: "linked order entries"
    "order = drop (length (dm_order m1 @ [(dm_next m, ?e)]) - maxMemoEntries) (dm_order m1 @ [(dm_next m, ?e)])" by auto
  have "set order \<subseteq> set (dm_order m1 @ [(dm_next m, ?e)])" unfolding l(2) by (rule set_drop_subset)
  moreover have "fst ` set (dm_order m1 @ [(dm_next m, ?e)]) \<subseteq> {..<Suc (dm_next m)}"
    using memo_invD(2) [OF m1(1)] m1(3) by fastforce
  ultimately have "\<forall>i \<in> fst ` set order. i < Suc (dm_next m)" by fastforce
  moreover have "length order \<le> maxMemoEntries" unfolding l(2) by simp
  ultimately show "memo_inv (memo_set now k r m)" using l(1) by (simp add: set memo_inv_def)
  let ?X = "dm_order m1 @ [(dm_next m, ?e)]"
  have X: "map snd ?X = spec_remove k (memo_spec m) @ [?e]" using m1(2) by (simp add: memo_spec_def)
  then have len: "length ?X = length (spec_remove k (memo_spec m) @ [?e])" by (metis length_map)
  have "map snd order = drop (length ?X - maxMemoEntries) (map snd ?X)" unfolding l(2) drop_map ..
  then show "memo_spec (memo_set now k r m) = spec_insert maxMemoEntries ?e (memo_spec m)"
    unfolding X len by (simp add: set spec_insert_def memo_spec_def Let_def)
qed

section \<open>Interface: a decision cache\<close>

text \<open>
  What the authorization client relies on: a lookup answers only a decision stored under
  that key and still fresh, storing replaces the key's decision and adds no other, and
  clearing forgets everything. \<open>holds m k r t\<close> says that \<open>m\<close> keeps \<open>r\<close>, stored at \<open>t\<close>, for \<open>k\<close>.
\<close>

datatype memo_op = OpGet time bytes | OpSet time bytes AccessResult | OpClear

fun run_ops ::
  "(time \<Rightarrow> bytes \<Rightarrow> 'm \<Rightarrow> AccessResult option \<times> 'm) \<Rightarrow> (time \<Rightarrow> bytes \<Rightarrow> AccessResult \<Rightarrow> 'm \<Rightarrow> 'm) \<Rightarrow>
   ('m \<Rightarrow> 'm) \<Rightarrow> memo_op list \<Rightarrow> 'm \<Rightarrow> 'm" where
  "run_ops look put wipe [] m = m"
| "run_ops look put wipe (OpGet t k # ops) m = run_ops look put wipe ops (snd (look t k m))"
| "run_ops look put wipe (OpSet t k r # ops) m = run_ops look put wipe ops (put t k r m)"
| "run_ops look put wipe (OpClear # ops) m = run_ops look put wipe ops (wipe m)"

text \<open>The last decision stored for a key since the last clear.\<close>

fun last_set :: "bytes \<Rightarrow> memo_op list \<Rightarrow> (AccessResult \<times> time) option \<Rightarrow> (AccessResult \<times> time) option" where
  "last_set k [] acc = acc"
| "last_set k (OpGet _ _ # ops) acc = last_set k ops acc"
| "last_set k (OpSet t k' r # ops) acc = last_set k ops (if k' = k then Some (r, t) else acc)"
| "last_set k (OpClear # ops) acc = last_set k ops None"

locale decision_cache =
  fixes look :: "time \<Rightarrow> bytes \<Rightarrow> 'm \<Rightarrow> AccessResult option \<times> 'm"
    and put :: "time \<Rightarrow> bytes \<Rightarrow> AccessResult \<Rightarrow> 'm \<Rightarrow> 'm"
    and wipe :: "'m \<Rightarrow> 'm"
    and holds :: "'m \<Rightarrow> bytes \<Rightarrow> AccessResult \<Rightarrow> time \<Rightarrow> bool"
    and inv :: "'m \<Rightarrow> bool"
    and max_age :: duration
  assumes get_holds: "inv m \<Longrightarrow> fst (look now k m) = Some r \<Longrightarrow> \<exists>t. holds m k r t \<and> now - t < max_age"
    and get_shrinks: "inv m \<Longrightarrow> holds (snd (look now k m)) k' r t \<Longrightarrow> holds m k' r t"
    and set_same: "inv m \<Longrightarrow> holds (put now k r m) k r' t \<Longrightarrow> r' = r \<and> t = now"
    and set_other: "inv m \<Longrightarrow> k' \<noteq> k \<Longrightarrow> holds (put now k r m) k' r' t \<Longrightarrow> holds m k' r' t"
    and clear_none: "\<not> holds (wipe m) k r t"
    and inv_get: "inv m \<Longrightarrow> inv (snd (look now k m))"
    and inv_set: "inv m \<Longrightarrow> inv (put now k r m)"
    and inv_clear: "inv m \<Longrightarrow> inv (wipe m)"
begin

lemma inv_run: "inv m \<Longrightarrow> inv (run_ops look put wipe ops m)"
proof (induction ops arbitrary: m)
  case (Cons x ops)
  then show ?case by (cases x) (auto simp: inv_get inv_set inv_clear)
qed simp

lemma run_holds:
  "inv m \<Longrightarrow> (\<And>r t. holds m k r t \<Longrightarrow> acc = Some (r, t)) \<Longrightarrow>
   holds (run_ops look put wipe ops m) k r t \<Longrightarrow> last_set k ops acc = Some (r, t)"
proof (induction ops arbitrary: m acc)
  case Nil
  then show ?case by simp
next
  case (Cons x ops)
  show ?case
  proof (cases x)
    case (OpGet t' k')
    have "holds (snd (look t' k' m)) k r t \<Longrightarrow> acc = Some (r, t)" for r t
      using Cons.prems(1,2) get_shrinks by blast
    from Cons.IH [OF inv_get [OF Cons.prems(1)] this] Cons.prems(3) OpGet show ?thesis by simp
  next
    case (OpSet t' k' r')
    have "holds (put t' k' r' m) k r t \<Longrightarrow> (if k' = k then Some (r', t') else acc) = Some (r, t)" for r t
      using Cons.prems(2) set_same [OF Cons.prems(1), of t' k r' r t]
        set_other [OF Cons.prems(1), of k k' t' r' r t] by (cases "k' = k") auto
    from Cons.IH [OF inv_set [OF Cons.prems(1)] this] Cons.prems(3) OpSet show ?thesis by simp
  next
    case OpClear
    from Cons.IH [OF inv_clear [OF Cons.prems(1)], of None] Cons.prems(3) OpClear show ?thesis
      by (simp add: clear_none)
  qed
qed

lemma answer_is_last_set:
  assumes "inv m" "\<And>k r t. \<not> holds m k r t" "fst (look now k (run_ops look put wipe ops m)) = Some r"
  shows "\<exists>t. last_set k ops None = Some (r, t) \<and> now - t < max_age"
  using get_holds [OF inv_run [OF assms(1)] assms(3)] run_holds [OF assms(1), of k None] assms(2) by blast

end

definition memo_holds :: "decisionMemo \<Rightarrow> bytes \<Rightarrow> AccessResult \<Rightarrow> time \<Rightarrow> bool" where
  "memo_holds m k r t \<longleftrightarrow> spec_lookup k (memo_spec m) = Some \<lparr>me_key = k, me_result = r, me_storedAt = t\<rparr>"

text \<open>The invariant of a memo in use: a disabled one is empty, an enabled one has a clamped TTL.\<close>

definition memo_ok :: "decisionMemo \<Rightarrow> bool" where
  "memo_ok m \<longleftrightarrow> memo_inv m \<and> (if memo_enabled m then dm_ttl m \<le> MaxMemoTTL else memo_spec m = [])"

lemma spec_lookup_cong:
  "spec_lookup k (filter (\<lambda>e. me_key e \<noteq> k') es) = (if k = k' then None else spec_lookup k es)"
  unfolding spec_lookup_def by (induction es) auto

lemma spec_lookup_append:
  "spec_lookup k (xs @ ys) = (case spec_lookup k xs of None \<Rightarrow> spec_lookup k ys | Some e \<Rightarrow> Some e)"
  unfolding spec_lookup_def by (induction xs) auto

lemma spec_lookup_drop:
  assumes "distinct (map me_key es)" "spec_lookup k (drop n es) = Some e"
  shows "spec_lookup k es = Some e"
proof -
  from assms(2) have "e \<in> set (drop n es)" "me_key e = k" using spec_lookup_SomeD by blast+
  then show ?thesis using spec_lookup_memberI [OF assms(1), of e] set_drop_subset [of n es] by auto
qed

lemma spec_insert_lookup:
  assumes "distinct (map me_key es)" "spec_lookup k (spec_insert cap e es) = Some e'"
  shows "if k = me_key e then e' = e else spec_lookup k es = Some e'"
proof -
  let ?es = "spec_remove (me_key e) es @ [e]"
  have "distinct (map me_key ?es)"
    using assms(1) by (auto simp: spec_remove_def distinct_map_filter)
  from spec_lookup_drop [OF this] assms(2) have "spec_lookup k ?es = Some e'"
    unfolding spec_insert_def Let_def .
  then show ?thesis
    by (auto simp: spec_lookup_append spec_remove_def spec_lookup_cong spec_lookup_def [of _ "[e]"]
        split: if_splits option.splits)
qed

lemma memo_get_ttl: "dm_ttl (snd (memo_get now k m)) = dm_ttl m"
  by (simp add: memo_get_def memo_drop_def split: option.split)

lemma memo_set_ttl: "dm_ttl (memo_set now k r m) = dm_ttl m"
  by (simp add: memo_set_def memo_drop_def Let_def split: option.split prod.split)

lemma memo_ok_new: "memo_ok (newDecisionMemo ttl)"
  using memo_inv_new [of ttl]
  by (auto simp: memo_ok_def memo_enabled_def newDecisionMemo_def clamp_ttl_def memo_spec_def MaxMemoTTL_def Second_def)

lemma memo_ok_get: "memo_ok m \<Longrightarrow> memo_ok (snd (memo_get now k m))"
  using memo_get_refines(3) [of m now k] memo_get_ttl [of now k m]
  by (cases "memo_enabled m") (auto simp: memo_ok_def memo_enabled_def memo_get_def)

lemma memo_ok_set: "memo_ok m \<Longrightarrow> memo_ok (memo_set now k r m)"
  using memo_set_refines(2) [of m now k r] memo_set_ttl [of now k r m]
  by (cases "memo_enabled m") (auto simp: memo_ok_def memo_enabled_def memo_set_def)

lemma memo_ok_clear: "memo_ok m \<Longrightarrow> memo_ok (memo_clear m)"
  using memo_inv_clear [of m] by (auto simp: memo_ok_def memo_enabled_def memo_clear_def memo_spec_def)

lemma time_sub_less: "time_sub t u < b \<Longrightarrow> b \<le> MaxMemoTTL \<Longrightarrow> t - u < b"
  by (auto simp: time_sub_def sat64_def MaxMemoTTL_def Second_def max_int64_def min_int64_def split: if_splits)

interpretation memo: decision_cache memo_get memo_set memo_clear memo_holds memo_ok MaxMemoTTL
proof unfold_locales
  fix m now k r k' r' t
  assume ok: "memo_ok m"
  show "fst (memo_get now k m) = Some r \<Longrightarrow> \<exists>t. memo_holds m k r t \<and> now - t < MaxMemoTTL"
  proof -
    assume a: "fst (memo_get now k m) = Some r"
    then have en: "memo_enabled m" by (auto simp: memo_get_def split: if_splits)
    with ok have inv: "memo_inv m" and ttl: "dm_ttl m \<le> MaxMemoTTL" by (auto simp: memo_ok_def)
    from a obtain e where e: "spec_lookup k (memo_spec m) = Some e" "me_result e = r"
        "time_sub now (me_storedAt e) < dm_ttl m"
      unfolding memo_get_refines(1) [OF inv en] by (auto split: option.splits if_splits)
    moreover have "me_key e = k" using spec_lookup_SomeD [OF e(1)] by blast
    ultimately have "memo_holds m k r (me_storedAt e)" by (simp add: memo_holds_def)
    moreover have "now - me_storedAt e < MaxMemoTTL" using time_sub_less [OF e(3) ttl] ttl by simp
    ultimately show ?thesis by blast
  qed
  show "memo_holds (snd (memo_get now k m)) k' r t \<Longrightarrow> memo_holds m k' r t"
  proof (cases "memo_enabled m")
    case True
    assume "memo_holds (snd (memo_get now k m)) k' r t"
    then show ?thesis
      using memo_get_refines(2) [of m now k] ok True
      by (auto simp: memo_holds_def memo_ok_def spec_remove_def spec_lookup_cong split: option.splits if_splits)
  qed (simp add: memo_get_def)
  show "memo_holds (memo_set now k r m) k r' t \<Longrightarrow> r' = r \<and> t = now"
  proof (cases "memo_enabled m")
    case True
    assume "memo_holds (memo_set now k r m) k r' t"
    then show ?thesis
      using memo_set_refines(1) [of m now k r] ok True spec_insert_lookup [OF memo_inv_spec_distinct [of m], of k]
      by (fastforce simp: memo_holds_def memo_ok_def)
  next
    case False
    assume "memo_holds (memo_set now k r m) k r' t"
    with False ok show ?thesis by (simp add: memo_set_def memo_holds_def memo_ok_def spec_lookup_def)
  qed
  show "k' \<noteq> k \<Longrightarrow> memo_holds (memo_set now k r m) k' r' t \<Longrightarrow> memo_holds m k' r' t"
  proof (cases "memo_enabled m")
    case True
    assume "k' \<noteq> k" "memo_holds (memo_set now k r m) k' r' t"
    then show ?thesis
      using memo_set_refines(1) [of m now k r] ok True spec_insert_lookup [OF memo_inv_spec_distinct [of m], of k']
      by (fastforce simp: memo_holds_def memo_ok_def)
  qed (simp add: memo_set_def)
next
  show "\<not> memo_holds (memo_clear m) k r t" for m k r t
    by (simp add: memo_holds_def memo_clear_def memo_spec_def spec_lookup_def)
qed (rule memo_ok_get memo_ok_set memo_ok_clear; assumption)+

section \<open>Properties\<close>


definition allow_result :: AccessResult where
  "allow_result = \<lparr>ar_Allowed = True, ar_Reason = [], ar_ReasonCode = ''allowed''\<rparr>"


text \<open>
  (C15) The map and the list of the memo implement a first-in first-out map of at most 1024
  entries: both operations keep them in step, a lookup answers the fresh entry of its key
  and drops a stale one, and a store puts the decision at the end, evicting from the front.
\<close>

theorem memo_refines_fifo:
  assumes "memo_inv m" and "memo_enabled m"
  shows "memo_inv (snd (memo_get now k m)) \<and> memo_inv (memo_set now k r m) \<and>
    memo_len (memo_set now k r m) \<le> 1024 \<and>
    fst (memo_get now k m) = (case spec_lookup k (memo_spec m) of None \<Rightarrow> None
      | Some e \<Rightarrow> if time_sub now (me_storedAt e) < dm_ttl m then Some (me_result e) else None) \<and>
    memo_spec (snd (memo_get now k m)) = (case spec_lookup k (memo_spec m) of None \<Rightarrow> memo_spec m
      | Some e \<Rightarrow> if time_sub now (me_storedAt e) < dm_ttl m then memo_spec m
                  else spec_remove k (memo_spec m)) \<and>
    memo_spec (memo_set now k r m) =
      spec_insert 1024 \<lparr>me_key = k, me_result = r, me_storedAt = now\<rparr> (memo_spec m)"
  using memo_get_refines [OF assms] memo_set_refines [OF assms] memo_invD(3) [of "memo_set now k r m"]
  by (simp add: maxMemoEntries_def memo_len_def)

theorem memo_refines_fifo_witness:
  "memo_inv (newDecisionMemo Second) \<and> memo_enabled (newDecisionMemo Second) \<and>
   memo_spec (memo_set 7 ''k'' allow_result (newDecisionMemo Second)) =
     [\<lparr>me_key = ''k'', me_result = allow_result, me_storedAt = 7\<rparr>]"
proof -
  have h: "memo_inv (newDecisionMemo Second)" "memo_enabled (newDecisionMemo Second)"
    by (rule memo_inv_new) code_simp
  have "memo_spec (memo_set 7 ''k'' allow_result (newDecisionMemo Second)) =
      spec_insert 1024 \<lparr>me_key = ''k'', me_result = allow_result, me_storedAt = 7\<rparr> (memo_spec (newDecisionMemo Second))"
    using memo_refines_fifo [OF h, where now = 7 and k = "''k''" and r = allow_result] by blast
  with h show ?thesis by (simp add: spec_insert_def spec_remove_def memo_spec_def newDecisionMemo_def)
qed

text \<open>
  The components of a key: none holds the separator, and no optional one is the absent mark.
\<close>

definition key_safe :: "AccessCheck \<Rightarrow> bytes option \<Rightarrow> bool" where
  "key_safe c t \<longleftrightarrow>
     list_all (\<lambda>s. memoSep \<notin> set s) [ac_SubjectID c, ac_ResourceID c, ac_Action c, ac_Scope c, (case t of None \<Rightarrow> [] | Some t \<Rightarrow> t)] \<and>
     ac_SubjectID c \<noteq> memoAbsent \<and> ac_Scope c \<noteq> memoAbsent \<and> t \<noteq> Some memoAbsent"

lemma memo_part_inject: "s \<noteq> memoAbsent \<Longrightarrow> t \<noteq> memoAbsent \<Longrightarrow> memo_part s = memo_part t \<Longrightarrow> s = t"
  by (auto simp: memo_part_def split: if_splits)

lemma memo_parts_no_sep: "key_safe c t \<Longrightarrow> \<forall>p \<in> set (memo_parts c t). memoSep \<notin> set p"
  by (auto simp: key_safe_def memo_parts_def memo_part_def memoAbsent_def memoSep_def split: option.splits)

text \<open>
  (C31) Two checks asked with the same memo key are the same check asked of the same tenant,
  provided no component holds the separator byte and no optional one is the absent mark.
\<close>

theorem memo_key_injective:
  assumes "key_safe c t" and "key_safe c' t'" and "memoKey c t = memoKey c' t'"
  shows "c = c' \<and> t = t'"
proof -
  have "memo_parts c t = memo_parts c' t'"
    using split_on_join [OF _ memo_parts_no_sep [OF assms(1)]] split_on_join [OF _ memo_parts_no_sep [OF assms(2)]]
      assms(3) unfolding memoKey_def by (metis memo_parts_def list.distinct(1))
  then show ?thesis
    using assms(1,2) memo_part_inject
    by (cases c; cases c') (auto simp: memo_parts_def key_safe_def split: option.splits)
qed

definition check_of :: "bytes \<Rightarrow> bytes \<Rightarrow> bytes \<Rightarrow> AccessCheck" where
  "check_of a r s = \<lparr>ac_Action = a, ac_ResourceID = r, ac_Scope = s, ac_SubjectID = []\<rparr>"

theorem memo_key_injective_witness:
  "key_safe (check_of ''read'' ''doc'' []) (Some ''t1'') \<and>
   memoKey (check_of ''read'' ''doc'' []) (Some ''t1'') \<noteq> memoKey (check_of ''read'' ''doc'' []) None"
proof -
  have h: "key_safe (check_of ''read'' ''doc'' []) (Some ''t1'')" "key_safe (check_of ''read'' ''doc'' []) None"
    by code_simp+
  then show ?thesis using memo_key_injective [OF h] by auto
qed

text \<open>
  (C7) The proviso is needed: the code checks neither, and two different resources and actions
  share a key when one of them holds the separator, as do an absent scope and the scope
  that is the absent mark.
\<close>

theorem memo_key_collisions:
  "memoKey (check_of ''b'' (''r'' @ [memoSep] @ ''a'') []) None = memoKey (check_of (''a'' @ [memoSep] @ ''b'') ''r'' []) None \<and>
   memoKey (check_of ''b'' ''r'' []) None = memoKey (check_of ''b'' ''r'' memoAbsent) None"
  by code_simp

end
