(* ===== verification/Refresh_Guard.thy ===== *)
theory Refresh_Guard
  imports Errors
begin

text \<open>
  \<open>internal/refreshguard/guard.go\<close>: the single-flight refresh guard, first as the sequential
  operations of one lock holder, then as a step relation over any number of callers that
  contend for the mutex.
\<close>

section \<open>The guard\<close>

record RefreshedTokens =
  rt_Access :: bytes
  rt_Refresh :: bytes
  rt_Exp :: int

record Guard =
  g_access :: bytes
  g_refresh :: bytes
  g_exp :: int
  g_hasAny :: bool

definition zero_guard :: Guard where
  "zero_guard = \<lparr>g_access = [], g_refresh = [], g_exp = 0, g_hasAny = False\<rparr>"

text \<open>The update both \<open>RefreshIfNeeded\<close> and \<open>Seed\<close> make: an empty refresh token keeps the old one.\<close>

definition store_tokens :: "bytes \<Rightarrow> bytes \<Rightarrow> int \<Rightarrow> Guard \<Rightarrow> Guard" where
  "store_tokens access refresh expiry g =
     g\<lparr>g_access := access, g_refresh := (if refresh \<noteq> [] then refresh else g_refresh g),
       g_exp := expiry, g_hasAny := True\<rparr>"

definition Seed :: "bytes \<Rightarrow> bytes \<Rightarrow> int \<Rightarrow> Guard \<Rightarrow> Guard" where
  "Seed access refresh expiry g = store_tokens access refresh expiry g"

text \<open>The double check: a cached token other than the one the caller saw failing.\<close>

definition already_refreshed :: "Guard \<Rightarrow> bytes \<Rightarrow> bool" where
  "already_refreshed g observedAccess \<longleftrightarrow> g_hasAny g \<and> g_access g \<noteq> observedAccess"

definition RefreshIfNeeded ::
  "bytes \<Rightarrow> ('w \<Rightarrow> (go_error + RefreshedTokens) \<times> 'w) \<Rightarrow> Guard \<Rightarrow> 'w \<Rightarrow> (go_error + bytes) \<times> Guard \<times> 'w" where
  "RefreshIfNeeded observedAccess doRefresh g w =
     (if already_refreshed g observedAccess then (Inr (g_access g), g, w)
      else (case doRefresh w of
              (Inl err, w') \<Rightarrow> (Inl err, g, w')
            | (Inr tokens, w') \<Rightarrow>
                (let g' = store_tokens (rt_Access tokens) (rt_Refresh tokens) (rt_Exp tokens) g
                 in (Inr (g_access g'), g', w'))))"

definition CachedAccessToken :: "Guard \<Rightarrow> bytes \<times> bool" where
  "CachedAccessToken g = (g_access g, g_hasAny g)"

definition CachedRefreshToken :: "Guard \<Rightarrow> bytes \<times> bool" where
  "CachedRefreshToken g = (g_refresh g, g_hasAny g)"

definition CachedExp :: "Guard \<Rightarrow> int \<times> bool" where
  "CachedExp g = (g_exp g, g_hasAny g)"

section \<open>Callers contending for the mutex\<close>

text \<open>
  A caller is outside, blocked on \<open>mu\<close>, past \<open>mu.Lock()\<close> and about to double check, waiting
  for the refresh it started, or back with a result. \<open>s_flights\<close> records, for every
  completed refresh, the token its caller observed and the token it brought; \<open>s_seen\<close> the
  tokens observed or stored so far; \<open>s_fresh\<close> whether every token stored was new when stored.
\<close>

datatype pc =
    Outside
  | Blocked bytes
  | Locked bytes
  | Refreshing bytes
  | Returned "go_error + bytes"

record sys =
  s_guard :: Guard
  s_holder :: "nat option"
  s_pc :: "nat \<Rightarrow> pc"
  s_flights :: "(bytes \<times> bytes) list"
  s_seen :: "bytes list"
  s_fresh :: bool

definition init_sys :: "Guard \<Rightarrow> sys" where
  "init_sys g = \<lparr>s_guard = g, s_holder = None, s_pc = (\<lambda>_. Outside), s_flights = [],
     s_seen = [g_access g], s_fresh = True\<rparr>"

text \<open>Storing a token, and moving one caller.\<close>

definition store_in :: "Guard \<Rightarrow> sys \<Rightarrow> sys" where
  "store_in g s = s\<lparr>s_guard := g, s_fresh := (s_fresh s \<and> g_access g \<notin> set (s_seen s)),
                    s_seen := g_access g # s_seen s\<rparr>"

definition move :: "nat \<Rightarrow> pc \<Rightarrow> sys \<Rightarrow> sys" where
  "move i p s = s\<lparr>s_pc := (s_pc s)(i := p)\<rparr>"

inductive guard_step :: "sys \<Rightarrow> sys \<Rightarrow> bool" where
  call: "s_pc s i = Outside \<or> (\<exists>r. s_pc s i = Returned r) \<Longrightarrow>
     guard_step s (move i (Blocked a) (s\<lparr>s_seen := a # s_seen s\<rparr>))"
| lock: "s_pc s i = Blocked a \<Longrightarrow> s_holder s = None \<Longrightarrow>
     guard_step s (move i (Locked a) (s\<lparr>s_holder := Some i\<rparr>))"
| reuse: "s_pc s i = Locked a \<Longrightarrow> already_refreshed (s_guard s) a \<Longrightarrow>
     guard_step s (move i (Returned (Inr (g_access (s_guard s)))) (s\<lparr>s_holder := None\<rparr>))"
| start: "s_pc s i = Locked a \<Longrightarrow> \<not> already_refreshed (s_guard s) a \<Longrightarrow>
     guard_step s (move i (Refreshing a) s)"
| success: "s_pc s i = Refreshing a \<Longrightarrow>
     g' = store_tokens (rt_Access (t :: RefreshedTokens)) (rt_Refresh t) (rt_Exp t) (s_guard s) \<Longrightarrow>
     guard_step s (move i (Returned (Inr (g_access g')))
       (store_in g' (s\<lparr>s_holder := None, s_flights := (a, g_access g') # s_flights s\<rparr>)))"
| failure: "s_pc s i = Refreshing a \<Longrightarrow>
     guard_step s (move i (Returned (Inl e)) (s\<lparr>s_holder := None\<rparr>))"
| seed: "s_holder s = None \<Longrightarrow> guard_step s (store_in (Seed acc ref expiry (s_guard s)) s)"

inductive guard_reachable :: "Guard \<Rightarrow> sys \<Rightarrow> bool" for g where
  start: "guard_reachable g (init_sys g)"
| step: "guard_reachable g s \<Longrightarrow> guard_step s t \<Longrightarrow> guard_reachable g t"

lemmas guard_step_defs = move_def store_in_def Seed_def store_tokens_def already_refreshed_def

section \<open>Invariants\<close>

definition holds_lock :: "pc \<Rightarrow> bool" where
  "holds_lock p = (case p of Locked _ \<Rightarrow> True | Refreshing _ \<Rightarrow> True | _ \<Rightarrow> False)"

definition mutex_inv :: "sys \<Rightarrow> bool" where
  "mutex_inv s \<longleftrightarrow> (\<forall>i. holds_lock (s_pc s i) \<longleftrightarrow> s_holder s = Some i)"

lemma mutex_inv_step: "guard_step s t \<Longrightarrow> mutex_inv s \<Longrightarrow> mutex_inv t"
proof (induction rule: guard_step.induct)
  case (seed s acc ref expiry)
  then show ?case by (simp add: mutex_inv_def store_in_def)
qed (force simp: mutex_inv_def holds_lock_def move_def store_in_def)+

lemma reachable_mutex_inv: "guard_reachable g s \<Longrightarrow> mutex_inv s"
proof (induction rule: guard_reachable.induct)
  case start
  show ?case by (simp add: mutex_inv_def init_sys_def holds_lock_def)
next
  case (step s t)
  then show ?case by (blast intro: mutex_inv_step)
qed

text \<open>
  While every stored token is new: a token some refresh was made for is no longer the cached
  one, and no two refreshes were made for the same token.
\<close>

definition flight_inv :: "sys \<Rightarrow> bool" where
  "flight_inv s \<longleftrightarrow>
     (\<forall>i a. s_pc s i = Refreshing a \<longrightarrow> \<not> already_refreshed (s_guard s) a \<and> a \<in> set (s_seen s)) \<and>
     (\<forall>i a. s_pc s i = Blocked a \<or> s_pc s i = Locked a \<longrightarrow> a \<in> set (s_seen s)) \<and>
     (s_fresh s \<longrightarrow> distinct (map fst (s_flights s)) \<and>
        (\<forall>a \<in> fst ` set (s_flights s). a \<in> set (s_seen s) \<and> already_refreshed (s_guard s) a))"

lemma flight_inv_frame:
  assumes "flight_inv s" "s_guard t = s_guard s" "s_flights t = s_flights s" "s_fresh t = s_fresh s"
    "set (s_seen s) \<subseteq> set (s_seen t)"
    "\<And>j a. s_pc t j = Refreshing a \<Longrightarrow> s_pc s j = Refreshing a \<or>
       s_pc s j = Locked a \<and> \<not> already_refreshed (s_guard s) a"
    "\<And>j a. s_pc t j = Blocked a \<or> s_pc t j = Locked a \<Longrightarrow>
       s_pc s j = Blocked a \<or> s_pc s j = Locked a \<or> a \<in> set (s_seen t)"
  shows "flight_inv t"
proof -
  have pend: "\<not> already_refreshed (s_guard s) a \<and> a \<in> set (s_seen s)" if "s_pc s j = Refreshing a" for j a
    using assms(1) that unfolding flight_inv_def by blast
  have wait: "a \<in> set (s_seen s)" if "s_pc s j = Blocked a \<or> s_pc s j = Locked a" for j a
    using assms(1) that unfolding flight_inv_def by blast
  have fly: "distinct (map fst (s_flights s)) \<and>
      (\<forall>a \<in> fst ` set (s_flights s). a \<in> set (s_seen s) \<and> already_refreshed (s_guard s) a)" if "s_fresh s"
    using assms(1) that unfolding flight_inv_def by blast
  have "\<not> already_refreshed (s_guard t) a \<and> a \<in> set (s_seen t)" if "s_pc t j = Refreshing a" for j a
    using assms(6) [OF that] pend [of j a] wait [of j a] assms(2,5) by auto
  moreover have "a \<in> set (s_seen t)" if "s_pc t j = Blocked a \<or> s_pc t j = Locked a" for j a
    using assms(7) [OF that] wait [of j a] assms(5) by auto
  moreover have "distinct (map fst (s_flights t)) \<and>
      (\<forall>a \<in> fst ` set (s_flights t). a \<in> set (s_seen t) \<and> already_refreshed (s_guard t) a)" if "s_fresh t"
    using fly that assms(2-5) by auto
  ultimately show ?thesis unfolding flight_inv_def by blast
qed

lemma flight_inv_step:
  assumes "guard_step s t" "mutex_inv s" "flight_inv s"
  shows "flight_inv t"
  using assms
proof (induction rule: guard_step.induct)
  case (success s i a g' tk)
  have only: "j = i" if "s_pc s j = Refreshing b" for j b
    using success(1,3) that unfolding mutex_inv_def by (metis holds_lock_def option.inject pc.simps(28))
  have a: "a \<in> set (s_seen s)" "\<not> already_refreshed (s_guard s) a"
    using success(1,4) unfolding flight_inv_def by blast+
  have g': "g_hasAny g'" "g_access g' = rt_Access tk" using success(2) by (auto simp: store_tokens_def)
  let ?t = "move i (Returned (Inr (g_access g')))
       (store_in g' (s\<lparr>s_holder := None, s_flights := (a, g_access g') # s_flights s\<rparr>))"
  have "distinct (map fst (s_flights ?t)) \<and>
      (\<forall>b \<in> fst ` set (s_flights ?t). b \<in> set (s_seen ?t) \<and> already_refreshed (s_guard ?t) b)" if "s_fresh ?t"
  proof -
    from that have fresh: "s_fresh s" "g_access g' \<notin> set (s_seen s)" by (auto simp: move_def store_in_def)
    with success(4) have old: "distinct (map fst (s_flights s))"
      "\<And>b. b \<in> fst ` set (s_flights s) \<Longrightarrow> b \<in> set (s_seen s) \<and> already_refreshed (s_guard s) b"
      unfolding flight_inv_def by blast+
    have "a \<notin> fst ` set (s_flights s)" using a old(2) by blast
    moreover have "already_refreshed g' b" if "b = a \<or> b \<in> fst ` set (s_flights s)" for b
      using that a(1) old(2) fresh(2) g' unfolding already_refreshed_def by metis
    ultimately show ?thesis using old a(1) by (auto simp: move_def store_in_def)
  qed
  moreover have "s_pc ?t j \<noteq> Refreshing b" for j b
    using only by (auto simp: move_def store_in_def)
  moreover have "\<forall>j b. s_pc ?t j = Blocked b \<or> s_pc ?t j = Locked b \<longrightarrow> b \<in> set (s_seen ?t)"
    using success(4) unfolding flight_inv_def by (auto simp: move_def store_in_def)
  ultimately show ?case unfolding flight_inv_def by blast
next
  case (seed s acc ref expiry)
  have none: "s_pc s j \<noteq> Refreshing b" for j b
    using seed(1,2) unfolding mutex_inv_def by (metis holds_lock_def option.distinct(1) pc.simps(28))
  then show ?case
    using seed(3) unfolding flight_inv_def by (auto simp: guard_step_defs)
next
  case (call s i a)
  show ?case by (rule flight_inv_frame [OF call(3)]) (auto simp: move_def split: if_splits)
next
  case (lock s i a)
  then show ?case by (intro flight_inv_frame [OF lock(4)]) (auto simp: move_def split: if_splits)
next
  case (reuse s i a)
  show ?case by (rule flight_inv_frame [OF reuse(4)]) (auto simp: move_def split: if_splits)
next
  case (start s i a)
  then show ?case by (intro flight_inv_frame [OF start(4)]) (auto simp: move_def split: if_splits)
next
  case (failure s i a e)
  show ?case by (rule flight_inv_frame [OF failure(3)]) (auto simp: move_def split: if_splits)
qed

lemma reachable_flight_inv: "guard_reachable g s \<Longrightarrow> flight_inv s"
proof (induction rule: guard_reachable.induct)
  case start
  show ?case by (simp add: flight_inv_def init_sys_def)
next
  case (step s t)
  then show ?case by (blast intro: flight_inv_step reachable_mutex_inv)
qed

section \<open>Properties\<close>


text \<open>Two callers that saw the same token expire: the second is handed the first's.\<close>

definition old_guard :: Guard where
  "old_guard = \<lparr>g_access = ''old'', g_refresh = ''r0'', g_exp = 1, g_hasAny = True\<rparr>"

definition new_tokens :: RefreshedTokens where
  "new_tokens = \<lparr>rt_Access = ''new'', rt_Refresh = ''r1'', rt_Exp = 2\<rparr>"

definition two_callers :: sys where
  "two_callers = \<lparr>s_guard = \<lparr>g_access = ''new'', g_refresh = ''r1'', g_exp = 2, g_hasAny = True\<rparr>,
     s_holder = None, s_pc = (\<lambda>_. Outside)(0 := Returned (Inr ''new''), 1 := Returned (Inr ''new'')),
     s_flights = [(''old'', ''new'')], s_seen = [''new'', ''old'', ''old'', ''old''], s_fresh = True\<rparr>"

lemma two_callers_reachable: "guard_reachable old_guard two_callers"
proof -
  let ?ini = "init_sys old_guard"
  let ?sa = "move 0 (Blocked ''old'') (?ini\<lparr>s_seen := ''old'' # s_seen ?ini\<rparr>)"
  let ?sb = "move 1 (Blocked ''old'') (?sa\<lparr>s_seen := ''old'' # s_seen ?sa\<rparr>)"
  let ?sc = "move 0 (Locked ''old'') (?sb\<lparr>s_holder := Some 0\<rparr>)"
  let ?sd = "move 0 (Refreshing ''old'') ?sc"
  let ?gn = "store_tokens (rt_Access new_tokens) (rt_Refresh new_tokens) (rt_Exp new_tokens) (s_guard ?sd)"
  let ?se = "move 0 (Returned (Inr (g_access ?gn)))
    (store_in ?gn (?sd\<lparr>s_holder := None, s_flights := (''old'', g_access ?gn) # s_flights ?sd\<rparr>))"
  let ?sf = "move 1 (Locked ''old'') (?se\<lparr>s_holder := Some 1\<rparr>)"
  let ?sg = "move 1 (Returned (Inr (g_access (s_guard ?sf)))) (?sf\<lparr>s_holder := None\<rparr>)"
  note unfold = guard_step_defs init_sys_def old_guard_def new_tokens_def
  have "guard_reachable old_guard ?ini" by (rule guard_reachable.start)
  then have "guard_reachable old_guard ?sa"
    by (rule guard_reachable.step) (rule guard_step.call, simp add: unfold)
  then have "guard_reachable old_guard ?sb"
    by (rule guard_reachable.step) (rule guard_step.call, simp add: unfold)
  then have "guard_reachable old_guard ?sc"
    by (rule guard_reachable.step) (rule guard_step.lock; simp add: unfold)
  then have "guard_reachable old_guard ?sd"
    by (rule guard_reachable.step) (rule guard_step.start, simp_all add: unfold)
  then have "guard_reachable old_guard ?se"
    by (rule guard_reachable.step) (rule guard_step.success, simp add: move_def, simp)
  then have "guard_reachable old_guard ?sf"
    by (rule guard_reachable.step) (rule guard_step.lock; simp add: unfold)
  then have "guard_reachable old_guard ?sg"
    by (rule guard_reachable.step) (rule guard_step.reuse [where a = "''old''"]; simp add: unfold)
  moreover have "?sg = two_callers" by (simp add: unfold two_callers_def fun_eq_iff)
  ultimately show ?thesis by simp
qed


text \<open>
  (C9) One call of \<open>RefreshIfNeeded\<close>: a cached token the caller has not seen is returned and the
  refresh function is not consulted; otherwise it is consulted once, its error is returned
  as it is and leaves the guard alone, and its tokens replace the cached ones, an empty
  refresh token keeping the old.
\<close>

theorem RefreshIfNeeded_cases:
  "(let (res, g', w') = RefreshIfNeeded observed doRefresh g w in
    if g_hasAny g \<and> g_access g \<noteq> observed then res = Inr (g_access g) \<and> g' = g \<and> w' = w
    else w' = snd (doRefresh w) \<and>
      (case fst (doRefresh w) of
         Inl e \<Rightarrow> res = Inl e \<and> g' = g
       | Inr t \<Rightarrow> res = Inr (rt_Access t) \<and> CachedAccessToken g' = (rt_Access t, True) \<and>
           CachedExp g' = (rt_Exp t, True) \<and>
           CachedRefreshToken g' = (if rt_Refresh t = [] then g_refresh g else rt_Refresh t, True)))"
  by (auto simp: RefreshIfNeeded_def already_refreshed_def store_tokens_def CachedAccessToken_def
      CachedRefreshToken_def CachedExp_def Let_def split: prod.splits sum.splits)

end
