(* ===== verification/Single_Use.thy ===== *)
theory Single_Use
  imports Prelude
begin

text \<open>
  The interface of a single-use store: a key is claimed until an expiry, and cannot be claimed
  again before it. The SDK has three providers, the AMQP nonce set, the DPoP \<open>jti\<close> store and
  the SSF \<open>jti\<close> store, and their clients claim only after every other check has passed
  (\<open>guarded_run\<close>).
\<close>

text \<open>
  A request: whether the client's earlier checks passed, the instant, the key, the expiry.
  The result says which requests got the claim.
\<close>

fun guarded_run ::
  "(time \<Rightarrow> 'k \<Rightarrow> time \<Rightarrow> 's \<Rightarrow> bool \<times> 's) \<Rightarrow> (bool \<times> time \<times> 'k \<times> time) list \<Rightarrow> 's \<Rightarrow> bool list \<times> 's" where
  "guarded_run claim [] s = ([], s)"
| "guarded_run claim ((p, now, k, e) # rs) s =
     (let (ok, s') = (if p then claim now k e s else (False, s));
          (oks, s'') = guarded_run claim rs s'
      in (ok # oks, s''))"

locale single_use_store =
  fixes claim :: "time \<Rightarrow> 'k \<Rightarrow> time \<Rightarrow> 's \<Rightarrow> bool \<times> 's"
    and live :: "'s \<Rightarrow> 'k \<Rightarrow> time \<Rightarrow> bool"
  assumes claim_records: "fst (claim now k e s) \<Longrightarrow> t < e \<Longrightarrow> live (snd (claim now k e s)) k t"
    and claim_refuses: "live s k now \<Longrightarrow> \<not> fst (claim now k e s)"
    and claim_keeps: "live s k t \<Longrightarrow> now \<le> t \<Longrightarrow> live (snd (claim now k' e s)) k t"
    and claim_fresh: "\<not> live s k now \<Longrightarrow> fst (claim now k e s)"
begin

lemma claim_iff: "fst (claim now k e s) \<longleftrightarrow> \<not> live s k now"
  using claim_refuses claim_fresh by blast

lemma run_length: "length (fst (guarded_run claim rs s)) = length rs"
  by (induction claim rs s rule: guarded_run.induct) (auto simp: Let_def split: prod.split)

text \<open>Only a request whose earlier checks passed gets a claim.\<close>

lemma run_guard: "i < length rs \<Longrightarrow> fst (guarded_run claim rs s) ! i \<Longrightarrow> fst (rs ! i)"
proof (induction rs arbitrary: s i)
  case (Cons r rs)
  then show ?case by (cases r; cases i) (auto simp: Let_def case_prod_unfold split: if_splits)
qed simp

lemma held_key_refused:
  assumes "\<And>t. now \<le> t \<Longrightarrow> t < e \<Longrightarrow> live s k t"
    and "sorted (now # map (fst \<circ> snd) rs)"
    and "j < length rs" "fst (guarded_run claim rs s) ! j" "rs ! j = (p, n', k, e')"
  shows "e \<le> n'"
  using assms
proof (induction rs arbitrary: s now j)
  case Nil
  then show ?case by simp
next
  case (Cons r rs)
  obtain p0 n0 k0 e0 where r: "r = (p0, n0, k0, e0)" by (cases r)
  let ?step = "if p0 then claim n0 k0 e0 s else (False, s)"
  have le: "now \<le> n0" and sorted: "sorted (n0 # map (fst \<circ> snd) rs)" using Cons.prems(2) by (auto simp: r comp_def)
  have run: "fst (guarded_run claim (r # rs) s) = fst ?step # fst (guarded_run claim rs (snd ?step))"
    by (simp add: r Let_def split: prod.split)
  show ?case
  proof (cases j)
    case 0
    have hd: "fst ?step" using Cons.prems(4) unfolding run \<open>j = 0\<close> by simp
    have "n0 = n'" "k0 = k" using Cons.prems(5) by (simp_all add: \<open>j = 0\<close> r)
    with hd have "n0 = n'" "fst (claim n' k e0 s)" by (simp_all split: if_splits)
    then show ?thesis using Cons.prems(1) [of n'] claim_refuses le by (meson not_le)
  next
    case (Suc i)
    have "live (snd ?step) k t" if "n0 \<le> t" "t < e" for t
      using claim_keeps Cons.prems(1) that le by auto
    then show ?thesis
      using Cons.IH [of n0 "snd ?step" i] sorted Cons.prems(3-5) unfolding Suc run by (simp add: comp_def)
  qed
qed

text \<open>Two requests that both got the claim for one key: the second came at the first's expiry or later.\<close>

lemma no_claim_before_expiry:
  assumes "sorted (map (fst \<circ> snd) rs)" "i < j" "j < length rs"
    and "fst (guarded_run claim rs s) ! i" "fst (guarded_run claim rs s) ! j"
    and "rs ! i = (p, n, k, e)" "rs ! j = (p', n', k, e')"
  shows "e \<le> n'"
  using assms
proof (induction rs arbitrary: s i j)
  case Nil
  then show ?case by simp
next
  case (Cons r rs)
  obtain p0 n0 k0 e0 where r: "r = (p0, n0, k0, e0)" by (cases r)
  let ?step = "if p0 then claim n0 k0 e0 s else (False, s)"
  have run: "fst (guarded_run claim (r # rs) s) = fst ?step # fst (guarded_run claim rs (snd ?step))"
    by (simp add: r Let_def split: prod.split)
  obtain j' where j: "j = Suc j'" using Cons.prems(2) by (cases j) auto
  show ?case
  proof (cases i)
    case 0
    have hd: "fst ?step" using Cons.prems(4) unfolding run 0 by simp
    have eqs: "n0 = n" "k0 = k" "e0 = e" using Cons.prems(6) by (simp_all add: 0 r)
    have claimed: "p0" "fst (claim n k e s)" using hd by (simp_all add: eqs split: if_splits)
    have "live (snd ?step) k t" if "t < e" for t using claim_records that claimed eqs by simp
    moreover have "fst (guarded_run claim rs (snd ?step)) ! j'" using Cons.prems(5) unfolding run j by simp
    ultimately show ?thesis
      using held_key_refused [of n e "snd ?step" k rs j'] Cons.prems(1,3,7) by (simp add: j r eqs comp_def)
  next
    case (Suc i')
    then show ?thesis using Cons.IH [of i' j' "snd ?step"] Cons.prems unfolding j run by simp
  qed
qed

end

end
