(* ===== verification/Go_Time.thy ===== *)
theory Go_Time
  imports Go_Strings
begin

text \<open>
  \<open>time.Parse(time.RFC3339, s)\<close> and \<open>t.UTC().Truncate(time.Second).Format(time.RFC3339)\<close>, over
  the proleptic Gregorian calendar. As Go does, the parser takes one or two digits for the
  hour, a fraction of any length after a dot or a comma (nine digits count), and a zone of up
  to 24 hours and 60 minutes.
\<close>

section \<open>The calendar\<close>

definition leap_year :: "int \<Rightarrow> bool" where
  "leap_year y \<longleftrightarrow> y mod 4 = 0 \<and> (y mod 100 \<noteq> 0 \<or> y mod 400 = 0)"

definition days_in_month :: "int \<Rightarrow> int \<Rightarrow> int" where
  "days_in_month y m =
     (if m = 2 then (if leap_year y then 29 else 28)
      else if m = 4 \<or> m = 6 \<or> m = 9 \<or> m = 11 then 30 else 31)"

text \<open>Days since 1970-01-01, with the year taken to start in March.\<close>

definition days_from_civil :: "int \<Rightarrow> int \<Rightarrow> int \<Rightarrow> int" where
  "days_from_civil y m d =
     (let y' = (if m \<le> 2 then y - 1 else y);
          era = y' div 400; yoe = y' mod 400;
          doy = (153 * (if m > 2 then m - 3 else m + 9) + 2) div 5 + d - 1;
          doe = yoe * 365 + yoe div 4 - yoe div 100 + doy
      in era * 146097 + doe - 719468)"

definition civil_from_days :: "int \<Rightarrow> int \<times> int \<times> int" where
  "civil_from_days z =
     (let z' = z + 719468; era = z' div 146097; doe = z' mod 146097;
          yoe = (doe - doe div 1460 + doe div 36524 - doe div 146096) div 365;
          doy = doe - (365 * yoe + yoe div 4 - yoe div 100);
          mp = (5 * doy + 2) div 153;
          d = doy - (153 * mp + 2) div 5 + 1;
          m = (if mp < 10 then mp + 3 else mp - 9);
          y = yoe + era * 400 + (if m \<le> 2 then 1 else 0)
      in (y, m, d))"

section \<open>Parsing\<close>

text \<open>Exactly \<open>n\<close> digits, and their value.\<close>

definition take_digits :: "nat \<Rightarrow> bytes \<Rightarrow> (int \<times> bytes) option" where
  "take_digits n s =
     (if length s \<ge> n \<and> list_all is_digit (take n s) then Some (digits_value (take n s), drop n s) else None)"

definition take_byte :: "char \<Rightarrow> bytes \<Rightarrow> bytes option" where
  "take_byte c s = (case s of [] \<Rightarrow> None | x # r \<Rightarrow> if x = c then Some r else None)"

definition take_hour :: "bytes \<Rightarrow> (int \<times> bytes) option" where
  "take_hour s = (case take_digits 2 s of Some r \<Rightarrow> Some r | None \<Rightarrow> take_digits 1 s)"

text \<open>The fraction in nanoseconds: digits past the ninth are dropped.\<close>

definition take_fraction :: "bytes \<Rightarrow> int \<times> bytes" where
  "take_fraction s = (case s of
      c # d # r \<Rightarrow>
        (if (c = CHR ''.'' \<or> c = CHR '','') \<and> is_digit d then
           (let ds = takeWhile is_digit (d # r); used = take 9 ds
            in (digits_value used * 10 ^ (9 - length used), dropWhile is_digit (d # r)))
         else (0, s))
    | _ \<Rightarrow> (0, s))"

text \<open>The zone offset in seconds; nothing may follow it.\<close>

definition parse_zone :: "bytes \<Rightarrow> int option" where
  "parse_zone s = (case s of [] \<Rightarrow> None
     | c # r \<Rightarrow>
       if c = CHR ''Z'' then (if r = [] then Some 0 else None)
       else if c = CHR ''+'' \<or> c = CHR ''-'' then
         Option.bind (take_digits 2 r) (\<lambda>(hh, r1).
         Option.bind (take_byte CHR '':'' r1) (\<lambda>r2.
         Option.bind (take_digits 2 r2) (\<lambda>(mm, r3).
           if r3 = [] \<and> hh \<le> 24 \<and> mm \<le> 60
           then Some ((if c = CHR ''-'' then -1 else 1) * (hh * 3600 + mm * 60)) else None)))
       else None)"

definition parse_rfc3339 :: "bytes \<Rightarrow> time option" where
  "parse_rfc3339 s =
     Option.bind (take_digits 4 s) (\<lambda>(y, s1).
     Option.bind (take_byte CHR ''-'' s1) (\<lambda>s2.
     Option.bind (take_digits 2 s2) (\<lambda>(mo, s3).
     Option.bind (take_byte CHR ''-'' s3) (\<lambda>s4.
     Option.bind (take_digits 2 s4) (\<lambda>(d, s5).
     Option.bind (take_byte CHR ''T'' s5) (\<lambda>s6.
     Option.bind (take_hour s6) (\<lambda>(h, s7).
     Option.bind (take_byte CHR '':'' s7) (\<lambda>s8.
     Option.bind (take_digits 2 s8) (\<lambda>(mi, s9).
     Option.bind (take_byte CHR '':'' s9) (\<lambda>s10.
     Option.bind (take_digits 2 s10) (\<lambda>(sec, s11).
     let (ns, s12) = take_fraction s11 in
     Option.bind (parse_zone s12) (\<lambda>off.
       if 1 \<le> mo \<and> mo \<le> 12 \<and> 1 \<le> d \<and> d \<le> days_in_month y mo \<and> h < 24 \<and> mi < 60 \<and> sec < 60
       then Some ((days_from_civil y mo d * 86400 + h * 3600 + mi * 60 + sec - off) * 1000000000 + ns)
       else None))))))))))))"

section \<open>Formatting\<close>

definition two_digits :: "int \<Rightarrow> bytes" where
  "two_digits n = [char_of (48 + nat n div 10), char_of (48 + nat n mod 10)]"

definition year_digits :: "int \<Rightarrow> bytes" where
  "year_digits y =
     (if y < 0 then CHR ''-'' # replicate (4 - length (show_int (- y))) CHR ''0'' @ show_int (- y)
      else replicate (4 - length (show_int y)) CHR ''0'' @ show_int y)"

definition format_rfc3339_utc :: "time \<Rightarrow> bytes" where
  "format_rfc3339_utc t =
     (let secs = unix_seconds t; (y, mo, d) = civil_from_days (secs div 86400); r = secs mod 86400
      in year_digits y @ ''-'' @ two_digits mo @ ''-'' @ two_digits d @ ''T'' @
         two_digits (r div 3600) @ '':'' @ two_digits (r mod 3600 div 60) @ '':'' @ two_digits (r mod 60) @ ''Z'')"

end
