(* ===== verification/Replay.thy ===== *)
theory Replay
  imports Single_Use Go_Time
begin

text \<open>
  \<open>amqp/replay.go\<close> and \<open>claimReactorNonce\<close> of \<open>amqp/reactor_protocol.go\<close>: the checks that run on an
  AMQP delivery after its MAC has been verified. The guard's set of seen nonces is an
  association list from nonce to expiry; the clock is an argument.
\<close>

definition minKeyVersion :: nat where "minKeyVersion = 2"
definition defaultSkew :: duration where "defaultSkew = 5 * Minute"

record replayMeta =
  rm_KeyVersion :: nat
  rm_Nonce :: bytes
  rm_IssuedAt :: bytes

record replayGuard =
  rg_skew :: duration
  rg_seen :: "(bytes \<times> time) list"

datatype replay_error = KeyVersionTooLow nat | IssuedAtInvalid bytes | OutsideWindow bytes | NonceReplayed

definition newReplayGuard :: "duration \<Rightarrow> replayGuard" where
  "newReplayGuard skew = \<lparr>rg_skew = skew, rg_seen = []\<rparr>"

definition prune :: "time \<Rightarrow> replayGuard \<Rightarrow> replayGuard" where
  "prune now g = g\<lparr>rg_seen := filter (\<lambda>(nonce, expiry). now < expiry) (rg_seen g)\<rparr>"

text \<open>\<open>age > skew || age < -skew\<close> for \<open>age := now.Sub(issuedAt)\<close>.\<close>

definition outside_window :: "duration \<Rightarrow> time \<Rightarrow> time \<Rightarrow> bool" where
  "outside_window skew now issuedAt =
     (let age = time_sub now issuedAt in age > skew \<or> age < wrap64 (- skew))"

definition replay_check :: "time \<Rightarrow> replayMeta \<Rightarrow> replayGuard \<Rightarrow> replay_error option \<times> replayGuard" where
  "replay_check now meta g =
     (if rm_KeyVersion meta < minKeyVersion then (Some (KeyVersionTooLow (rm_KeyVersion meta)), g)
      else (case parse_rfc3339 (rm_IssuedAt meta) of
              None \<Rightarrow> (Some (IssuedAtInvalid (rm_IssuedAt meta)), g)
            | Some issuedAt \<Rightarrow>
              if outside_window (rg_skew g) now issuedAt then (Some (OutsideWindow (rm_IssuedAt meta)), g)
              else
                (let g' = prune now g in
                 if map_of (rg_seen g') (rm_Nonce meta) \<noteq> None then (Some NonceReplayed, g')
                 else (None, g'\<lparr>rg_seen := AList.update (rm_Nonce meta) (now + wrap64 (2 * rg_skew g')) (rg_seen g')\<rparr>))))"

definition claimReactorNonce :: "bytes \<Rightarrow> time \<Rightarrow> replayGuard \<Rightarrow> bool \<times> replayGuard" where
  "claimReactorNonce nonce now g =
     (let g' = prune now g in
      if map_of (rg_seen g') nonce \<noteq> None then (False, g')
      else (True, g'\<lparr>rg_seen := AList.update nonce (now + wrap64 (2 * rg_skew g')) (rg_seen g')\<rparr>))"

section \<open>The seen set is a single-use store\<close>

text \<open>The claim both checks end in, with its expiry explicit.\<close>

definition nonce_claim :: "time \<Rightarrow> bytes \<Rightarrow> time \<Rightarrow> (bytes \<times> time) list \<Rightarrow> bool \<times> (bytes \<times> time) list" where
  "nonce_claim now nonce expiry seen =
     (let seen' = filter (\<lambda>(n, e). now < e) seen
      in if map_of seen' nonce \<noteq> None then (False, seen') else (True, AList.update nonce expiry seen'))"

definition nonce_live :: "(bytes \<times> time) list \<Rightarrow> bytes \<Rightarrow> time \<Rightarrow> bool" where
  "nonce_live seen nonce t \<longleftrightarrow> (\<exists>e. (nonce, e) \<in> set seen \<and> t < e)"

lemma nonce_claim_fst: "fst (nonce_claim now k e s) \<longleftrightarrow> \<not> nonce_live s k now"
  by (force simp: nonce_claim_def nonce_live_def Let_def map_of_eq_None_iff)

lemma update_new_set: "map_of s k = None \<Longrightarrow> set (AList.update k e s) = insert (k, e) (set s)"
  by (induction s) (auto split: if_splits)

lemma nonce_claim_live:
  "nonce_live (snd (nonce_claim now k' e s)) k t \<longleftrightarrow>
     nonce_live (filter (\<lambda>(n, x). now < x) s) k t \<or> (k = k' \<and> t < e \<and> fst (nonce_claim now k' e s))"
  by (auto simp: nonce_claim_def nonce_live_def Let_def update_new_set)

interpretation nonces: single_use_store nonce_claim nonce_live
proof
  show "fst (nonce_claim now k e s) \<Longrightarrow> t < e \<Longrightarrow> nonce_live (snd (nonce_claim now k e s)) k t" for now k e s t
    by (simp add: nonce_claim_live)
  show "nonce_live s k t \<Longrightarrow> now \<le> t \<Longrightarrow> nonce_live (snd (nonce_claim now k' e s)) k t" for s k t now k' e
    unfolding nonce_claim_live by (auto simp: nonce_live_def)
qed (simp_all add: nonce_claim_fst)

lemma replay_check_claim:
  "replay_check now meta g =
     (case parse_rfc3339 (rm_IssuedAt meta) of
        Some issuedAt \<Rightarrow>
          if minKeyVersion \<le> rm_KeyVersion meta \<and> \<not> outside_window (rg_skew g) now issuedAt then
            (let (ok, seen) = nonce_claim now (rm_Nonce meta) (now + wrap64 (2 * rg_skew g)) (rg_seen g)
             in (if ok then None else Some NonceReplayed, g\<lparr>rg_seen := seen\<rparr>))
          else (fst (replay_check now meta g), g)
      | None \<Rightarrow> (fst (replay_check now meta g), g))"
  by (auto simp: replay_check_def nonce_claim_def prune_def Let_def split: option.split)

lemma claimReactorNonce_claim:
  "claimReactorNonce nonce now g =
     (let (ok, seen) = nonce_claim now nonce (now + wrap64 (2 * rg_skew g)) (rg_seen g)
      in (ok, g\<lparr>rg_seen := seen\<rparr>))"
  by (simp add: claimReactorNonce_def nonce_claim_def prune_def Let_def)

text \<open>The checks before the nonce.\<close>

definition meta_fresh :: "duration \<Rightarrow> time \<Rightarrow> replayMeta \<Rightarrow> bool" where
  "meta_fresh skew now meta \<longleftrightarrow> minKeyVersion \<le> rm_KeyVersion meta \<and>
     (case parse_rfc3339 (rm_IssuedAt meta) of None \<Rightarrow> False | Some t \<Rightarrow> \<not> outside_window skew now t)"

lemma replay_check_step:
  "fst (replay_check now meta g) = None \<longleftrightarrow>
     meta_fresh (rg_skew g) now meta \<and> fst (nonce_claim now (rm_Nonce meta) (now + wrap64 (2 * rg_skew g)) (rg_seen g))"
  "snd (replay_check now meta g) =
     (if meta_fresh (rg_skew g) now meta
      then g\<lparr>rg_seen := snd (nonce_claim now (rm_Nonce meta) (now + wrap64 (2 * rg_skew g)) (rg_seen g))\<rparr> else g)"
proof -
  show "fst (replay_check now meta g) = None \<longleftrightarrow>
     meta_fresh (rg_skew g) now meta \<and> fst (nonce_claim now (rm_Nonce meta) (now + wrap64 (2 * rg_skew g)) (rg_seen g))"
    by (auto simp: replay_check_def nonce_claim_def meta_fresh_def prune_def Let_def split: option.split)
  show "snd (replay_check now meta g) =
     (if meta_fresh (rg_skew g) now meta
      then g\<lparr>rg_seen := snd (nonce_claim now (rm_Nonce meta) (now + wrap64 (2 * rg_skew g)) (rg_seen g))\<rparr> else g)"
    by (auto simp: replay_check_def nonce_claim_def meta_fresh_def prune_def Let_def split: option.split)
qed

section \<open>Runs\<close>

text \<open>The deliveries one guard judges, in order: which pass.\<close>

fun replay_run :: "(time \<times> replayMeta) list \<Rightarrow> replayGuard \<Rightarrow> bool list" where
  "replay_run [] g = []"
| "replay_run ((now, meta) # ds) g =
     (fst (replay_check now meta g) = None) # replay_run ds (snd (replay_check now meta g))"

definition claim_of :: "duration \<Rightarrow> time \<times> replayMeta \<Rightarrow> bool \<times> time \<times> bytes \<times> time" where
  "claim_of skew d = (meta_fresh skew (fst d) (snd d), fst d, rm_Nonce (snd d), fst d + wrap64 (2 * skew))"

lemma replay_run_claims:
  "replay_run ds g = fst (guarded_run nonce_claim (map (claim_of (rg_skew g)) ds) (rg_seen g))"
proof (induction ds arbitrary: g)
  case (Cons d ds)
  obtain now meta where d: "d = (now, meta)" by force
  have "rg_skew (snd (replay_check now meta g)) = rg_skew g" by (simp add: replay_check_step)
  with Cons [of "snd (replay_check now meta g)"] show ?case
    by (simp add: d claim_of_def replay_check_step Let_def split: prod.split)
qed simp

lemma within_window:
  assumes "0 < skew" "skew < 4611686018427387904" "\<not> outside_window skew now t"
  shows "now - t \<le> skew \<and> - skew \<le> now - t"
proof -
  have "wrap64 (- skew) = - skew" using assms(1,2) by (simp add: in_int64_def min_int64_def max_int64_def)
  then show ?thesis
    using assms by (auto simp: outside_window_def Let_def time_sub_def sat64_def min_int64_def max_int64_def split: if_splits)
qed

lemma replay_run_fresh:
  assumes "j < length ds" "replay_run ds g ! j"
  shows "meta_fresh (rg_skew g) (fst (ds ! j)) (snd (ds ! j))"
  using assms
proof (induction ds arbitrary: g j)
  case (Cons d ds)
  obtain now meta where d: "d = (now, meta)" by force
  have "rg_skew (snd (replay_check now meta g)) = rg_skew g" by (simp add: replay_check_step)
  with Cons.IH [of "j - 1" "snd (replay_check now meta g)"] Cons.prems show ?case
    by (cases j) (auto simp: d replay_check_step)
qed simp

text \<open>Two claims of one nonce, both inside the window of one issue time: the window's two edges.\<close>

lemma claims_at_edge:
  assumes "sorted (map (fst \<circ> snd) rs)" "i < j" "j < length rs"
    and "fst (guarded_run nonce_claim rs s) ! i" "fst (guarded_run nonce_claim rs s) ! j"
    and "rs ! i = (p, n, k, n + wrap64 (2 * skew))" "rs ! j = (p', n', k, e')"
    and "meta_fresh skew n m" "meta_fresh skew n' m'" "rm_IssuedAt m = rm_IssuedAt m'"
    and "0 < skew" "skew < 4611686018427387904"
  shows "\<exists>t. parse_rfc3339 (rm_IssuedAt m) = Some t \<and> t = n + skew \<and> n' = t + skew"
proof -
  have "wrap64 (2 * skew) = 2 * skew" using assms(11,12) by (simp add: in_int64_def min_int64_def max_int64_def)
  then have later: "n + 2 * skew \<le> n'"
    using nonces.no_claim_before_expiry [OF assms(1-7)] by simp
  obtain t where t: "parse_rfc3339 (rm_IssuedAt m) = Some t" "\<not> outside_window skew n t" "\<not> outside_window skew n' t"
    using assms(8-10) unfolding meta_fresh_def by (auto split: option.splits)
  from within_window [OF assms(11,12) t(2)] within_window [OF assms(11,12) t(3)] later t(1) show ?thesis by auto
qed

section \<open>Properties\<close>

text \<open>
  (C25) With a clock that does not go back, one guard never lets the same signed message through
  twice: if two deliveries with the same nonce and \<open>issued_at\<close> both pass, the message was
  issued exactly one window in the future of the first and delivered again exactly one
  window after it was issued.
\<close>

theorem replay_rejected:
  assumes "sorted (map fst ds)" and "i < j" and "j < length ds"
    and "replay_run ds g ! i" and "replay_run ds g ! j"
    and "rm_Nonce (snd (ds ! i)) = rm_Nonce (snd (ds ! j))"
    and "rm_IssuedAt (snd (ds ! i)) = rm_IssuedAt (snd (ds ! j))"
    and "0 < rg_skew g" and "rg_skew g < 4611686018427387904"
  shows "\<exists>t. parse_rfc3339 (rm_IssuedAt (snd (ds ! i))) = Some t \<and>
    t = fst (ds ! i) + rg_skew g \<and> fst (ds ! j) = t + rg_skew g"
proof -
  let ?s = "rg_skew g"
  have srt: "sorted (map (fst \<circ> snd) (map (claim_of ?s) ds))"
    using assms(1) by (simp add: claim_of_def comp_def)
  show ?thesis
    by (rule claims_at_edge [OF srt assms(2), of "rg_seen g"])
      (use assms replay_run_fresh [of i ds g] replay_run_fresh [of j ds g] in
        \<open>simp_all add: replay_run_claims claim_of_def\<close>)
qed

text \<open>
  (C11) The exception is real: a message issued exactly one skew ahead of the receiver's clock
  passes when it arrives and passes again, with the same nonce, at the instant its record
  expires, because the record is dropped at its expiry and the window is closed.
\<close>

definition boundary_message :: replayMeta where
  "boundary_message = \<lparr>rm_KeyVersion = 2, rm_Nonce = ''n'', rm_IssuedAt = ''2023-11-14T22:18:20Z''\<rparr>"

theorem replay_at_window_edge:
  "replay_run [(1700000000000000000, boundary_message), (1700000599999999999, boundary_message),
     (1700000600000000000, boundary_message)] (newReplayGuard defaultSkew) = [True, False, True]"
  by code_simp

theorem replay_rejected_witness:
  "\<exists>t. parse_rfc3339 (rm_IssuedAt boundary_message) = Some t \<and>
    t = 1700000000000000000 + defaultSkew \<and> 1700000600000000000 = t + defaultSkew"
proof -
  let ?ds = "[(1700000000000000000 :: time, boundary_message), (1700000600000000000, boundary_message)]"
  let ?g = "newReplayGuard defaultSkew"
  have run: "replay_run ?ds ?g = [True, True]" by code_simp
  have skew: "rg_skew ?g = 300000000000"
    by (simp add: newReplayGuard_def defaultSkew_def Minute_def)
  show ?thesis
    using replay_rejected [where ds = ?ds and i = 0 and j = 1 and g = ?g] run skew
    by (simp add: newReplayGuard_def)
qed

end
