(* ===== verification/Json_Roundtrip.thy ===== *)
theory Json_Roundtrip
  imports Go_Json
begin

text \<open>
  The parser and the printer of \<open>Go_Json\<close> agree: a well-formed tree is read back from its own
  compact rendering, with the fuel \<open>parse_json\<close> gives itself, and a Go string of valid UTF-8 is
  read back from the literal \<open>Marshal\<close> writes for it.
\<close>

text \<open>In this theory alone the parser and the escapes are unfolded by the simplifier.\<close>

declare unquote.simps(2) [simp] escape_from.simps(2) [simp] utf8_head.simps(2) [simp]
  parse_value.simps(2) [simp] scan_string.simps(2) [simp]

section \<open>Literals\<close>

definition raw_string :: "bytes \<Rightarrow> bool" where
  "raw_string s \<longleftrightarrow> (\<forall>t. scan_string (s @ CHR 0x22 # t) = Some (s, t))"

definition delimited :: "bytes \<Rightarrow> bool" where
  "delimited t \<longleftrightarrow> t = [] \<or> hd t \<in> {CHR '','', CHR 0x5D, CHR 0x7D}"

definition number_literal :: "bytes \<Rightarrow> bool" where
  "number_literal n \<longleftrightarrow> scan_number n = Some (n, [])"

lemma delimiter_not_digit: "delimited t \<Longrightarrow> t \<noteq> [] \<Longrightarrow>
    \<not> is_digit (hd t) \<and> hd t \<noteq> CHR ''.'' \<and> hd t \<noteq> CHR ''e'' \<and> hd t \<noteq> CHR ''E''"
  by (auto simp: delimited_def is_digit_def)

lemma takeWhile_digits_append:
  assumes "delimited t"
  shows "takeWhile is_digit (s @ t) = takeWhile is_digit s"
    and "dropWhile is_digit (s @ t) = dropWhile is_digit s @ t"
  using delimiter_not_digit [OF assms] by (induction s; cases t; auto)+

lemma scan_int_append:
  assumes "scan_int s = Some (i, r)" "delimited t"
  shows "scan_int (s @ t) = Some (i, r @ t)"
  using assms takeWhile_digits_append [OF assms(2), of s]
  by (auto simp: scan_int_def scan_digits_def split: list.splits if_splits)

lemma scan_frac_append:
  assumes "scan_frac s = Some (f, r)" "delimited t"
  shows "scan_frac (s @ t) = Some (f, r @ t)"
proof (cases s)
  case Nil
  with assms delimiter_not_digit [OF assms(2)] show ?thesis
    by (cases t) (auto simp: scan_frac_def)
next
  case (Cons c s')
  with assms takeWhile_digits_append [OF assms(2), of s'] show ?thesis
    by (auto simp: scan_frac_def scan_digits_def split: list.splits if_splits)
qed

lemma scan_exp_append:
  assumes "scan_exp s = Some (f, r)" "delimited t"
  shows "scan_exp (s @ t) = Some (f, r @ t)"
proof (cases s)
  case Nil
  with assms delimiter_not_digit [OF assms(2)] show ?thesis
    by (cases t) (auto simp: scan_exp_def)
next
  case (Cons c s')
  show ?thesis
  proof (cases s')
    case Nil
    with Cons assms show ?thesis by (auto simp: scan_exp_def scan_digits_def split: if_splits)
  next
    case (Cons d s'')
    with \<open>s = c # s'\<close> assms takeWhile_digits_append [OF assms(2), of s'']
      takeWhile_digits_append [OF assms(2), of s'] show ?thesis
      by (auto simp: scan_exp_def scan_digits_def split: list.splits if_splits)
  qed
qed

lemma scan_number_append:
  assumes "number_literal n" "delimited t"
  shows "scan_number (n @ t) = Some (n, t)"
proof -
  obtain c r where n: "n = c # r"
    using assms(1) by (cases n) (auto simp: number_literal_def scan_number_def scan_int_def)
  define sg s where "sg = (if c = CHR ''-'' then [c] else [])" and "s = (if c = CHR ''-'' then r else n)"
  have split: "n = sg @ s" by (simp add: sg_def s_def n)
  obtain i s1 f s2 e where
    p: "scan_int s = Some (i, s1)" "scan_frac s1 = Some (f, s2)" "scan_exp s2 = Some (e, [])"
       "sg @ i @ f @ e = n"
    using assms(1) by (auto simp: number_literal_def scan_number_def n sg_def s_def
      split: option.splits if_splits)
  have "scan_int (s @ t) = Some (i, s1 @ t)" "scan_frac (s1 @ t) = Some (f, s2 @ t)"
      "scan_exp (s2 @ t) = Some (e, t)"
    using scan_int_append scan_frac_append scan_exp_append p(1-3) assms(2) by force+
  then show ?thesis using p(4) split
    by (cases "c = CHR ''-''") (auto simp: scan_number_def sg_def s_def n)
qed

lemma number_head:
  assumes "number_literal n"
  shows "\<exists>c r. n = c # r \<and> (c = CHR ''-'' \<or> is_digit c)"
  using assms
  by (cases n) (auto simp: number_literal_def scan_number_def scan_int_def is_digit_def
    split: option.splits if_splits list.splits)

section \<open>Trees\<close>

fun wf_json :: "json \<Rightarrow> bool" where
  "wf_json (JNum n) = number_literal n"
| "wf_json (JStr s) = raw_string s"
| "wf_json (JArr vs) = (\<forall>v \<in> set vs. wf_json v)"
| "wf_json (JObj ms) = (\<forall>(k, v) \<in> set ms. raw_string k \<and> wf_json v)"
| "wf_json _ = True"

lemma print_head:
  assumes "wf_json v"
  shows "\<exists>c r. print_json v = c # r \<and> \<not> is_json_ws c \<and> c \<noteq> CHR 0x5D"
proof (cases v)
  case (JNum n)
  with assms number_head [of n] show ?thesis by (auto simp: is_json_ws_def is_digit_def)
qed (auto simp: is_json_ws_def)

lemma skip_ws_id: "\<not> is_json_ws c \<Longrightarrow> skip_ws (c # r) = c # r"
  by (simp add: skip_ws_def)

lemma skip_ws_print: "wf_json v \<Longrightarrow> skip_ws (print_json v @ t) = print_json v @ t"
  using print_head [of v] by (auto simp: skip_ws_id)

lemma number_value:
  assumes "number_literal n" "delimited t"
  shows "parse_value (Suc k) (n @ t) = Some (JNum n, t)"
proof -
  obtain c r where n: "n = c # r" "c = CHR ''-'' \<or> is_digit c" using number_head [OF assms(1)] by auto
  then have "c \<noteq> CHR 0x22" "c \<noteq> CHR 0x5B" "c \<noteq> CHR 0x7B" "c \<noteq> CHR ''n''" "c \<noteq> CHR ''t''"
      "c \<noteq> CHR ''f''" "\<not> is_json_ws c"
    by (auto simp: is_json_ws_def is_digit_def)
  then show ?thesis using scan_number_append [OF assms] by (simp add: n skip_ws_id)
qed

lemma delimiter_ws: "\<not> is_json_ws (CHR '','')" "\<not> is_json_ws (CHR 0x5D)" "\<not> is_json_ws (CHR 0x7D)"
    "\<not> is_json_ws (CHR '':'')" "\<not> is_json_ws (CHR 0x22)"
  by (simp_all add: is_json_ws_def)

lemma parse_elems_print:
  assumes "vs \<noteq> []" "\<forall>v \<in> set vs. wf_json v"
    and "\<And>v fuel t. v \<in> set vs \<Longrightarrow> delimited t \<Longrightarrow> 2 * length (print_json v) \<le> fuel \<Longrightarrow>
      parse_value fuel (print_json v @ t) = Some (v, t)"
    and "2 * length (join '','' (map print_json vs)) + 1 \<le> fuel"
  shows "parse_elems fuel (join '','' (map print_json vs) @ CHR 0x5D # t) = Some (vs, t)"
  using assms
proof (induction vs arbitrary: fuel)
  case (Cons v vs)
  obtain n where fuel: "fuel = Suc n" using Cons.prems(4) by (cases fuel) auto
  show ?case
  proof (cases "vs = []")
    case True
    have "parse_value n (print_json v @ CHR 0x5D # t) = Some (v, CHR 0x5D # t)"
      using Cons.prems(3) [of v "CHR 0x5D # t" n] Cons.prems(4) by (simp add: True fuel delimited_def)
    then show ?thesis by (simp add: True fuel skip_ws_id delimiter_ws)
  next
    case False
    let ?rest = "join '','' (map print_json vs) @ CHR 0x5D # t"
    have j: "join '','' (map print_json (v # vs)) = print_json v @ '','' @ join '','' (map print_json vs)"
      using False by (simp add: join_Cons)
    have "parse_value n (print_json v @ CHR '','' # ?rest) = Some (v, CHR '','' # ?rest)"
      using Cons.prems(3) [of v "CHR '','' # ?rest" n] Cons.prems(4)
      unfolding j by (simp add: fuel delimited_def)
    moreover have "parse_elems n ?rest = Some (vs, t)"
    proof (rule Cons.IH [OF False])
      show "2 * length (join '','' (map print_json vs)) + 1 \<le> n"
        using Cons.prems(4) unfolding j fuel by simp
    qed (use Cons.prems in auto)
    ultimately show ?thesis unfolding j fuel by (simp add: skip_ws_id delimiter_ws)
  qed
qed simp

abbreviation print_member :: "bytes \<times> json \<Rightarrow> bytes" where
  "print_member \<equiv> (\<lambda>(k, v). CHR 0x22 # k @ [CHR 0x22] @ '':'' @ print_json v)"

lemma parse_members_print:
  assumes "ms \<noteq> []" "\<forall>(k, v) \<in> set ms. raw_string k \<and> wf_json v"
    and "\<And>k v fuel t. (k, v) \<in> set ms \<Longrightarrow> delimited t \<Longrightarrow> 2 * length (print_json v) \<le> fuel \<Longrightarrow>
      parse_value fuel (print_json v @ t) = Some (v, t)"
    and "2 * length (join '','' (map print_member ms)) + 1 \<le> fuel"
  shows "parse_members fuel (join '','' (map print_member ms) @ CHR 0x7D # t) = Some (ms, t)"
  using assms
proof (induction ms arbitrary: fuel)
  case (Cons m ms)
  obtain k v where m: "m = (k, v)" by force
  obtain n where fuel: "fuel = Suc n" using Cons.prems(4) by (cases fuel) auto
  have k: "scan_string (k @ CHR 0x22 # r) = Some (k, r)" for r
    using Cons.prems(2) by (simp add: m raw_string_def)
  show ?case
  proof (cases "ms = []")
    case True
    have "parse_value n (print_json v @ CHR 0x7D # t) = Some (v, CHR 0x7D # t)"
      using Cons.prems(3) [of k v "CHR 0x7D # t" n] Cons.prems(4) by (simp add: True fuel m delimited_def)
    then show ?thesis by (simp add: True fuel m skip_ws_id delimiter_ws k)
  next
    case False
    let ?rest = "join '','' (map print_member ms) @ CHR 0x7D # t"
    have j: "join '','' (map print_member (m # ms)) =
        CHR 0x22 # k @ CHR 0x22 # CHR '':'' # print_json v @ CHR '','' # join '','' (map print_member ms)"
      using False by (simp add: join_Cons m)
    have "parse_value n (print_json v @ CHR '','' # ?rest) = Some (v, CHR '','' # ?rest)"
      using Cons.prems(3) [of k v "CHR '','' # ?rest" n] Cons.prems(4)
      unfolding j by (simp add: fuel m delimited_def)
    moreover have "parse_members n ?rest = Some (ms, t)"
    proof (rule Cons.IH [OF False])
      show "2 * length (join '','' (map print_member ms)) + 1 \<le> n"
        using Cons.prems(4) unfolding j fuel by simp
    qed (use Cons.prems in auto)
    ultimately show ?thesis unfolding j unfolding fuel m by (simp add: skip_ws_id delimiter_ws k)
  qed
qed simp

lemma join_starts: "\<exists>u. join s (x # xs) = x @ u"
  by (cases xs) auto

theorem parse_print_value:
  assumes "wf_json v" "delimited t" "2 * length (print_json v) \<le> fuel"
  shows "parse_value fuel (print_json v @ t) = Some (v, t)"
  using assms
proof (induction v arbitrary: fuel t)
  case JNull
  then show ?case by (cases fuel) (auto simp: skip_ws_id is_json_ws_def)
next
  case (JBool b)
  then show ?case by (cases fuel; cases b) (auto simp: skip_ws_id is_json_ws_def)
next
  case (JNum n)
  then show ?case using number_value [of n t] number_head [of n] by (cases fuel) auto
next
  case (JStr s)
  then show ?case by (cases fuel) (auto simp: skip_ws_id delimiter_ws raw_string_def)
next
  case (JArr vs)
  obtain n where fuel: "fuel = Suc n" using JArr.prems(3) by (cases fuel) auto
  show ?case
  proof (cases "vs = []")
    case False
    then obtain v vs' where vs: "vs = v # vs'" by (cases vs) auto
    let ?body = "join '','' (map print_json vs)"
    obtain u where u: "join '','' (print_json v # map print_json vs') = print_json v @ u"
      using join_starts by blast
    obtain c r where head: "?body @ CHR 0x5D # t = c # r" "\<not> is_json_ws c" "c \<noteq> CHR 0x5D"
      using print_head [of v] JArr.prems(1) u by (auto simp: vs)
    have "parse_elems n (?body @ CHR 0x5D # t) = Some (vs, t)"
      using JArr.IH JArr.prems by (intro parse_elems_print) (auto simp: fuel False)
    then show ?thesis using head by (simp add: fuel skip_ws_id is_json_ws_def)
  qed (simp add: fuel skip_ws_id is_json_ws_def)
next
  case (JObj ms)
  obtain n where fuel: "fuel = Suc n" using JObj.prems(3) by (cases fuel) auto
  show ?case
  proof (cases "ms = []")
    case False
    let ?body = "join '','' (map print_member ms)"
    obtain m ms' where "ms = m # ms'" using False by (cases ms) auto
    moreover obtain u where "join '','' (print_member m # map print_member ms') = print_member m @ u"
      using join_starts by blast
    ultimately obtain r where head: "?body @ CHR 0x7D # t = CHR 0x22 # r"
      by (simp add: case_prod_unfold)
    have "parse_members n (?body @ CHR 0x7D # t) = Some (ms, t)"
    proof (rule parse_members_print [OF False])
      show "parse_value f (print_json v @ u) = Some (v, u)"
        if "(k, v) \<in> set ms" "delimited u" "2 * length (print_json v) \<le> f" for k v f u
        using JObj.IH [of "(k, v)" v] JObj.prems(1) that by auto
    qed (use JObj.prems in \<open>auto simp: fuel\<close>)
    then show ?thesis using head by (simp add: fuel skip_ws_id is_json_ws_def)
  qed (simp add: fuel skip_ws_id is_json_ws_def)
qed

theorem parse_print: "wf_json v \<Longrightarrow> parse_json (print_json v) = Some v"
  using parse_print_value [of v "[]" "2 * length (print_json v) + 2"]
  by (simp add: parse_json_def delimited_def skip_ws_def del: parse_value.simps)

section \<open>Strings\<close>

lemma byte_in_high: "byte_in b lo hi \<Longrightarrow> 128 \<le> lo \<Longrightarrow> 128 \<le> (of_char b :: nat)"
  by (simp add: byte_in_def)

lemma utf8_head_high:
  assumes "utf8_head (c # r) = n" "n \<noteq> 0" "128 \<le> (of_char c :: nat)" "x \<in> set (take n (c # r))"
  shows "128 \<le> (of_char x :: nat)"
  using assms
  by (auto simp: numeral_2_eq_2 numeral_3_eq_3 numeral_eq_Suc byte_in_def split: if_splits list.splits)

lemma utf8_head_take:
  assumes "utf8_head s = n" "n \<noteq> 0"
  shows "utf8_head (take n s @ t) = n"
  using assms
  by (cases s) (auto simp: numeral_eq_Suc split: if_splits list.splits)

lemma utf8_head_le: "utf8_head s \<le> length s"
  by (cases s) (auto split: list.splits)

lemma scan_string_high:
  assumes "\<forall>x \<in> set p. 128 \<le> (of_char x :: nat)"
  shows "scan_string (p @ s) = map_option (\<lambda>(a, b). (p @ a, b)) (scan_string s)"
  using assms
proof (induction p)
  case (Cons c p)
  then have "c \<noteq> CHR 0x22" "c \<noteq> CHR 0x5C" "\<not> of_char c < (32 :: nat)" by auto
  with Cons show ?case by (cases "scan_string s") auto
qed (cases "scan_string s", auto)

lemma hex_digit_ok: "n < 16 \<Longrightarrow> hex_value (hex_digit n) = Some n"
  by (rule hex_value_digit)

lemma scan_hex4: "scan_string (CHR 0x5C # CHR ''u'' # hex4 n @ s) =
    map_option (\<lambda>(a, b). (CHR 0x5C # CHR ''u'' # hex4 n @ a, b)) (scan_string s)"
  by (simp add: hex4_def hex_digit_ok)

definition literal_piece :: "bytes \<Rightarrow> bool" where
  "literal_piece p \<longleftrightarrow> (\<forall>s. scan_string (p @ s) = map_option (\<lambda>(a, b). (p @ a, b)) (scan_string s))"

lemma scan_piece: "literal_piece p \<Longrightarrow> scan_string (p @ s) = map_option (\<lambda>(a, b). (p @ a, b)) (scan_string s)"
  by (simp add: literal_piece_def)

lemma literal_pieces:
  "literal_piece [CHR 0x5C, CHR 0x22]" "literal_piece [CHR 0x5C, CHR 0x5C]"
  "literal_piece [CHR 0x5C, CHR ''b'']" "literal_piece [CHR 0x5C, CHR ''f'']"
  "literal_piece [CHR 0x5C, CHR ''n'']" "literal_piece [CHR 0x5C, CHR ''r'']"
  "literal_piece [CHR 0x5C, CHR ''t'']" "literal_piece (CHR 0x5C # ''ufffd'')"
  "literal_piece (CHR 0x5C # ''u2028'')" "literal_piece (CHR 0x5C # ''u2029'')"
  "literal_piece (CHR 0x5C # CHR ''u'' # hex4 n)"
  "32 \<le> (of_char c :: nat) \<Longrightarrow> c \<noteq> CHR 0x22 \<Longrightarrow> c \<noteq> CHR 0x5C \<Longrightarrow> literal_piece [c]"
  "\<forall>x \<in> set p. 128 \<le> (of_char x :: nat) \<Longrightarrow> literal_piece p"
  using scan_hex4 scan_string_high by (auto simp: literal_piece_def hex_value_def)

text \<open>One step of the escaping: the piece written and the bytes it stands for.\<close>

definition escape_piece :: "bool \<Rightarrow> char \<Rightarrow> bytes \<Rightarrow> bytes \<times> bytes" where
  "escape_piece html c r =
     (if of_char c < (128 :: nat) then
        ((if c = CHR 0x22 \<or> c = CHR 0x5C then [CHR 0x5C, c]
          else if c = CHR 0x08 then [CHR 0x5C, CHR ''b'']
          else if c = CHR 0x0C then [CHR 0x5C, CHR ''f'']
          else if c = CHR 0x0A then [CHR 0x5C, CHR ''n'']
          else if c = CHR 0x0D then [CHR 0x5C, CHR ''r'']
          else if c = CHR 0x09 then [CHR 0x5C, CHR ''t'']
          else if of_char c < (32 :: nat) \<or> (html \<and> c \<in> set ''<>&'') then CHR 0x5C # CHR ''u'' # hex4 (of_char c)
          else [c]), r)
      else (let n = utf8_head (c # r) in
        if n = 0 then (CHR 0x5C # ''ufffd'', r)
        else ((if take 3 (c # r) = [CHR 0xE2, CHR 0x80, CHR 0xA8] then CHR 0x5C # ''u2028''
               else if take 3 (c # r) = [CHR 0xE2, CHR 0x80, CHR 0xA9] then CHR 0x5C # ''u2029''
               else take n (c # r)), drop n (c # r))))"

lemma escape_step: "escape_from html (c # r) =
    fst (escape_piece html c r) @ escape_from html (snd (escape_piece html c r))"
  by (simp add: escape_piece_def Let_def)

lemma escape_piece_literal: "literal_piece (fst (escape_piece html c r))"
proof (cases "of_char c < (128 :: nat)")
  case True
  then show ?thesis by (auto simp: escape_piece_def literal_pieces)
next
  case False
  then show ?thesis using utf8_head_high [of c r]
    by (auto simp: escape_piece_def Let_def intro!: literal_pieces)
qed

lemma escape_piece_less: "length (snd (escape_piece html c r)) < length (c # r)"
  by (auto simp: escape_piece_def Let_def)

theorem raw_string_escape: "raw_string (escape_from html s)"
proof (induction s rule: length_induct)
  case (1 s)
  show ?case
  proof (cases s)
    case (Cons c r)
    then have "raw_string (escape_from html (snd (escape_piece html c r)))"
      using 1 escape_piece_less by blast
    then show ?thesis
      by (simp add: Cons escape_step raw_string_def scan_piece [OF escape_piece_literal] del: escape_from.simps)
  qed (simp add: raw_string_def)
qed

text \<open>A Go string of valid UTF-8, and the step of reading one piece back.\<close>

function valid_utf8 :: "bytes \<Rightarrow> bool" where
  "valid_utf8 [] = True"
| "valid_utf8 (c # r) = (utf8_head (c # r) \<noteq> 0 \<and> valid_utf8 (drop (utf8_head (c # r) - 1) r))"
  by pat_completeness auto
termination
  by (relation "measure length") auto

lemma hex4_byte: "n < 256 \<Longrightarrow> hex4_value (hex4 n) = n"
  by (simp add: hex4_def hex_digit_ok)

lemma unquote_plain:
  assumes "c \<noteq> CHR 0x5C" "utf8_head (c # r) = n" "n \<noteq> 0"
  shows "unquote (take n (c # r) @ x) = take n (c # r) @ unquote x"
proof -
  obtain m where n: "n = Suc m" using assms(3) by (cases n) auto
  have le: "n \<le> length (c # r)" using assms(2) utf8_head_le [of "c # r"] by simp
  have "utf8_head (take n (c # r) @ x) = n" using utf8_head_take assms by blast
  with assms(1) le show ?thesis by (simp add: n)
qed

lemma unquote_short:
  "unquote (CHR 0x5C # CHR 0x22 # x) = CHR 0x22 # unquote x"
  "unquote (CHR 0x5C # CHR 0x5C # x) = CHR 0x5C # unquote x"
  "unquote (CHR 0x5C # CHR ''b'' # x) = CHR 0x08 # unquote x"
  "unquote (CHR 0x5C # CHR ''f'' # x) = CHR 0x0C # unquote x"
  "unquote (CHR 0x5C # CHR ''n'' # x) = CHR 0x0A # unquote x"
  "unquote (CHR 0x5C # CHR ''r'' # x) = CHR 0x0D # unquote x"
  "unquote (CHR 0x5C # CHR ''t'' # x) = CHR 0x09 # unquote x"
  by (simp_all add: short_escape_def)

lemma unquote_hex4:
  assumes "n < 128"
  shows "unquote (CHR 0x5C # CHR ''u'' # hex4 n @ x) = char_of n # unquote x"
proof -
  have "take 4 (hex4 n @ x) = hex4 n" "drop 4 (hex4 n @ x) = x" by (simp_all add: hex4_def)
  then show ?thesis using assms hex4_byte [of n] by (simp add: utf8_encode_def del: hex4_value.simps)
qed

lemma unquote_separators:
  "unquote (CHR 0x5C # ''u2028'' @ x) = [CHR 0xE2, CHR 0x80, CHR 0xA8] @ unquote x"
  "unquote (CHR 0x5C # ''u2029'' @ x) = [CHR 0xE2, CHR 0x80, CHR 0xA9] @ unquote x"
proof -
  have e: "utf8_encode 8232 = [CHR 0xE2, CHR 0x80, CHR 0xA8]" "utf8_encode 8233 = [CHR 0xE2, CHR 0x80, CHR 0xA9]"
    by (simp_all add: utf8_encode_def char_of_eq_iff)
  show "unquote (CHR 0x5C # ''u2028'' @ x) = [CHR 0xE2, CHR 0x80, CHR 0xA8] @ unquote x"
      "unquote (CHR 0x5C # ''u2029'' @ x) = [CHR 0xE2, CHR 0x80, CHR 0xA9] @ unquote x"
    by (simp_all add: hex_value_def e)
qed

lemma utf8_head_ascii: "of_char c < (128 :: nat) \<Longrightarrow> utf8_head (c # r) = 1"
  by (simp add: byte_in_def)

lemma piece_reads_back:
  assumes "valid_utf8 (c # r)"
  shows "valid_utf8 (snd (escape_piece html c r)) \<and>
    (\<exists>p. c # r = p @ snd (escape_piece html c r) \<and>
         (\<forall>x. unquote (fst (escape_piece html c r) @ x) = p @ unquote x))"
proof (cases "of_char c < (128 :: nat)")
  case True
  have v: "valid_utf8 r" using assms utf8_head_ascii [OF True, of r] by simp
  have byte: "\<not> of_char c = (92 :: nat) \<Longrightarrow> c \<noteq> CHR 0x5C" by auto
  have plain: "unquote (c # x) = c # unquote x" if "c \<noteq> CHR 0x5C" for x
    using unquote_plain [OF that utf8_head_ascii [OF True, of r]] by simp
  have hex: "unquote (CHR 0x5C # CHR ''u'' # hex4 (of_char c) @ x) = c # unquote x" for x
    using unquote_hex4 [OF True, of x] by (simp del: unquote.simps)
  have "\<forall>x. unquote (fst (escape_piece html c r) @ x) = [c] @ unquote x"
    using True plain hex unquote_short by (simp add: escape_piece_def del: unquote.simps)
  moreover have "snd (escape_piece html c r) = r" using True by (simp add: escape_piece_def)
  ultimately show ?thesis using v by (intro conjI exI [of _ "[c]"]) simp_all
next
  case False
  let ?n = "utf8_head (c # r)"
  have n: "?n \<noteq> 0" and v: "valid_utf8 (drop ?n (c # r))"
    using assms by (simp_all add: drop_Cons' del: utf8_head.simps)
  have c: "c \<noteq> CHR 0x5C" using False by auto
  have "take 3 (c # r) = take ?n (c # r)" if "take 3 (c # r) = [CHR 0xE2, CHR 0x80, z]" for z
  proof -
    have "\<exists>r'. c # r = CHR 0xE2 # CHR 0x80 # z # r'"
      using that by (cases r; cases "tl r") (auto simp: numeral_eq_Suc)
    then show ?thesis using n by (auto simp: byte_in_def split: if_splits)
  qed
  then have "\<forall>x. unquote (fst (escape_piece html c r) @ x) = take ?n (c # r) @ unquote x"
    using False n c unquote_plain unquote_separators
    by (auto simp: escape_piece_def Let_def simp del: unquote.simps utf8_head.simps)
  moreover have "snd (escape_piece html c r) = drop ?n (c # r)"
    using False n by (simp add: escape_piece_def Let_def del: utf8_head.simps)
  ultimately show ?thesis using v
    by (intro conjI exI [of _ "take ?n (c # r)"]) (simp_all del: unquote.simps utf8_head.simps)
qed

theorem unquote_escape: "valid_utf8 s \<Longrightarrow> unquote (escape_from html s) = s"
proof (induction s rule: length_induct)
  case (1 s)
  show ?case
  proof (cases s)
    case (Cons c r)
    then obtain p where p: "valid_utf8 (snd (escape_piece html c r))" "c # r = p @ snd (escape_piece html c r)"
        "\<And>x. unquote (fst (escape_piece html c r) @ x) = p @ unquote x"
      using piece_reads_back 1(2) by blast
    have "unquote (escape_from html (snd (escape_piece html c r))) = snd (escape_piece html c r)"
      using 1(1) p(1) escape_piece_less Cons by blast
    then have "unquote (escape_from html (c # r)) = p @ snd (escape_piece html c r)"
      unfolding escape_step p(3) by simp
    then show ?thesis unfolding Cons p(2) [symmetric] .
  qed simp
qed

section \<open>Numbers\<close>

lemma takeWhile_list_all: "list_all P s \<Longrightarrow> takeWhile P s = s \<and> dropWhile P s = []"
  by (induction s) auto

lemma number_literal_show_nat [simp]: "number_literal (show_nat n)"
proof -
  obtain c r where s: "show_nat n = c # r" using show_nat_digits [of n] by (cases "show_nat n") auto
  have d: "list_all is_digit (c # r)" using show_nat_digits [of n] s by simp
  have t: "takeWhile is_digit (c # r) = c # r" "dropWhile is_digit (c # r) = []"
      "takeWhile is_digit r = r" "dropWhile is_digit r = []"
    using takeWhile_list_all [OF d] takeWhile_list_all [of is_digit r] d by auto
  have "c \<noteq> CHR ''-''" using d by (auto simp: is_digit_def)
  moreover have "c = CHR ''0'' \<Longrightarrow> r = []"
    using show_nat_head [of n c r] s by (auto simp: show_nat.simps)
  ultimately show ?thesis
    using d unfolding number_literal_def s
    by (auto simp: t scan_number_def scan_int_def scan_digits_def scan_frac_def scan_exp_def)
qed

lemma uint_literal_show_nat [simp]: "n < 2 ^ w \<Longrightarrow> uint_literal w (show_nat n) = Some n"
  using show_nat_digits [of n] by (simp add: uint_literal_def Let_def)

lemma uint_literal_less: "uint_literal w s = Some n \<Longrightarrow> n < 2 ^ w"
  by (auto simp: uint_literal_def Let_def split: if_splits)

lemma show_nat_inject [simp]: "show_nat n = show_nat m \<longleftrightarrow> n = m"
  using show_nat_digits [of n] show_nat_digits [of m] by (metis of_nat_eq_iff)

section \<open>What is read is well formed\<close>

lemma raw_string_append: "literal_piece p \<Longrightarrow> raw_string a \<Longrightarrow> raw_string (p @ a)"
  by (simp add: raw_string_def scan_piece)

text \<open>What the scanner reads before it goes on: one byte, or an escape.\<close>

lemma scan_string_step:
  assumes "scan_string (c # s) = Some (a, r)" "c \<noteq> CHR 0x22"
  obtains p a' s' where "c # s = p @ s'" "a = p @ a'" "p \<noteq> []" "literal_piece p" "scan_string s' = Some (a', r)"
    "c = CHR 0x5C \<or> p = [c]" "\<forall>x \<in> set p. p = [x] \<or> x \<notin> set ''<>&''" "\<forall>x \<in> set p. p = [x] \<or> of_char x < (128 :: nat)"
proof (cases "c = CHR 0x5C")
  case False
  then have "\<not> of_char c < (32 :: nat)" "\<exists>a'. a = c # a' \<and> scan_string s = Some (a', r)"
    using assms by (auto split: if_splits)
  then show ?thesis using that [of "[c]" s] assms(2) False literal_pieces(12) [of c] by auto
next
  case True
  then obtain e s1 where e: "s = e # s1" using assms by (cases s) auto
  show ?thesis
  proof (cases "e = CHR ''u''")
    case False
    then have m: "e \<in> set [CHR 0x22, CHR 0x5C, CHR ''/'', CHR ''b'', CHR ''f'', CHR ''n'', CHR ''r'', CHR ''t'']"
      using assms by (auto simp: True e split: if_splits)
    then obtain a' where "a = c # e # a'" "scan_string s1 = Some (a', r)"
      using assms(1) by (auto simp: True e)
    moreover have "literal_piece [c, e]" using m by (auto simp: True literal_piece_def)
    ultimately show ?thesis using that [of "[c, e]" s1 a'] m by (auto simp: e True)
  next
    case u: True
    obtain h1 h2 h3 h4 s2 where s1: "s1 = h1 # h2 # h3 # h4 # s2"
        and h: "list_all (\<lambda>h. hex_value h \<noteq> None) [h1, h2, h3, h4]"
      using assms(1) by (auto simp: True e u split: list.splits if_splits)
    obtain a' where "a = c # e # h1 # h2 # h3 # h4 # a'" "scan_string s2 = Some (a', r)"
      using assms(1) h by (auto simp: True e u s1)
    moreover have "literal_piece [c, e, h1, h2, h3, h4]" using h by (auto simp: True u literal_piece_def)
    moreover have "x \<notin> set ''<>&'' \<and> of_char x < (128 :: nat)" if "hex_value x \<noteq> None" for x
      using that by (auto simp: hex_value_def Let_def split: if_splits)
    ultimately show ?thesis using that [of "[c, e, h1, h2, h3, h4]" s2 a'] h by (auto simp: e True u s1)
  qed
qed

lemma scan_string_raw: "scan_string s = Some (a, r) \<Longrightarrow> raw_string a"
proof (induction s arbitrary: a rule: length_induct)
  case (1 s)
  then obtain c s1 where s: "s = c # s1" by (cases s) auto
  show ?case
  proof (cases "c = CHR 0x22")
    case True
    then show ?thesis using 1(2) by (auto simp: s raw_string_def)
  next
    case False
    then obtain p a' s' where p: "c # s1 = p @ s'" "a = p @ a'" "p \<noteq> []" "literal_piece p"
        "scan_string s' = Some (a', r)"
      using scan_string_step 1(2) unfolding s by metis
    then have "length s' < length s" unfolding s p(1) by simp
    with 1(1) p(5) have "raw_string a'" by blast
    with p show ?thesis by (simp add: raw_string_append)
  qed
qed

lemma scan_digits_again:
  assumes "scan_digits s = (ds, r)" "t = [] \<or> \<not> is_digit (hd t)"
  shows "scan_digits (ds @ t) = (ds, t)"
proof -
  have "takeWhile is_digit (takeWhile is_digit s @ t) = takeWhile is_digit s \<and>
      dropWhile is_digit (takeWhile is_digit s @ t) = t"
    using assms(2) by (induction s; cases t) auto
  then show ?thesis using assms(1) by (auto simp: scan_digits_def)
qed

lemma no_digits: "\<not> is_digit (CHR ''e'')" "\<not> is_digit (CHR ''E'')" "\<not> is_digit (CHR ''.'')"
    "\<not> is_digit (CHR ''+'')" "\<not> is_digit (CHR ''-'')"
  by (simp_all add: is_digit_def)

lemma scan_digits_sign: "scan_digits (CHR ''+'' # r) = ([], CHR ''+'' # r)" "scan_digits (CHR ''-'' # r) = ([], CHR ''-'' # r)"
  by (simp_all add: scan_digits_def no_digits)

lemma scan_exp_shape:
  assumes "scan_exp s = Some (e, r)"
  shows "(e = [] \<or> hd e \<in> {CHR ''e'', CHR ''E''}) \<and> scan_exp e = Some (e, [])"
proof (cases "e = []")
  case True
  then show ?thesis by (simp add: scan_exp_def)
next
  case False
  then obtain c s' where s: "s = c # s'" "c = CHR ''e'' \<or> c = CHR ''E''"
    using assms by (auto simp: scan_exp_def split: list.splits if_splits)
  define sg r1 where
    "sg = fst (case s' of [] \<Rightarrow> ([], []) | x # r' \<Rightarrow> if x = CHR ''+'' \<or> x = CHR ''-'' then ([x], r') else ([], s'))"
    and "r1 = snd (case s' of [] \<Rightarrow> ([], []) | x # r' \<Rightarrow> if x = CHR ''+'' \<or> x = CHR ''-'' then ([x], r') else ([], s'))"
  obtain d ds where d: "fst (scan_digits r1) = d # ds" "e = c # sg @ d # ds"
    using assms s by (auto simp: scan_exp_def sg_def r1_def Let_def case_prod_unfold split: if_splits list.splits prod.splits)
  have "scan_digits r1 = (d # ds, snd (scan_digits r1))" by (simp add: prod_eq_iff d(1))
  from scan_digits_again [OF this, of "[]"] have again: "scan_digits (d # ds) = (d # ds, [])" by simp
  then have "d \<noteq> CHR ''+''" "d \<noteq> CHR ''-''" using scan_digits_sign by force+
  moreover have "sg = [] \<or> sg = [CHR ''+''] \<or> sg = [CHR ''-'']" by (auto simp: sg_def split: list.splits)
  ultimately show ?thesis using s(2) again by (auto simp: d(2) scan_exp_def)
qed

lemma scan_frac_shape:
  assumes "scan_frac s = Some (f, r)" "t = [] \<or> hd t \<in> {CHR ''e'', CHR ''E''}"
  shows "(f = [] \<or> hd f = CHR ''.'') \<and> scan_frac (f @ t) = Some (f, t)"
proof (cases "f = []")
  case True
  then show ?thesis using assms(2) by (cases t) (auto simp: scan_frac_def)
next
  case False
  then obtain s' d ds r' where s: "scan_digits s' = (d # ds, r')" "f = CHR ''.'' # d # ds"
    using assms(1) by (auto simp: scan_frac_def split: list.splits if_splits prod.splits)
  have "scan_digits (d # ds @ t) = (d # ds, t)"
    using scan_digits_again [OF s(1), of t] assms(2) no_digits by auto
  then show ?thesis by (simp add: s(2) scan_frac_def)
qed

lemma scan_int_shape:
  assumes "scan_int s = Some (i, r)" "t = [] \<or> \<not> is_digit (hd t)"
  shows "scan_int (i @ t) = Some (i, t) \<and> i \<noteq> [] \<and> is_digit (hd i)"
proof -
  obtain c s' where s: "s = c # s'" using assms(1) by (cases s) (auto simp: scan_int_def)
  show ?thesis
  proof (cases "c = CHR ''0''")
    case True
    then show ?thesis using assms(1) by (auto simp: s scan_int_def is_digit_def)
  next
    case False
    then have d: "is_digit c" "scan_digits s = (i, r)" using assms(1) by (auto simp: s scan_int_def split: if_splits)
    then have "i = c # takeWhile is_digit s'" by (auto simp: s scan_digits_def)
    with d False scan_digits_again [OF d(2) assms(2)] show ?thesis by (simp add: scan_int_def)
  qed
qed

lemma scan_number_literal:
  assumes "scan_number s = Some (n, r)"
  shows "number_literal n"
proof -
  define sg s0 where
    "sg = fst (case s of [] \<Rightarrow> ([], []) | c # r \<Rightarrow> if c = CHR ''-'' then ([c], r) else ([], s))"
    and "s0 = snd (case s of [] \<Rightarrow> ([], []) | c # r \<Rightarrow> if c = CHR ''-'' then ([c], r) else ([], s))"
  obtain i s1 f s2 e where p: "scan_int s0 = Some (i, s1)" "scan_frac s1 = Some (f, s2)"
      "scan_exp s2 = Some (e, r)" "n = sg @ i @ f @ e"
    using assms by (auto simp: scan_number_def sg_def s0_def Let_def case_prod_unfold split: option.splits prod.splits)
  have e: "e = [] \<or> hd e \<in> {CHR ''e'', CHR ''E''}" "scan_exp e = Some (e, [])"
    using scan_exp_shape [OF p(3)] by auto
  have f: "f = [] \<or> hd f = CHR ''.''" "scan_frac (f @ e) = Some (f, e)" using scan_frac_shape [OF p(2) e(1)] by auto
  have "f @ e = [] \<or> \<not> is_digit (hd (f @ e))" using e(1) f(1) no_digits by (cases f) auto
  from scan_int_shape [OF p(1) this] have i: "scan_int (i @ f @ e) = Some (i, f @ e)" "i \<noteq> []" "is_digit (hd i)" by auto
  have "sg = [] \<or> sg = [CHR ''-'']" by (auto simp: sg_def split: list.splits)
  then show ?thesis
    using i e(2) f(2) no_digits by (cases i) (auto simp: p(4) number_literal_def scan_number_def)
qed

lemma parse_value_cases:
  assumes "parse_value (Suc n) s = Some (v, r)"
  shows "v \<in> {JNull, JBool True, JBool False, JArr [], JObj []} \<or>
    (\<exists>a t. v = JStr a \<and> scan_string t = Some (a, r)) \<or> (\<exists>m t. v = JNum m \<and> scan_number t = Some (m, r)) \<or>
    (\<exists>vs t. v = JArr vs \<and> parse_elems n t = Some (vs, r)) \<or>
    (\<exists>ms t. v = JObj ms \<and> parse_members n t = Some (ms, r))"
proof -
  obtain c u where s: "skip_ws s = c # u" using assms by (cases "skip_ws s") auto
  consider "c = CHR 0x22" | "c = CHR 0x5B" | "c = CHR 0x7B" | "c \<notin> {CHR 0x22, CHR 0x5B, CHR 0x7B}" by auto
  then show ?thesis
  proof cases
    case 4
    then show ?thesis using assms
      by (auto simp: s simp del: strip_prefix.simps split: option.splits)
  qed (use assms in \<open>auto simp: s split: list.splits if_splits\<close>)
qed

theorem parse_wf:
  "(parse_value n s = Some (v, r) \<longrightarrow> wf_json v) \<and>
   (parse_elems n s = Some (vs, r) \<longrightarrow> (\<forall>v \<in> set vs. wf_json v)) \<and>
   (parse_members n s = Some (ms, r) \<longrightarrow> (\<forall>(k, v) \<in> set ms. raw_string k \<and> wf_json v))"
proof (induction n arbitrary: s v vs ms r)
  case (Suc n)
  have "wf_json v" if "parse_value (Suc n) s = Some (v, r)" for s v r
    using parse_value_cases [OF that] Suc.IH scan_string_raw scan_number_literal by fastforce
  moreover have "\<forall>v \<in> set vs. wf_json v" if e: "parse_elems (Suc n) s = Some (vs, r)" for s vs r
  proof -
    obtain w t where w: "parse_value n s = Some (w, t)"
      using e by (cases "parse_value n s") auto
    then have "wf_json w" using Suc.IH by blast
    moreover have "vs = [w] \<or> (\<exists>ws u. vs = w # ws \<and> parse_elems n u = Some (ws, r))"
      using e w by (auto split: list.splits if_splits)
    ultimately show ?thesis using Suc.IH by fastforce
  qed
  moreover have "\<forall>(k, v) \<in> set ms. raw_string k \<and> wf_json v" if m: "parse_members (Suc n) s = Some (ms, r)" for s ms r
  proof -
    have "\<exists>k w t u z y. scan_string t = Some (k, u) \<and> parse_value n z = Some (w, y) \<and>
        (ms = [(k, w)] \<or> (\<exists>ws x. ms = (k, w) # ws \<and> parse_members n x = Some (ws, r)))"
      using m by (auto split: list.splits if_splits option.splits) blast+
    then obtain k w t u z y where w: "scan_string t = Some (k, u)" "parse_value n z = Some (w, y)"
        "ms = [(k, w)] \<or> (\<exists>ws x. ms = (k, w) # ws \<and> parse_members n x = Some (ws, r))" by blast
    then have "raw_string k" "wf_json w" using Suc.IH scan_string_raw by blast+
    then show ?thesis using w(3) Suc.IH by fastforce
  qed
  ultimately show ?case by blast
qed simp

lemma parse_json_wf: "parse_json s = Some v \<Longrightarrow> wf_json v"
  by (auto simp: parse_json_def simp del: parse_value.simps split: option.splits if_splits dest: parse_wf [THEN conjunct1, rule_format])

text \<open>Every string read from a literal is valid UTF-8.\<close>

lemma valid_utf8_piece: "utf8_head p = length p \<Longrightarrow> p \<noteq> [] \<Longrightarrow> valid_utf8 (p @ s) = valid_utf8 s"
proof -
  assume a: "utf8_head p = length p" "p \<noteq> []"
  then obtain c r where p: "p = c # r" by (cases p) auto
  have "utf8_head (p @ s) = length p" using utf8_head_take [of p "length p" s] a by simp
  then show ?thesis by (simp add: p)
qed

lemma byte_of: "k < 256 \<Longrightarrow> byte_in (char_of k) lo hi \<longleftrightarrow> lo \<le> k \<and> k \<le> hi"
  by (simp add: byte_in_def)

lemma of_byte: "k < 256 \<Longrightarrow> (of_char (char_of k :: char) :: nat) = k"
  by simp

lemma utf8_head2:
  fixes a b :: nat
  assumes "a < 32" "2 \<le> a" "b < 64"
  shows "utf8_head [char_of (192 + a), char_of (128 + b)] = 2"
  using assms by (simp add: byte_of)

lemma utf8_head3:
  fixes a b c :: nat
  assumes "a < 16" "b < 64" "c < 64" "a = 0 \<Longrightarrow> 32 \<le> b" "a = 13 \<Longrightarrow> b < 32"
  shows "utf8_head [char_of (224 + a), char_of (128 + b), char_of (128 + c)] = 3"
proof -
  have "(of_char (char_of (224 + a) :: char) :: nat) = 224 + a" by (rule of_byte) (use assms in simp)
  then show ?thesis using assms by (simp add: byte_of del: of_char_of) presburger
qed

lemma utf8_head4:
  fixes a b c d :: nat
  assumes "a < 5" "b < 64" "c < 64" "d < 64" "a = 0 \<Longrightarrow> 16 \<le> b" "a = 4 \<Longrightarrow> b < 16"
  shows "utf8_head [char_of (240 + a), char_of (128 + b), char_of (128 + c), char_of (128 + d)] = 4"
proof -
  have "(of_char (char_of (240 + a) :: char) :: nat) = 240 + a" by (rule of_byte) (use assms in simp)
  then show ?thesis using assms by (simp add: byte_of del: of_char_of) presburger
qed

lemma utf8_encode_head:
  assumes "n < 1114112" "\<not> (55296 \<le> n \<and> n < 57344)"
  shows "utf8_head (utf8_encode n) = length (utf8_encode n) \<and> utf8_encode n \<noteq> []"
proof -
  consider "n < 128" | "128 \<le> n" "n < 2048" | "2048 \<le> n" "n < 65536" | "65536 \<le> n" by linarith
  then show ?thesis
  proof cases
    case 1
    then show ?thesis by (simp add: utf8_encode_def byte_of)
  next
    case 2
    then have "n div 64 < 32" "2 \<le> n div 64" by auto
    from utf8_head2 [OF this, of "n mod 64"] 2 show ?thesis by (simp add: utf8_encode_def del: utf8_head.simps)
  next
    case 3
    have q: "n div 64 = n div 4096 * 64 + n div 64 mod 64"
      using div_mult_mod_eq [of "n div 64" 64] by (simp add: div_mult2_eq [symmetric])
    have "n div 4096 < 16" using 3 by auto
    moreover have "32 \<le> n div 64 mod 64" if "n div 4096 = 0" using q 3 that by linarith
    moreover have "n div 64 mod 64 < 32" if "n div 4096 = 13"
    proof -
      have "n < 57344" using that by linarith
      then have "n div 64 < 864" using assms(2) by linarith
      then show ?thesis using q that by linarith
    qed
    ultimately show ?thesis using utf8_head3 [of "n div 4096" "n div 64 mod 64" "n mod 64"] 3
      by (simp add: utf8_encode_def del: utf8_head.simps)
  next
    case 4
    have q: "n div 4096 = n div 262144 * 64 + n div 4096 mod 64"
      using div_mult_mod_eq [of "n div 4096" 64] by (simp add: div_mult2_eq [symmetric])
    have "n div 262144 < 5" using assms(1) by auto
    moreover have "16 \<le> n div 4096 mod 64" if "n div 262144 = 0" using q 4 that by linarith
    moreover have "n div 4096 mod 64 < 16" if "n div 262144 = 4" using q assms(1) that by linarith
    ultimately show ?thesis
      using utf8_head4 [of "n div 262144" "n div 4096 mod 64" "n div 64 mod 64" "n mod 64"] 4
      by (simp add: utf8_encode_def del: utf8_head.simps)
  qed
qed

lemma valid_utf8_encode: "n < 1114112 \<Longrightarrow> \<not> (55296 \<le> n \<and> n < 57344) \<Longrightarrow>
    valid_utf8 (utf8_encode n @ s) = valid_utf8 s"
  using utf8_encode_head valid_utf8_piece by blast

lemma hex4_value_less: "hex4_value s < 16 ^ length s"
proof -
  have digit: "(case hex_value h of None \<Rightarrow> 0 | Some v \<Rightarrow> v) \<le> 15" for h
    by (auto simp: hex_value_def Let_def)
  have "foldl (\<lambda>n h. 16 * n + (case hex_value h of None \<Rightarrow> 0 | Some v \<Rightarrow> v)) a s < (a + 1) * 16 ^ length s" for a
  proof (induction s arbitrary: a)
    case (Cons h s)
    let ?b = "16 * a + (case hex_value h of None \<Rightarrow> 0 | Some v \<Rightarrow> v)"
    have "?b + 1 \<le> 16 * (a + 1)" using digit [of h] by simp
    then have "(?b + 1) * 16 ^ length s \<le> 16 * (a + 1) * 16 ^ length s" by (rule mult_le_mono1)
    then have "(?b + 1) * 16 ^ length s \<le> (a + 1) * 16 ^ length (h # s)" by (simp add: algebra_simps)
    with Cons [of ?b] have "foldl (\<lambda>n h. 16 * n + (case hex_value h of None \<Rightarrow> 0 | Some v \<Rightarrow> v)) ?b s
        < (a + 1) * 16 ^ length (h # s)" by (rule less_le_trans)
    then show ?case by simp
  qed simp
  from this [of 0] show ?thesis by simp
qed

lemma hex4_value_4: "hex4_value (take 4 s) < 65536"
  using hex4_value_less [of "take 4 s"] power_increasing [of "length (take 4 s)" 4 "16 :: nat"]
  by (simp del: hex4_value.simps)

lemma valid_short_escape: "short_escape e = Some x \<Longrightarrow> valid_utf8 (x # s) = valid_utf8 s"
proof -
  assume "short_escape e = Some x"
  then have "of_char x < (128 :: nat)" by (auto simp: short_escape_def simp del: utf8_head.simps split: if_splits)
  then show ?thesis using valid_utf8_piece [of "[x]" s] utf8_head_ascii [of x "[]"] by simp
qed

lemma valid_replacement: "valid_utf8 (replacement @ s) = valid_utf8 s"
  by (simp add: replacement_def valid_utf8_encode)

lemma utf8_head_own: "utf8_head s = n \<Longrightarrow> n \<noteq> 0 \<Longrightarrow> utf8_head (take n s) = length (take n s)"
  using utf8_head_take [of s n "[]"] utf8_head_le [of s] by (simp add: min_def)

theorem valid_unquote: "valid_utf8 (unquote s)"
proof (induction s rule: length_induct)
  case (1 s)
  have IH: "valid_utf8 (unquote t)" if "length t < length s" for t using 1 that by blast
  show ?case
  proof (cases s)
    case s: (Cons c r)
    consider (esc) "c = CHR 0x5C" | (multi) "c \<noteq> CHR 0x5C" "utf8_head (c # r) \<noteq> 0"
      | (bad) "c \<noteq> CHR 0x5C" "utf8_head (c # r) = 0" by blast
    then show ?thesis
    proof cases
      case bad
      then show ?thesis using IH [of r] by (simp add: s valid_replacement del: utf8_head.simps)
    next
      case multi
      let ?n = "utf8_head (c # r)"
      have "unquote s = take ?n (c # r) @ unquote (drop ?n (c # r))"
        using multi by (simp add: s Let_def del: utf8_head.simps)
      moreover have "valid_utf8 (unquote (drop ?n (c # r)))"
        using multi by (intro IH) (simp add: s del: utf8_head.simps)
      moreover have "take ?n (c # r) \<noteq> []" using multi by simp
      ultimately show ?thesis using valid_utf8_piece utf8_head_own [OF refl multi(2)] by metis
    next
      case esc
      show ?thesis
      proof (cases r)
        case r: (Cons e r')
        show ?thesis
        proof (cases "e = CHR ''u''")
          case False
          then show ?thesis using IH [of r'] valid_short_escape
            by (auto simp: s esc r split: option.splits)
        next
          case u: True
          let ?u = "hex4_value (take 4 r')" and ?rest = "drop 4 r'"
          let ?v = "hex4_value (take 4 (drop 2 ?rest))"
          have lt: "?u < 65536" "?v < 65536" by (rule hex4_value_4)+
          have rec: "valid_utf8 (unquote ?rest)" "valid_utf8 (unquote (drop 6 ?rest))"
            by (rule IH, simp add: s r)+
          have "unquote s =
            (if 55296 \<le> ?u \<and> ?u < 57344 then
               (if ?u < 56320 \<and> take 2 ?rest = [CHR 0x5C, CHR ''u''] \<and> 56320 \<le> ?v \<and> ?v < 57344
                then utf8_encode (65536 + (?u - 55296) * 1024 + (?v - 56320)) @ unquote (drop 6 ?rest)
                else replacement @ unquote ?rest)
             else utf8_encode ?u @ unquote ?rest)"
            by (simp add: s esc r u Let_def del: hex4_value.simps)
          moreover have "?u < 56320 \<Longrightarrow> ?v < 57344 \<Longrightarrow>
              65536 + (?u - 55296) * 1024 + (?v - 56320) < 1114112" by linarith
          ultimately show ?thesis using lt rec
            by (auto simp: valid_utf8_encode valid_replacement simp del: hex4_value.simps)
        qed
      qed (simp add: s esc)
    qed
  qed simp
qed

text \<open>From here on the parser and the escapes are used through the facts above.\<close>

declare unquote.simps(2) [simp del] escape_from.simps(2) [simp del] utf8_head.simps(2) [simp del]
  parse_value.simps(2) [simp del] scan_string.simps(2) [simp del] valid_utf8.simps(2) [simp del]

end
