(* ===== verification/Json_Fields.thy ===== *)
theory Json_Fields
  imports Json_Roundtrip
begin

text \<open>
  What every message of the SDK shares: the body of a message as the members of one object, the
  members of a rendered struct, and how a rendered member reads back.
\<close>

text \<open>\<open>json.Unmarshal(body, &v)\<close>: the members of the body as the fields of a struct.\<close>

definition body_members :: "bytes \<Rightarrow> (bytes \<times> json) list option" where
  "body_members body = Option.bind (parse_json body) struct_members"

text \<open>An \<open>omitempty\<close> pointer: no member when it is nil.\<close>

definition opt_member :: "bytes \<Rightarrow> ('a \<Rightarrow> json) \<Rightarrow> 'a option \<Rightarrow> (bytes \<times> json) list" where
  "opt_member k f v = (case v of None \<Rightarrow> [] | Some a \<Rightarrow> [(k, f a)])"

definition str_member :: "bool \<Rightarrow> bytes \<Rightarrow> bytes \<Rightarrow> bytes \<times> json" where
  "str_member html k s = (k, json_string html s)"

definition obj_body :: "(bytes \<times> json) list \<Rightarrow> bytes" where
  "obj_body ms = print_json (JObj ms)"

lemma body_members_obj: "wf_json (JObj ms) \<Longrightarrow> body_members (obj_body ms) = Some (map (\<lambda>(k, v). (unquote k, v)) ms)"
  using parse_print [of "JObj ms"] by (simp add: body_members_def obj_body_def struct_members_def)

lemma field_values_append: "field_values fs f (xs @ ys) = field_values fs f xs @ field_values fs f ys"
  by (simp add: field_values_def)

lemma field_values_Cons: "field_values fs f ((k, v) # ms) =
    (if field_for fs k = Some f then v # field_values fs f ms else field_values fs f ms)"
  by (simp add: field_values_def)

lemma field_values_Nil: "field_values fs f [] = []"
  by (simp add: field_values_def)

lemmas field_values_simps = field_values_append field_values_Cons field_values_Nil

lemma wf_string_member [simp]: "wf_json (json_string html s)" "wf_json (JNum (show_nat n))"
  by (simp_all add: json_string_def raw_string_escape number_literal_show_nat)

lemma dec_string_json [simp]: "valid_utf8 s \<Longrightarrow> dec_string cur (json_string html s # vs) = dec_string s vs"
  by (simp add: json_string_def unquote_escape)

lemma dec_string_ptr_json [simp]: "valid_utf8 s \<Longrightarrow> dec_string_ptr cur (json_string html s # vs) = dec_string_ptr (Some s) vs"
  by (simp add: json_string_def unquote_escape)

lemma dec_uint_show [simp]: "n < 2 ^ w \<Longrightarrow> dec_uint w cur (JNum (show_nat n) # vs) = dec_uint w n vs"
  by (simp add: uint_literal_show_nat)

abbreviation unquote_keys :: "(bytes \<times> json) list \<Rightarrow> (bytes \<times> json) list" where
  "unquote_keys \<equiv> map (\<lambda>(k, v). (unquote k, v))"

lemma field_for_exact: "k \<in> set fs \<Longrightarrow> field_for fs k = Some k"
  by (simp add: field_for_def)

lemma field_for_lower:
  assumes "\<forall>n \<in> set fs. to_lower n = n"
  shows "field_for fs k = Some f \<longleftrightarrow> f \<in> set fs \<and> to_lower k = f"
proof (cases "k \<in> set fs")
  case True
  then show ?thesis using assms by (auto simp: field_for_def)
next
  case False
  have "find (\<lambda>n. equal_fold n k) fs = Some f \<longleftrightarrow> f \<in> set fs \<and> to_lower k = f"
    using assms by (induction fs) (auto simp: equal_fold_def)
  with False show ?thesis by (simp add: field_for_def)
qed

lemma print_json_inject: "wf_json v \<Longrightarrow> wf_json w \<Longrightarrow> print_json v = print_json w \<Longrightarrow> v = w"
  by (metis option.inject parse_print)

lemma json_string_inject: "valid_utf8 s \<Longrightarrow> valid_utf8 t \<Longrightarrow> json_string h s = json_string h t \<Longrightarrow> s = t"
  unfolding json_string_def json.inject by (metis unquote_escape)

lemma dec_string_valid: "dec_string cur vs = Some s \<Longrightarrow> valid_utf8 cur \<Longrightarrow> valid_utf8 s"
  by (induction cur vs rule: dec_string.induct) (auto simp: valid_unquote)

lemma dec_uint_less: "dec_uint w cur vs = Some n \<Longrightarrow> cur < 2 ^ w \<Longrightarrow> n < 2 ^ w"
  by (induction w cur vs rule: dec_uint.induct) (auto dest: uint_literal_less split: option.splits)

lemma body_members_wf:
  assumes "body_members body = Some ms" "(k, v) \<in> set ms"
  shows "wf_json v"
proof -
  obtain j where j: "parse_json body = Some j" "struct_members j = Some ms"
    using assms(1) by (auto simp: body_members_def bind_eq_Some_conv)
  have "wf_json j" using j(1) by (rule parse_json_wf)
  with j(2) assms(2) show ?thesis by (cases j) (auto simp: struct_members_def)
qed

section \<open>More of \<open>encoding/json\<close>\<close>

text \<open>\<open>json.NewDecoder(r).Decode(&v)\<close>: the first value of the stream; what follows it is not read.\<close>

definition decode_first :: "bytes \<Rightarrow> json option" where
  "decode_first s = map_option fst (parse_value (2 * length s + 2) s)"

definition stream_members :: "bytes \<Rightarrow> (bytes \<times> json) list option" where
  "stream_members body = Option.bind (decode_first body) struct_members"

text \<open>An \<open>omitempty\<close> string: no member when it is empty.\<close>

definition omit_string :: "bytes \<Rightarrow> bytes \<Rightarrow> (bytes \<times> json) list" where
  "omit_string k s = (if s = [] then [] else [str_member True k s])"

fun dec_bool :: "bool \<Rightarrow> json list \<Rightarrow> bool option" where
  "dec_bool cur [] = Some cur"
| "dec_bool cur (JNull # vs) = dec_bool cur vs"
| "dec_bool cur (JBool b # vs) = dec_bool b vs"
| "dec_bool cur (v # vs) = None"

text \<open>
  A struct field: each value updates the same struct, so its members are those of all the values, in
  order.
\<close>

fun dec_members :: "json list \<Rightarrow> (bytes \<times> json) list option" where
  "dec_members [] = Some []"
| "dec_members (v # vs) =
     (case struct_members v of None \<Rightarrow> None | Some ms \<Rightarrow> map_option ((@) ms) (dec_members vs))"

text \<open>A field of a type with \<open>UnmarshalText\<close>: \<open>null\<close> leaves it as it is, or sets a pointer to nil.\<close>

fun dec_text :: "(bytes \<Rightarrow> bytes option) \<Rightarrow> bytes \<Rightarrow> json list \<Rightarrow> bytes option" where
  "dec_text p cur [] = Some cur"
| "dec_text p cur (JNull # vs) = dec_text p cur vs"
| "dec_text p cur (JStr s # vs) = (case p (unquote s) of None \<Rightarrow> None | Some x \<Rightarrow> dec_text p x vs)"
| "dec_text p cur (v # vs) = None"

fun dec_text_ptr :: "(bytes \<Rightarrow> bytes option) \<Rightarrow> bytes option \<Rightarrow> json list \<Rightarrow> bytes option option" where
  "dec_text_ptr p cur [] = Some cur"
| "dec_text_ptr p cur (JNull # vs) = dec_text_ptr p None vs"
| "dec_text_ptr p cur (JStr s # vs) = (case p (unquote s) of None \<Rightarrow> None | Some x \<Rightarrow> dec_text_ptr p (Some x) vs)"
| "dec_text_ptr p cur (v # vs) = None"

text \<open>A slice field: nil for \<open>null\<close>, else one element per value.\<close>

fun dec_all :: "(json \<Rightarrow> 'a option) \<Rightarrow> json list \<Rightarrow> 'a list option" where
  "dec_all f [] = Some []"
| "dec_all f (v # vs) = (case f v of None \<Rightarrow> None | Some x \<Rightarrow> map_option ((#) x) (dec_all f vs))"

fun dec_slice :: "(json \<Rightarrow> 'a option) \<Rightarrow> 'a list option \<Rightarrow> json list \<Rightarrow> 'a list option option" where
  "dec_slice f cur [] = Some cur"
| "dec_slice f cur (JNull # vs) = dec_slice f None vs"
| "dec_slice f cur (JArr es # vs) = (case dec_all f es of None \<Rightarrow> None | Some xs \<Rightarrow> dec_slice f (Some xs) vs)"
| "dec_slice f cur (v # vs) = None"

text \<open>An \<open>int64\<close> field.\<close>

fun dec_int64 :: "int \<Rightarrow> json list \<Rightarrow> int option" where
  "dec_int64 cur [] = Some cur"
| "dec_int64 cur (JNull # vs) = dec_int64 cur vs"
| "dec_int64 cur (JNum n # vs) = (case parse_int64 n of None \<Rightarrow> None | Some v \<Rightarrow> dec_int64 v vs)"
| "dec_int64 cur (v # vs) = None"

end
