(* ===== verification/Json_Html.thy ===== *)
theory Json_Html
  imports Json_Fields "HOL-Library.Char_ord" "HOL-Library.List_Lexorder"
begin

text \<open>
  Two more things \<open>json.Marshal\<close> does: it escapes the HTML characters inside a \<open>json.RawMessage\<close>, and it writes the
  members of a map in the order of their keys.
\<close>

text \<open>
  \<open>Marshal\<close> of a \<open>json.RawMessage\<close>: compacted, with the HTML characters and U+2028, U+2029
  inside its literals escaped.
\<close>

fun html_raw :: "bytes \<Rightarrow> bytes" where
  "html_raw [] = []"
| "html_raw (c # r) =
     (if c \<in> set ''<>&'' then CHR 0x5C # CHR ''u'' # hex4 (of_char c) @ html_raw r
      else (case r of
          x # y # r' \<Rightarrow>
            if c = CHR 0xE2 \<and> x = CHR 0x80 \<and> y = CHR 0xA8 then CHR 0x5C # ''u2028'' @ html_raw r'
            else if c = CHR 0xE2 \<and> x = CHR 0x80 \<and> y = CHR 0xA9 then CHR 0x5C # ''u2029'' @ html_raw r'
            else c # html_raw r
        | _ \<Rightarrow> c # html_raw r))"

fun html_json :: "json \<Rightarrow> json" where
  "html_json (JStr s) = JStr (html_raw s)"
| "html_json (JArr vs) = JArr (map html_json vs)"
| "html_json (JObj ms) = JObj (map (\<lambda>(k, v). (html_raw k, html_json v)) ms)"
| "html_json v = v"

text \<open>A \<open>map[string]json.RawMessage\<close>, as the list of its entries.\<close>

definition marshal_raw_map :: "(bytes \<times> json) list \<Rightarrow> bytes" where
  "marshal_raw_map ms = obj_body (map (\<lambda>(k, v). (escape_from True k, html_json v)) (sort_key fst ms))"

text \<open>\<open>json.Unmarshal\<close> into a nil map: \<open>None\<close> is a failure, \<open>Some None\<close> the nil map a \<open>null\<close> leaves; a repeated name keeps its last value.\<close>

definition raw_map_of :: "json \<Rightarrow> (bytes \<times> json) list option option" where
  "raw_map_of j =
     (case j of
        JObj ms \<Rightarrow> Some (Some (fold (\<lambda>(k, v). AList.update k v) (unquote_keys ms) []))
      | JNull \<Rightarrow> Some None
      | _ \<Rightarrow> None)"

lemma raw_map_lookup:
  "raw_map_of (JObj ms) = Some (Some m) \<Longrightarrow> map_of m k = map_of (rev (unquote_keys ms)) k"
proof -
  have "map_of (fold (\<lambda>(k, v). AList.update k v) xs m0) k = (map_of m0 ++ map_of (rev xs)) k" for xs :: "(bytes \<times> json) list" and m0
    by (induction xs arbitrary: m0) (auto simp: update_conv' map_add_def split: option.split)
  then show "raw_map_of (JObj ms) = Some (Some m) \<Longrightarrow> map_of m k = map_of (rev (unquote_keys ms)) k"
    by (auto simp: raw_map_of_def)
qed

lemma raw_map_distinct:
  assumes "raw_map_of j = Some (Some m)"
  shows "distinct (map fst m)"
proof -
  have "distinct (map fst m0) \<Longrightarrow> distinct (map fst (fold (\<lambda>(k, v). AList.update k v) xs m0))" for xs :: "(bytes \<times> json) list" and m0
    by (induction xs arbitrary: m0) (auto simp: distinct_update)
  then show ?thesis using assms by (auto simp: raw_map_of_def split: json.splits)
qed

section \<open>Escaping keeps a literal a literal\<close>

lemma html_raw_ascii:
  assumes "c \<notin> set ''<>&''" "of_char c < (128 :: nat)"
  shows "html_raw (c # r) = c # html_raw r"
proof -
  have "c \<noteq> CHR 0xE2" using assms(2) by auto
  with assms(1) show ?thesis by (cases r; cases "tl r") auto
qed

lemma html_raw_step:
  assumes "x \<notin> set ''<>&''"
    and "\<not> (x = CHR 0xE2 \<and> (\<exists>z r. s = CHR 0x80 # z # r \<and> (z = CHR 0xA8 \<or> z = CHR 0xA9)))"
  shows "html_raw (x # s) = x # html_raw s"
proof -
  have "html_raw (x # s) = (case s of
          u # y # r' \<Rightarrow>
            if x = CHR 0xE2 \<and> u = CHR 0x80 \<and> y = CHR 0xA8 then CHR 0x5C # ''u2028'' @ html_raw r'
            else if x = CHR 0xE2 \<and> u = CHR 0x80 \<and> y = CHR 0xA9 then CHR 0x5C # ''u2029'' @ html_raw r'
            else x # html_raw s
        | _ \<Rightarrow> x # html_raw s)"
    using assms(1) by (simp only: html_raw.simps if_False)
  with assms(2) show ?thesis by (auto simp del: html_raw.simps split: list.splits)
qed

lemma html_raw_literal: "raw_string s \<Longrightarrow> raw_string (html_raw s)"
proof -
  have "scan_string t = Some (a, r) \<Longrightarrow> raw_string (html_raw a)" for t a r
  proof (induction t arbitrary: a r rule: length_induct)
    case (1 t)
    then obtain c t1 where t: "t = c # t1" by (cases t) auto
    show ?case
    proof (cases "c = CHR 0x22")
      case True
      then show ?thesis using 1(2) by (auto simp: t raw_string_def scan_string.simps(2))
    next
      case False
      then obtain p a' s' where p: "c # t1 = p @ s'" "a = p @ a'" "p \<noteq> []" "literal_piece p"
          "scan_string s' = Some (a', r)" "c = CHR 0x5C \<or> p = [c]"
          "\<forall>x \<in> set p. p = [x] \<or> x \<notin> set ''<>&''"
          "\<forall>x \<in> set p. p = [x] \<or> of_char x < (128 :: nat)"
        using 1(2) unfolding t by (elim scan_string_step)
      have len: "length s' < length t" unfolding t p(1) using p(3) by simp
      have IH: "raw_string (html_raw a')" using 1(1) len p(5) by blast
      show ?thesis
      proof (cases "\<exists>x. p = [x]")
        case False
        have "html_raw (p @ a') = p @ html_raw a'" if "\<forall>x \<in> set p. x \<notin> set ''<>&'' \<and> of_char x < (128 :: nat)" for p
          using that by (induction p) (simp_all add: html_raw_ascii del: html_raw.simps)
        then have "html_raw a = p @ html_raw a'" using False p(2,7,8) by auto
        then show ?thesis using IH p(4) raw_string_append by simp
      next
        case True
        then obtain x where x: "p = [x]" by blast
        consider (html) "x \<in> set ''<>&''"
          | (sep) y z a'' where "x = CHR 0xE2" "a' = y # z # a''" "y = CHR 0x80" "z = CHR 0xA8 \<or> z = CHR 0xA9"
          | (other) "html_raw (x # a') = x # html_raw a'"
          using html_raw_step [of x a'] by blast
        then show ?thesis
        proof cases
          case html
          then show ?thesis using IH raw_string_append [OF literal_pieces(11) IH] by (auto simp: p(2) x)
        next
          case other
          then show ?thesis using raw_string_append [OF p(4) IH] by (simp add: p(2) x)
        next
          case sep
          have "scan_string s' = Some (y # z # a'', r)" using p(5) sep by simp
          then obtain u where u: "s' = y # z # u" "scan_string u = Some (a'', r)"
            using sep(3,4) by (cases s'; cases "tl s'") (auto simp: scan_string.simps(2) split: if_splits list.splits option.splits)
          have "length u < length t" using len u by simp
          then have "raw_string (html_raw a'')" using 1(1) u by blast
          from raw_string_append [OF literal_pieces(9) this] raw_string_append [OF literal_pieces(10) this]
          show ?thesis using sep(4) by (elim disjE) (simp_all add: p(2) x sep(1-3))
        qed
      qed
    qed
  qed
  moreover assume "raw_string s"
  then have "scan_string (s @ CHR 0x22 # []) = Some (s, [])" by (simp add: raw_string_def)
  ultimately show ?thesis by blast
qed

lemma html_json_wf: "wf_json v \<Longrightarrow> wf_json (html_json v)"
  by (induction v) (auto simp: html_raw_literal)

end
