(* ===== verification/Amqp_Hmac.thy ===== *)
theory Amqp_Hmac
  imports Json_Html Replay
begin

text \<open>
  \<open>amqp/hmac.go\<close>: the canonical layouts an AMQP body is rebuilt into and the check of its
  signature. HMAC-SHA256 is a function argument \<open>hmac key message\<close>.
\<close>

section \<open>Layouts\<close>

record authzRequestCanonical =
  aq_CorrelationID :: bytes
  aq_TenantID :: bytes
  aq_SubjectID :: bytes
  aq_Action :: bytes
  aq_ResourceID :: bytes
  aq_Scope :: "bytes option"
  aq_KeyVersion :: nat
  aq_Nonce :: bytes
  aq_IssuedAt :: bytes

record auditEventCanonical =
  au_TenantID :: bytes
  au_ActorID :: bytes
  au_ActorType :: bytes
  au_Action :: bytes
  au_ResourceID :: "bytes option"
  au_Outcome :: bytes
  au_IPAddress :: "bytes option"
  au_Metadata :: "json option"
  au_KeyVersion :: nat
  au_Nonce :: bytes
  au_IssuedAt :: bytes

definition authz_names :: "bytes list" where
  "authz_names = [''correlation_id'', ''tenant_id'', ''subject_id'', ''action'', ''resource_id'',
     ''scope'', ''key_version'', ''nonce'', ''issued_at'']"

definition audit_names :: "bytes list" where
  "audit_names = [''tenant_id'', ''actor_id'', ''actor_type'', ''action'', ''resource_id'',
     ''outcome'', ''ip_address'', ''metadata'', ''key_version'', ''nonce'', ''issued_at'']"

definition authz_of_members :: "(bytes \<times> json) list \<Rightarrow> authzRequestCanonical option" where
  "authz_of_members ms =
     (let f = (\<lambda>n. field_values authz_names n ms) in
      Option.bind (dec_string [] (f ''correlation_id'')) (\<lambda>corr.
      Option.bind (dec_string [] (f ''tenant_id'')) (\<lambda>tenant.
      Option.bind (dec_string [] (f ''subject_id'')) (\<lambda>subject.
      Option.bind (dec_string [] (f ''action'')) (\<lambda>action.
      Option.bind (dec_string [] (f ''resource_id'')) (\<lambda>resource.
      Option.bind (dec_string_ptr None (f ''scope'')) (\<lambda>scope.
      Option.bind (dec_uint 8 0 (f ''key_version'')) (\<lambda>kv.
      Option.bind (dec_string [] (f ''nonce'')) (\<lambda>nonce.
      Option.bind (dec_string [] (f ''issued_at'')) (\<lambda>issued.
      Some \<lparr>aq_CorrelationID = corr, aq_TenantID = tenant, aq_SubjectID = subject, aq_Action = action,
            aq_ResourceID = resource, aq_Scope = scope, aq_KeyVersion = kv, aq_Nonce = nonce,
            aq_IssuedAt = issued\<rparr>))))))))))"

definition audit_of_members :: "(bytes \<times> json) list \<Rightarrow> auditEventCanonical option" where
  "audit_of_members ms =
     (let f = (\<lambda>n. field_values audit_names n ms) in
      Option.bind (dec_string [] (f ''tenant_id'')) (\<lambda>tenant.
      Option.bind (dec_string [] (f ''actor_id'')) (\<lambda>actor.
      Option.bind (dec_string [] (f ''actor_type'')) (\<lambda>atype.
      Option.bind (dec_string [] (f ''action'')) (\<lambda>action.
      Option.bind (dec_string_ptr None (f ''resource_id'')) (\<lambda>resource.
      Option.bind (dec_string [] (f ''outcome'')) (\<lambda>outcome.
      Option.bind (dec_string_ptr None (f ''ip_address'')) (\<lambda>ip.
      Option.bind (dec_uint 8 0 (f ''key_version'')) (\<lambda>kv.
      Option.bind (dec_string [] (f ''nonce'')) (\<lambda>nonce.
      Option.bind (dec_string [] (f ''issued_at'')) (\<lambda>issued.
      Some \<lparr>au_TenantID = tenant, au_ActorID = actor, au_ActorType = atype, au_Action = action,
            au_ResourceID = resource, au_Outcome = outcome, au_IPAddress = ip,
            au_Metadata = dec_raw (f ''metadata''), au_KeyVersion = kv, au_Nonce = nonce,
            au_IssuedAt = issued\<rparr>)))))))))))"

section \<open>Rendering\<close>

definition authz_layout :: "bool \<Rightarrow> authzRequestCanonical \<Rightarrow> (bytes \<times> json) list" where
  "authz_layout html r =
     [str_member html ''correlation_id'' (aq_CorrelationID r), str_member html ''tenant_id'' (aq_TenantID r),
      str_member html ''subject_id'' (aq_SubjectID r), str_member html ''action'' (aq_Action r),
      str_member html ''resource_id'' (aq_ResourceID r)]
     @ opt_member ''scope'' (json_string html) (aq_Scope r)
     @ [(''key_version'', JNum (show_nat (aq_KeyVersion r))), str_member html ''nonce'' (aq_Nonce r),
        str_member html ''issued_at'' (aq_IssuedAt r)]"

text \<open>\<open>Marshal\<close>'s rendering, HTML escapes on.\<close>

abbreviation authz_members :: "authzRequestCanonical \<Rightarrow> (bytes \<times> json) list" where
  "authz_members \<equiv> authz_layout True"

definition audit_members :: "auditEventCanonical \<Rightarrow> (bytes \<times> json) list" where
  "audit_members r =
     [str_member True ''tenant_id'' (au_TenantID r), str_member True ''actor_id'' (au_ActorID r),
      str_member True ''actor_type'' (au_ActorType r), str_member True ''action'' (au_Action r)]
     @ opt_member ''resource_id'' (json_string True) (au_ResourceID r)
     @ [str_member True ''outcome'' (au_Outcome r)]
     @ opt_member ''ip_address'' (json_string True) (au_IPAddress r)
     @ opt_member ''metadata'' html_json (au_Metadata r)
     @ [(''key_version'', JNum (show_nat (au_KeyVersion r))), str_member True ''nonce'' (au_Nonce r),
        str_member True ''issued_at'' (au_IssuedAt r)]"

definition canonical_bytes :: "(bytes \<times> json) list \<Rightarrow> bytes" where
  "canonical_bytes ms = print_json (JObj ms)"

section \<open>Verification\<close>

definition authz_meta :: "authzRequestCanonical \<Rightarrow> replayMeta" where
  "authz_meta r = \<lparr>rm_KeyVersion = aq_KeyVersion r, rm_Nonce = aq_Nonce r, rm_IssuedAt = aq_IssuedAt r\<rparr>"

definition audit_meta :: "auditEventCanonical \<Rightarrow> replayMeta" where
  "audit_meta r = \<lparr>rm_KeyVersion = au_KeyVersion r, rm_Nonce = au_Nonce r, rm_IssuedAt = au_IssuedAt r\<rparr>"

definition canonicalCandidates :: "bytes \<Rightarrow> (bytes \<times> replayMeta) list" where
  "canonicalCandidates body =
     (case Option.bind (body_members body) authz_of_members of
        None \<Rightarrow> [] | Some r \<Rightarrow> [(canonical_bytes (authz_members r), authz_meta r)])
     @ (case Option.bind (body_members body) audit_of_members of
        None \<Rightarrow> [] | Some r \<Rightarrow> [(canonical_bytes (audit_members r), audit_meta r)])"

definition zero_meta :: replayMeta where
  "zero_meta = \<lparr>rm_KeyVersion = 0, rm_Nonce = [], rm_IssuedAt = []\<rparr>"

definition received_signature :: "bytes \<Rightarrow> bytes option" where
  "received_signature body =
     Option.bind (body_members body) (\<lambda>ms.
     Option.bind (dec_string_ptr None (field_values [''hmac_signature''] ''hmac_signature'' ms)) (\<lambda>sig. sig))"

definition verifyHMAC :: "(bytes \<Rightarrow> bytes \<Rightarrow> bytes) \<Rightarrow> bytes \<Rightarrow> bytes \<Rightarrow> bool \<times> replayMeta" where
  "verifyHMAC hmac signingKey body =
     (case received_signature body of
        None \<Rightarrow> (False, zero_meta)
      | Some sig \<Rightarrow>
        (case hex_decode sig of
           None \<Rightarrow> (False, zero_meta)
         | Some expected \<Rightarrow>
           (case find (\<lambda>(b, m). hmac signingKey b = expected) (canonicalCandidates body) of
              None \<Rightarrow> (False, zero_meta)
            | Some (b, m) \<Rightarrow> (True, m))))"

section \<open>Reading a rendered layout back\<close>

definition layout_names :: "bytes list" where
  "layout_names = authz_names @ audit_names @ [''hmac_signature'', ''ACTION'']"

lemma names_plain_all: "list_all (\<lambda>k. unquote k = k \<and> escape_from False k = k) layout_names"
  by code_simp

lemma name_unquote: "k \<in> set layout_names \<Longrightarrow> unquote k = k"
  using names_plain_all by (auto simp: list_all_iff)

lemma name_raw: "k \<in> set layout_names \<Longrightarrow> raw_string k"
  using names_plain_all raw_string_escape [of False k] by (auto simp: list_all_iff)

lemma known_names:
  "''correlation_id'' \<in> set layout_names" "''tenant_id'' \<in> set layout_names" "''subject_id'' \<in> set layout_names"
  "''action'' \<in> set layout_names" "''resource_id'' \<in> set layout_names" "''scope'' \<in> set layout_names"
  "''key_version'' \<in> set layout_names" "''nonce'' \<in> set layout_names" "''issued_at'' \<in> set layout_names"
  "''actor_id'' \<in> set layout_names" "''actor_type'' \<in> set layout_names" "''outcome'' \<in> set layout_names"
  "''ip_address'' \<in> set layout_names" "''metadata'' \<in> set layout_names"
  "''hmac_signature'' \<in> set layout_names" "''ACTION'' \<in> set layout_names"
  by (simp_all add: layout_names_def authz_names_def audit_names_def)

lemmas names_unquote [simp] = known_names [THEN name_unquote]
lemmas names_raw [simp] = known_names [THEN name_raw]

lemma signature_fields [simp]:
  "field_for authz_names ''hmac_signature'' = None" "field_for audit_names ''hmac_signature'' = None"
  "field_for authz_names ''ACTION'' = Some ''action''" "field_for audit_names ''ACTION'' = Some ''action''"
  by code_simp+

lemma authz_fields_exact [simp]:
  "field_for authz_names ''correlation_id'' = Some ''correlation_id''"
  "field_for authz_names ''tenant_id'' = Some ''tenant_id''" "field_for authz_names ''subject_id'' = Some ''subject_id''"
  "field_for authz_names ''action'' = Some ''action''" "field_for authz_names ''resource_id'' = Some ''resource_id''"
  "field_for authz_names ''scope'' = Some ''scope''" "field_for authz_names ''key_version'' = Some ''key_version''"
  "field_for authz_names ''nonce'' = Some ''nonce''" "field_for authz_names ''issued_at'' = Some ''issued_at''"
  by (rule field_for_exact, simp add: authz_names_def)+

lemma audit_fields_exact [simp]:
  "field_for audit_names ''tenant_id'' = Some ''tenant_id''" "field_for audit_names ''actor_id'' = Some ''actor_id''"
  "field_for audit_names ''actor_type'' = Some ''actor_type''" "field_for audit_names ''action'' = Some ''action''"
  "field_for audit_names ''resource_id'' = Some ''resource_id''" "field_for audit_names ''outcome'' = Some ''outcome''"
  "field_for audit_names ''ip_address'' = Some ''ip_address''" "field_for audit_names ''metadata'' = Some ''metadata''"
  "field_for audit_names ''key_version'' = Some ''key_version''"
  "field_for audit_names ''nonce'' = Some ''nonce''" "field_for audit_names ''issued_at'' = Some ''issued_at''"
  by (rule field_for_exact, simp add: audit_names_def)+

lemma signature_only:
  "\<forall>f \<in> set layout_names. f \<noteq> ''hmac_signature'' \<longrightarrow> field_for [''hmac_signature''] f = None"
  "field_for [''hmac_signature''] ''hmac_signature'' = Some ''hmac_signature''"
  by code_simp+

definition valid_authz :: "authzRequestCanonical \<Rightarrow> bool" where
  "valid_authz r \<longleftrightarrow> valid_utf8 (aq_CorrelationID r) \<and> valid_utf8 (aq_TenantID r) \<and> valid_utf8 (aq_SubjectID r)
     \<and> valid_utf8 (aq_Action r) \<and> valid_utf8 (aq_ResourceID r)
     \<and> (case aq_Scope r of None \<Rightarrow> True | Some s \<Rightarrow> valid_utf8 s)
     \<and> aq_KeyVersion r < 256 \<and> valid_utf8 (aq_Nonce r) \<and> valid_utf8 (aq_IssuedAt r)"

lemma authz_members_wf: "wf_json (JObj (authz_layout html r))"
  by (cases "aq_Scope r") (simp_all add: authz_layout_def str_member_def opt_member_def)

lemma authz_reads_back:
  assumes "valid_authz r"
  shows "authz_of_members (unquote_keys (authz_layout html r @ [(''hmac_signature'', JStr s)])) = Some r"
  using assms
  by (cases "aq_Scope r")
    (simp_all add: authz_of_members_def authz_layout_def str_member_def opt_member_def valid_authz_def
      field_values_simps Let_def del: unquote.simps)

section \<open>The canonical bytes determine the replay fields\<close>

lemma authz_nonce_valid:
  "authz_of_members ms = Some r \<Longrightarrow> valid_utf8 (aq_Nonce r) \<and> valid_utf8 (aq_IssuedAt r)"
  by (auto simp: authz_of_members_def Let_def bind_eq_Some_conv dest: dec_string_valid)

lemma audit_nonce_valid:
  "audit_of_members ms = Some r \<Longrightarrow> valid_utf8 (au_Nonce r) \<and> valid_utf8 (au_IssuedAt r)"
  by (auto simp: audit_of_members_def Let_def bind_eq_Some_conv dest: dec_string_valid)

lemma audit_metadata_wf:
  assumes "body_members body = Some ms" "audit_of_members ms = Some r" "au_Metadata r = Some m"
  shows "wf_json m"
proof -
  have "dec_raw (field_values audit_names ''metadata'' ms) = Some m"
    using assms(2,3) by (auto simp: audit_of_members_def Let_def bind_eq_Some_conv)
  then have "m \<in> set (field_values audit_names ''metadata'' ms)"
    by (auto simp: dec_raw_def split: if_splits)
  then show ?thesis using body_members_wf [OF assms(1)] by (auto simp: field_values_def)
qed

lemma audit_members_wf:
  assumes "\<And>m. au_Metadata r = Some m \<Longrightarrow> wf_json m"
  shows "wf_json (JObj (audit_members r))"
  using assms
  by (cases "au_ResourceID r"; cases "au_IPAddress r"; cases "au_Metadata r")
    (simp_all add: audit_members_def str_member_def opt_member_def html_json_wf)

lemma authz_members_lookup:
  "map_of (authz_members r) ''key_version'' = Some (JNum (show_nat (aq_KeyVersion r)))"
  "map_of (authz_members r) ''nonce'' = Some (json_string True (aq_Nonce r))"
  "map_of (authz_members r) ''issued_at'' = Some (json_string True (aq_IssuedAt r))"
  by (cases "aq_Scope r"; simp add: authz_layout_def str_member_def opt_member_def)+

lemma audit_members_lookup:
  "map_of (audit_members r) ''key_version'' = Some (JNum (show_nat (au_KeyVersion r)))"
  "map_of (audit_members r) ''nonce'' = Some (json_string True (au_Nonce r))"
  "map_of (audit_members r) ''issued_at'' = Some (json_string True (au_IssuedAt r))"
  by (cases "au_ResourceID r"; cases "au_IPAddress r"; cases "au_Metadata r";
      simp add: audit_members_def str_member_def opt_member_def)+

text \<open>What a candidate is: well-formed members whose replay fields are the candidate's.\<close>

definition members_of_meta :: "(bytes \<times> json) list \<Rightarrow> replayMeta \<Rightarrow> bool" where
  "members_of_meta ms m \<longleftrightarrow> wf_json (JObj ms) \<and> valid_utf8 (rm_Nonce m) \<and> valid_utf8 (rm_IssuedAt m) \<and>
     map_of ms ''key_version'' = Some (JNum (show_nat (rm_KeyVersion m))) \<and>
     map_of ms ''nonce'' = Some (json_string True (rm_Nonce m)) \<and>
     map_of ms ''issued_at'' = Some (json_string True (rm_IssuedAt m))"

lemma authz_candidate: "authz_of_members ms = Some r \<Longrightarrow> members_of_meta (authz_members r) (authz_meta r)"
  using authz_nonce_valid [of ms r] authz_members_wf [of True r]
  by (simp add: members_of_meta_def authz_meta_def authz_members_lookup del: wf_json.simps)

lemma audit_candidate: "body_members body = Some ms \<Longrightarrow> audit_of_members ms = Some r \<Longrightarrow>
    members_of_meta (audit_members r) (audit_meta r)"
  using audit_nonce_valid [of ms r] audit_members_wf [of r] audit_metadata_wf [of body ms r]
  by (simp add: members_of_meta_def audit_meta_def audit_members_lookup del: wf_json.simps)

lemma candidate_members:
  assumes "(c, m) \<in> set (canonicalCandidates body)"
  shows "\<exists>ms. c = canonical_bytes ms \<and> members_of_meta ms m"
proof -
  obtain ms where ms: "body_members body = Some ms"
    using assms by (cases "body_members body") (auto simp: canonicalCandidates_def)
  have split: "canonicalCandidates body =
      (case authz_of_members ms of None \<Rightarrow> [] | Some r \<Rightarrow> [(canonical_bytes (authz_members r), authz_meta r)])
    @ (case audit_of_members ms of None \<Rightarrow> [] | Some r \<Rightarrow> [(canonical_bytes (audit_members r), audit_meta r)])"
    by (simp add: canonicalCandidates_def ms)
  from assms consider r where "authz_of_members ms = Some r" "c = canonical_bytes (authz_members r)" "m = authz_meta r"
    | r where "audit_of_members ms = Some r" "c = canonical_bytes (audit_members r)" "m = audit_meta r"
    unfolding split by (cases "authz_of_members ms"; cases "audit_of_members ms") auto
  then show ?thesis
  proof cases
    case 1
    then show ?thesis using authz_candidate by blast
  next
    case 2
    then show ?thesis using audit_candidate [OF ms] by blast
  qed
qed

lemma members_of_meta_unique:
  assumes "members_of_meta ms m" "members_of_meta ms m'"
  shows "m = m'"
proof -
  have "rm_KeyVersion m = rm_KeyVersion m'" "rm_Nonce m = rm_Nonce m'" "rm_IssuedAt m = rm_IssuedAt m'"
    using assms json_string_inject by (auto simp: members_of_meta_def)
  then show ?thesis by simp
qed

text \<open>
  (C19) The bytes the MAC is computed over determine the replay fields: two bodies that rebuild to the
  same canonical bytes, in either layout, carry the same key version, nonce and issue time, so a
  captured signature cannot be moved to a body with another nonce or a fresher issue time.
\<close>

theorem canonical_binds_replay_fields:
  assumes "(c, m) \<in> set (canonicalCandidates body)" "(c, m') \<in> set (canonicalCandidates body')"
  shows "m = m'"
proof -
  obtain ms ms' where ms: "c = canonical_bytes ms" "members_of_meta ms m"
      "c = canonical_bytes ms'" "members_of_meta ms' m'"
    using candidate_members assms by metis
  then have "JObj ms = JObj ms'"
    unfolding canonical_bytes_def members_of_meta_def by (intro print_json_inject) auto
  then show ?thesis using ms(2,4) members_of_meta_unique by blast
qed

theorem canonical_binds_replay_fields_witness:
  "\<exists>c m. (c, m) \<in> set (canonicalCandidates ''{\"nonce\":\"n\"}'') \<and>
     (\<forall>m'. (c, m') \<in> set (canonicalCandidates ''{\"nonce\" : \"n\" , \"x\":1}'') \<longrightarrow> m = m')"
proof -
  obtain c m where "(c, m) \<in> set (canonicalCandidates ''{\"nonce\":\"n\"}'')"
    by (rule that [of "fst (hd (canonicalCandidates ''{\"nonce\":\"n\"}''))" "snd (hd (canonicalCandidates ''{\"nonce\":\"n\"}''))"])
      code_simp
  then show ?thesis using canonical_binds_replay_fields by blast
qed

section \<open>Signed messages are accepted\<close>

definition signed_body :: "(bytes \<times> json) list \<Rightarrow> bytes \<Rightarrow> bytes" where
  "signed_body ms mac = obj_body (ms @ [(''hmac_signature'', JStr (hex_encode mac))])"

lemma escape_plain:
  assumes "32 \<le> (of_char c :: nat)" "of_char c < (128 :: nat)" "c \<notin> {CHR 0x22, CHR 0x5C}" "c \<notin> set ''<>&''"
  shows "escape_from html (c # s) = c # escape_from html s"
proof -
  have "c \<noteq> CHR 0x08" "c \<noteq> CHR 0x0C" "c \<noteq> CHR 0x0A" "c \<noteq> CHR 0x0D" "c \<noteq> CHR 0x09" using assms(1) by auto
  then show ?thesis using assms by (simp add: escape_from.simps)
qed

lemma hex_digits_plain: "list_all (\<lambda>n. (32 :: nat) \<le> of_char (hex_digit n) \<and> of_char (hex_digit n) < (128 :: nat) \<and>
    hex_digit n \<notin> set (CHR 0x22 # CHR 0x5C # ''<>&'')) [0..<16]"
  by code_simp

lemma hex_digit_plain:
  assumes "n < 16"
  shows "escape_from html (hex_digit n # s) = hex_digit n # escape_from html s"
    and "valid_utf8 (hex_digit n # s) = valid_utf8 s"
proof -
  have d: "(32 :: nat) \<le> of_char (hex_digit n)" "of_char (hex_digit n) < (128 :: nat)"
      "hex_digit n \<notin> set (CHR 0x22 # CHR 0x5C # ''<>&'')"
    using hex_digits_plain assms unfolding list_all_iff by auto
  from d show "escape_from html (hex_digit n # s) = hex_digit n # escape_from html s"
    by (intro escape_plain) auto
  show "valid_utf8 (hex_digit n # s) = valid_utf8 s" using utf8_head_ascii [OF d(2), of s] by (simp add: valid_utf8.simps)
qed

lemma hex_encode_plain: "escape_from html (hex_encode x) = hex_encode x \<and> valid_utf8 (hex_encode x)"
proof (induction x)
  case (Cons c x)
  have "(of_char c :: nat) < 256" by (rule nat_of_char_less_256)
  then have "of_char c div 16 < (16 :: nat)" "of_char c mod 16 < (16 :: nat)" by linarith+
  with Cons show ?case by (simp add: hex_digit_plain del: escape_from.simps valid_utf8.simps)
qed simp

lemma hex_literal [simp]: "raw_string (hex_encode x)" "unquote (hex_encode x) = hex_encode x"
  using raw_string_escape [of True "hex_encode x"] unquote_escape [of "hex_encode x" True] hex_encode_plain [of True x]
  by simp_all

lemma received_signature_signed:
  assumes "wf_json (JObj ms)" "\<forall>k \<in> fst ` set ms. k \<in> set layout_names \<and> k \<noteq> ''hmac_signature''"
  shows "received_signature (signed_body ms mac) = Some (hex_encode mac)"
    and "body_members (signed_body ms mac) = Some (unquote_keys (ms @ [(''hmac_signature'', JStr (hex_encode mac))]))"
proof -
  let ?sig = "(''hmac_signature'', JStr (hex_encode mac))"
  have wf: "wf_json (JObj (ms @ [?sig]))" using assms(1) by auto
  then show b: "body_members (signed_body ms mac) = Some (unquote_keys (ms @ [?sig]))"
    unfolding signed_body_def by (rule body_members_obj)
  have none: "\<forall>k \<in> fst ` set ms. field_for [''hmac_signature''] (unquote k) = None"
    using assms(2) signature_only(1) name_unquote by simp
  have "field_values [''hmac_signature''] ''hmac_signature'' (unquote_keys ms) = []"
    using none by (auto simp: field_values_def filter_empty_conv)
  then show "received_signature (signed_body ms mac) = Some (hex_encode mac)"
    by (simp add: received_signature_def b field_values_simps signature_only(2))
qed

lemma authz_member_names: "\<forall>k \<in> fst ` set (authz_layout html r). k \<in> set layout_names \<and> k \<noteq> ''hmac_signature''"
  by (cases "aq_Scope r") (simp_all add: authz_layout_def str_member_def opt_member_def known_names)

lemma audit_member_names: "\<forall>k \<in> fst ` set (audit_members r). k \<in> set layout_names \<and> k \<noteq> ''hmac_signature''"
  by (cases "au_ResourceID r"; cases "au_IPAddress r"; cases "au_Metadata r")
    (simp_all add: audit_members_def str_member_def opt_member_def known_names)

lemma names_lower: "\<forall>n \<in> set authz_names. to_lower n = n" "\<forall>n \<in> set audit_names. to_lower n = n"
  by code_simp+

lemma audit_reads_as_authz:
  assumes "body_members body = Some ms" "authz_of_members ms = Some r" "audit_of_members ms = Some q"
  shows "authz_meta r = audit_meta q"
proof -
  have "dec_uint 8 0 (field_values authz_names ''key_version'' ms) = Some (aq_KeyVersion r)"
      "dec_string [] (field_values authz_names ''nonce'' ms) = Some (aq_Nonce r)"
      "dec_string [] (field_values authz_names ''issued_at'' ms) = Some (aq_IssuedAt r)"
      "dec_uint 8 0 (field_values audit_names ''key_version'' ms) = Some (au_KeyVersion q)"
      "dec_string [] (field_values audit_names ''nonce'' ms) = Some (au_Nonce q)"
      "dec_string [] (field_values audit_names ''issued_at'' ms) = Some (au_IssuedAt q)"
    using assms(2,3) by (auto simp: authz_of_members_def audit_of_members_def Let_def bind_eq_Some_conv)
  moreover have "field_values authz_names f ms = field_values audit_names f ms"
    if "f \<in> {''key_version'', ''nonce'', ''issued_at''}" for f
  proof -
    have "f \<in> set authz_names" "f \<in> set audit_names" using that by (auto simp: authz_names_def audit_names_def)
    then have "(field_for authz_names k = Some f) = (field_for audit_names k = Some f)" for k
      by (simp add: field_for_lower names_lower)
    then show ?thesis by (simp add: field_values_def)
  qed
  ultimately show ?thesis by (simp add: authz_meta_def audit_meta_def)
qed

lemma verifyHMAC_first:
  assumes "received_signature body = Some (hex_encode (hmac key c))"
    and "(c, m) \<in> set (canonicalCandidates body)"
    and "\<And>c' m'. (c', m') \<in> set (canonicalCandidates body) \<Longrightarrow> m' = m"
  shows "verifyHMAC hmac key body = (True, m)"
proof -
  obtain d where d: "find (\<lambda>(b, m). hmac key b = hmac key c) (canonicalCandidates body) = Some d"
    using assms(2) by (cases "find (\<lambda>(b, m). hmac key b = hmac key c) (canonicalCandidates body)")
      (auto simp: find_None_iff)
  then have "d \<in> set (canonicalCandidates body)" by (auto simp: find_Some_iff in_set_conv_nth)
  then have "snd d = m" using assms(3) [of "fst d" "snd d"] by simp
  with d assms(1) show ?thesis by (cases d) (simp add: verifyHMAC_def)
qed

lemma signed_authz_verifies:
  assumes "valid_authz r"
  shows "verifyHMAC hmac key (signed_body (authz_members r) (hmac key (canonical_bytes (authz_members r))))
    = (True, authz_meta r)"
proof -
  let ?c = "canonical_bytes (authz_members r)"
  let ?b = "signed_body (authz_members r) (hmac key ?c)"
  let ?ms = "unquote_keys (authz_members r @ [(''hmac_signature'', JStr (hex_encode (hmac key ?c)))])"
  note b = received_signature_signed [OF authz_members_wf authz_member_names, of True r "hmac key ?c"]
  have r: "authz_of_members ?ms = Some r" using assms by (rule authz_reads_back)
  have cand: "canonicalCandidates ?b = (?c, authz_meta r) # (case audit_of_members ?ms of None \<Rightarrow> []
      | Some q \<Rightarrow> [(canonical_bytes (audit_members q), audit_meta q)])"
    by (simp only: canonicalCandidates_def b(2) bind.simps r option.case append.simps)
  show ?thesis
  proof (rule verifyHMAC_first [where c = ?c])
    show "received_signature ?b = Some (hex_encode (hmac key ?c))" by (rule b(1))
    show "m' = authz_meta r" if "(c', m') \<in> set (canonicalCandidates ?b)" for c' m'
      using that audit_reads_as_authz [OF b(2) r] unfolding cand by (cases "audit_of_members ?ms") auto
  qed (simp add: cand)
qed

text \<open>
  (C20) A message in either layout that is rendered as \<open>Marshal\<close> renders it, with the hex MAC of
  that rendering appended, is accepted, and the replay fields that come back are the message's:
  for every key, every hash and every value of the fields, the optional ones present or not.
\<close>

theorem signed_authz_accepted:
  assumes "valid_authz r"
  shows "verifyHMAC hmac key (signed_body (authz_members r) (hmac key (canonical_bytes (authz_members r))))
    = (True, authz_meta r)"
  using assms by (rule signed_authz_verifies)

definition example_request :: authzRequestCanonical where
  "example_request = \<lparr>aq_CorrelationID = ''c1'', aq_TenantID = ''t1'', aq_SubjectID = ''s1'',
     aq_Action = ''read & \"write\"'', aq_ResourceID = ''r1'', aq_Scope = Some ''a<b'', aq_KeyVersion = 2,
     aq_Nonce = ''n1'', aq_IssuedAt = ''2023-11-14T22:13:20Z''\<rparr>"

definition example_mac :: "bytes \<Rightarrow> bytes \<Rightarrow> bytes" where
  "example_mac k b = take 4 (k @ rev b)"

theorem signed_authz_accepted_witness:
  "verifyHMAC example_mac ''key''
     (signed_body (authz_members example_request) (example_mac ''key'' (canonical_bytes (authz_members example_request))))
   = (True, \<lparr>rm_KeyVersion = 2, rm_Nonce = ''n1'', rm_IssuedAt = ''2023-11-14T22:13:20Z''\<rparr>)"
proof -
  have v: "valid_authz example_request" by code_simp
  have m: "authz_meta example_request = \<lparr>rm_KeyVersion = 2, rm_Nonce = ''n1'', rm_IssuedAt = ''2023-11-14T22:13:20Z''\<rparr>"
    by code_simp
  show ?thesis using signed_authz_accepted [OF v, of example_mac "''key''"] unfolding m .
qed

text \<open>The strings of a request, and the characters \<open>Marshal\<close> escapes and \<open>SetEscapeHTML(false)\<close> does not.\<close>

definition authz_strings :: "authzRequestCanonical \<Rightarrow> bytes list" where
  "authz_strings r = [aq_CorrelationID r, aq_TenantID r, aq_SubjectID r, aq_Action r, aq_ResourceID r,
     aq_Nonce r, aq_IssuedAt r] @ (case aq_Scope r of None \<Rightarrow> [] | Some s \<Rightarrow> [s])"

definition html_free :: "bytes \<Rightarrow> bool" where
  "html_free s \<longleftrightarrow> set s \<inter> set ''<>&'' = {}"

lemma escape_piece_html:
  "c \<in> set ''<>&'' \<Longrightarrow> escape_piece True c r = (CHR 0x5C # CHR ''u'' # hex4 (of_char c), r) \<and> escape_piece False c r = ([c], r)"
  "c \<notin> set ''<>&'' \<Longrightarrow> escape_piece True c r = escape_piece False c r"
proof -
  assume "c \<in> set ''<>&''"
  then have "c = CHR ''<'' \<or> c = CHR ''>'' \<or> c = CHR ''&''" by simp
  then show "escape_piece True c r = (CHR 0x5C # CHR ''u'' # hex4 (of_char c), r) \<and> escape_piece False c r = ([c], r)"
    by (elim disjE) (simp_all add: escape_piece_def)
next
  assume "c \<notin> set ''<>&''"
  then show "escape_piece True c r = escape_piece False c r" unfolding escape_piece_def by (simp only: simp_thms)
qed

lemma escape_piece_rest:
  assumes "valid_utf8 (c # r)" "c \<notin> set ''<>&''"
  shows "\<exists>q. c # r = q @ snd (escape_piece html c r) \<and> (\<forall>x \<in> set q. x \<notin> set ''<>&'')"
proof (cases "of_char c < (128 :: nat)")
  case True
  then show ?thesis using assms(2) by (intro exI [of _ "[c]"]) (simp add: escape_piece_def)
next
  case False
  let ?n = "utf8_head (c # r)"
  have n: "?n \<noteq> 0" using assms(1) by (simp add: valid_utf8.simps(2))
  have "x \<notin> set ''<>&''" if "x \<in> set (take ?n (c # r))" for x
    using utf8_head_high [OF refl n _ that] False by auto
  then show ?thesis using False n
    by (intro exI [of _ "take ?n (c # r)"]) (simp add: escape_piece_def Let_def)
qed

lemma escape_lengths:
  "valid_utf8 s \<Longrightarrow> length (escape_from False s) \<le> length (escape_from True s) \<and>
    (escape_from True s = escape_from False s \<longleftrightarrow> html_free s) \<and>
    (\<not> html_free s \<longrightarrow> length (escape_from False s) < length (escape_from True s))"
proof (induction s rule: length_induct)
  case (1 s)
  show ?case
  proof (cases s)
    case (Cons c r)
    show ?thesis
    proof (cases "c \<in> set ''<>&''")
      case True
      then have "valid_utf8 r" using piece_reads_back [of c r True] 1(2) escape_piece_html(1) [OF True, of r] by (simp add: Cons)
      then have "length (escape_from False r) \<le> length (escape_from True r)" using 1(1) by (simp add: Cons)
      then have "length (escape_from False s) < length (escape_from True s)"
        by (simp add: Cons escape_step escape_piece_html(1) [OF True] hex4_def)
      moreover have "\<not> html_free s" using True by (auto simp: Cons html_free_def)
      ultimately show ?thesis by auto
    next
      case False
      obtain p t where pt: "escape_piece False c r = (p, t)" by force
      have v: "valid_utf8 t" and split: "\<exists>q. c # r = q @ t \<and> (\<forall>x. unquote (p @ x) = q @ unquote x)"
        using piece_reads_back [of c r False] 1(2) by (auto simp: Cons pt)
      have "length t < length s" using escape_piece_less [of False c r] by (simp add: Cons pt)
      note IH = 1(1) [rule_format, OF this v]
      have e: "escape_from h s = p @ escape_from h t" for h
        using escape_piece_html(2) [OF False, of r] by (cases h) (simp_all add: Cons escape_step pt)
      obtain q where "c # r = q @ t" "\<forall>x \<in> set q. x \<notin> set ''<>&''"
        using escape_piece_rest [of c r False] 1(2) False by (auto simp: Cons pt)
      then have "html_free s = html_free t" unfolding Cons html_free_def by auto
      with IH show ?thesis by (simp add: e)
    qed
  qed (simp add: html_free_def)
qed

lemma json_string_html: "valid_utf8 s \<Longrightarrow> json_string False s = json_string True s \<longleftrightarrow> html_free s"
  using escape_lengths [of s] by (auto simp: json_string_def)

lemma layouts_agree:
  assumes "valid_authz r"
  shows "authz_layout False r = authz_layout True r \<longleftrightarrow> (\<forall>s \<in> set (authz_strings r). html_free s)"
  using assms
  by (cases "aq_Scope r")
    (auto simp: authz_layout_def str_member_def opt_member_def valid_authz_def authz_strings_def json_string_html)

text \<open>
  (C33) The bytes rebuilt are \<open>Marshal\<close>'s, with its HTML escapes: a request rendered without them, as a
  serializer that has none renders it, and signed over that rendering, is among the rebuilt
  candidates exactly when no field holds one of the three HTML characters. So a request with an
  ampersand in a field is never accepted on the MAC of its own bytes.
\<close>

theorem html_characters_never_verify:
  assumes "valid_authz r"
  shows "canonical_bytes (authz_layout False r) \<in> fst ` set (canonicalCandidates (signed_body (authz_layout False r) mac))
    \<longleftrightarrow> (\<forall>s \<in> set (authz_strings r). html_free s)"
proof -
  let ?b = "signed_body (authz_layout False r) mac"
  let ?ms = "unquote_keys (authz_layout False r @ [(''hmac_signature'', JStr (hex_encode mac))])"
  note b = received_signature_signed(2) [OF authz_members_wf authz_member_names, of False r mac]
  have r: "authz_of_members ?ms = Some r" using assms by (rule authz_reads_back)
  have other: "canonical_bytes (authz_layout False r) \<noteq> canonical_bytes (audit_members q)"
    if "audit_of_members ?ms = Some q" for q
  proof
    assume "canonical_bytes (authz_layout False r) = canonical_bytes (audit_members q)"
    then have "JObj (authz_layout False r) = JObj (audit_members q)" unfolding canonical_bytes_def
      using audit_candidate [OF b that] authz_members_wf by (intro print_json_inject) (auto simp: members_of_meta_def)
    then show False by (simp add: authz_layout_def audit_members_def str_member_def)
  qed
  have cand: "canonicalCandidates ?b = (canonical_bytes (authz_members r), authz_meta r) #
      (case audit_of_members ?ms of None \<Rightarrow> [] | Some q \<Rightarrow> [(canonical_bytes (audit_members q), audit_meta q)])"
    by (simp only: canonicalCandidates_def b bind.simps r option.case append.simps)
  have "canonical_bytes (authz_layout False r) = canonical_bytes (authz_members r) \<longleftrightarrow>
      authz_layout False r = authz_members r"
    unfolding canonical_bytes_def using print_json_inject [OF authz_members_wf authz_members_wf] by auto
  then show ?thesis using other layouts_agree [OF assms] unfolding cand
    by (cases "audit_of_members ?ms") auto
qed

theorem html_characters_never_verify_witness:
  "canonical_bytes (authz_layout False example_request)
     \<notin> fst ` set (canonicalCandidates (signed_body (authz_layout False example_request) ''mac''))"
proof -
  have v: "valid_authz example_request" by code_simp
  have "\<not> html_free (aq_Action example_request)" by code_simp
  then have "\<not> (\<forall>s \<in> set (authz_strings example_request). html_free s)" by (auto simp: authz_strings_def)
  then show ?thesis using html_characters_never_verify [OF v, of "''mac''"] by blast
qed

end
