(* ===== verification/Amqp_Consumer.thy ===== *)
theory Amqp_Consumer
  imports Amqp_Hmac Errors
begin

text \<open>
  \<open>amqp/consumer.go\<close>, \<open>amqp/event.go\<close>, \<open>amqp/errdrop.go\<close>: the options of \<open>Consume\<close>, the verification
  and dispatch of one delivery, and the consume loop. The broker's answers, the clock readings
  and the order in which the \<open>select\<close> fires are inputs; the handler is a function on a world of
  any type. Each dispatch returns the list of what it did to the logger, the handler and the
  delivery.
\<close>

section \<open>Events\<close>

text \<open>A nil \<open>Fields\<close> map is the empty one; a later member overwrites an earlier one.\<close>

record Event =
  ev_Raw :: bytes
  ev_Fields :: "(bytes \<times> json) list"

definition raw_map :: "(bytes \<times> json) list \<Rightarrow> (bytes \<times> json) list" where
  "raw_map ms = foldl (\<lambda>m (k, v). AList.update (unquote k) v m) [] ms"

definition parseEvent :: "bytes \<Rightarrow> Event option" where
  "parseEvent body =
     (case parse_json body of
        Some (JObj ms) \<Rightarrow> Some \<lparr>ev_Raw = body, ev_Fields = AList.delete ''hmac_signature'' (raw_map ms)\<rparr>
      | Some JNull \<Rightarrow> Some \<lparr>ev_Raw = body, ev_Fields = []\<rparr>
      | _ \<Rightarrow> None)"

section \<open>Options\<close>

definition defaultPrefetch :: int where "defaultPrefetch = 10"
definition consumerTag :: bytes where "consumerTag = ''axiam-sdk-consumer''"

record consumeConfig =
  cc_prefetch :: int
  cc_skew :: duration
  cc_logger :: bool

text \<open>\<open>cc_logger\<close>: whether a logger other than the no-op one is installed.\<close>

datatype ConsumeOption = WithPrefetch int | WithSkew duration | WithSecurityLogger bool

fun apply_option :: "ConsumeOption \<Rightarrow> consumeConfig \<Rightarrow> consumeConfig" where
  "apply_option (WithPrefetch n) c = c\<lparr>cc_prefetch := n\<rparr>"
| "apply_option (WithSkew skew) c = (if skew > 0 then c\<lparr>cc_skew := skew\<rparr> else c)"
| "apply_option (WithSecurityLogger nonnil) c = (if nonnil then c\<lparr>cc_logger := True\<rparr> else c)"

definition consume_config :: "ConsumeOption list \<Rightarrow> consumeConfig" where
  "consume_config opts = foldl (\<lambda>c opt. apply_option opt c)
     \<lparr>cc_prefetch = defaultPrefetch, cc_skew = defaultSkew, cc_logger = False\<rparr> opts"

section \<open>One delivery\<close>

datatype consumer_action = SecurityWarn bytes | HandlerRan Event | Acked | Nacked bool

type_synonym 'w handler = "'w \<Rightarrow> Event \<Rightarrow> go_error option \<times> 'w"

text \<open>The replay gate: skipped when no guard is installed.\<close>

definition replay_gate :: "time \<Rightarrow> replayMeta \<Rightarrow> replayGuard option \<Rightarrow> replay_error option \<times> replayGuard option" where
  "replay_gate now meta replay =
     (case replay of None \<Rightarrow> (None, None)
      | Some g \<Rightarrow> (let (err, g') = replay_check now meta g in (err, Some g')))"

definition verifyAndDispatch ::
  "(bytes \<Rightarrow> bytes \<Rightarrow> bytes) \<Rightarrow> bytes \<Rightarrow> 'w handler \<Rightarrow> time \<Rightarrow> bytes \<Rightarrow> replayGuard option \<Rightarrow> 'w \<Rightarrow>
   consumer_action list \<times> replayGuard option \<times> 'w" where
  "verifyAndDispatch hmac signingKey handler now body replay w =
     (let (ok, meta) = verifyHMAC hmac signingKey body in
      if \<not> ok then
        ([SecurityWarn ''axiam_sdk_security: AMQP HMAC verification failed; nacking without requeue'', Nacked False],
         replay, w)
      else
        (let (err, replay') = replay_gate now meta replay in
         if err \<noteq> None then
           ([SecurityWarn ''axiam_sdk_security: AMQP replay-protection check failed; nacking without requeue'',
             Nacked False], replay', w)
         else
           (case parseEvent body of
              None \<Rightarrow>
                ([SecurityWarn ''axiam_sdk_security: AMQP message body failed to parse after HMAC verification; nacking without requeue'',
                  Nacked False], replay', w)
            | Some event \<Rightarrow>
                (let (herr, w') = handler w event in
                 case herr of
                   None \<Rightarrow> ([HandlerRan event, Acked], replay', w')
                 | Some e \<Rightarrow> ([HandlerRan event, Nacked (\<not> errors_is e ErrDrop)], replay', w')))))"

section \<open>The loop\<close>

text \<open>
  What the \<open>select\<close> of the loop receives: the context's end, the broker's close notification
  (without an error when that channel is itself closed), the end of the delivery channel, or a
  delivery with the instant at which it is judged.
\<close>

datatype loop_event =
    CtxDone go_error
  | CloseNotified "go_error option"
  | DeliveriesClosed
  | Delivery time bytes

fun consume_loop ::
  "(bytes \<Rightarrow> bytes \<Rightarrow> bytes) \<Rightarrow> bytes \<Rightarrow> 'w handler \<Rightarrow> loop_event list \<Rightarrow> replayGuard option \<Rightarrow> 'w \<Rightarrow>
   go_error option \<times> consumer_action list list \<times> replayGuard option \<times> 'w" where
  "consume_loop hmac key handler [] replay w = (None, [], replay, w)"
| "consume_loop hmac key handler (CtxDone e # es) replay w = (Some e, [], replay, w)"
| "consume_loop hmac key handler (CloseNotified None # es) replay w =
     (Some (EPlain ''axiam: AMQP channel closed''), [], replay, w)"
| "consume_loop hmac key handler (CloseNotified (Some e) # es) replay w =
     (Some (EWrap ''axiam: AMQP channel closed: '' e), [], replay, w)"
| "consume_loop hmac key handler (DeliveriesClosed # es) replay w =
     (Some (EPlain ''axiam: AMQP delivery channel closed''), [], replay, w)"
| "consume_loop hmac key handler (Delivery now body # es) replay w =
     (let (acts, replay', w') = verifyAndDispatch hmac key handler now body replay w;
          (result, rest, final) = consume_loop hmac key handler es replay' w'
      in (result, acts # rest, final))"

text \<open>\<open>Consume\<close>: the broker's answers to \<open>Qos\<close> and \<open>Consume\<close> first, then the loop.\<close>

definition Consume ::
  "(bytes \<Rightarrow> bytes \<Rightarrow> bytes) \<Rightarrow> bytes \<Rightarrow> 'w handler \<Rightarrow> ConsumeOption list \<Rightarrow> (int \<Rightarrow> go_error option) \<Rightarrow>
   go_error option \<Rightarrow> loop_event list \<Rightarrow> 'w \<Rightarrow>
   go_error option \<times> consumer_action list list \<times> replayGuard option \<times> 'w" where
  "Consume hmac key handler opts qos start es w =
     (let cfg = consume_config opts;
          replay = Some (newReplayGuard (cc_skew cfg))
      in case qos (cc_prefetch cfg) of
           Some e \<Rightarrow> (Some (EWrap ''axiam: failed to set AMQP QoS: '' e), [], replay, w)
         | None \<Rightarrow>
           (case start of
              Some e \<Rightarrow> (Some (EWrap ''axiam: failed to start AMQP consumer: '' e), [], replay, w)
            | None \<Rightarrow> consume_loop hmac key handler es replay w))"

section \<open>What one dispatch does\<close>

definition settlements :: "consumer_action list \<Rightarrow> consumer_action list" where
  "settlements acts = filter (\<lambda>a. a = Acked \<or> (\<exists>r. a = Nacked r)) acts"

definition handled :: "consumer_action list \<Rightarrow> Event list" where
  "handled acts = List.map_filter (\<lambda>a. case a of HandlerRan e \<Rightarrow> Some e | _ \<Rightarrow> None) acts"

lemmas handled_simps = handled_def settlements_def map_filter_simps

text \<open>Whether the delivery passes both gates and parses.\<close>

definition admitted :: "(bytes \<Rightarrow> bytes \<Rightarrow> bytes) \<Rightarrow> bytes \<Rightarrow> time \<Rightarrow> bytes \<Rightarrow> replayGuard option \<Rightarrow> Event option" where
  "admitted hmac key now body replay =
     (if fst (verifyHMAC hmac key body) \<and> fst (replay_gate now (snd (verifyHMAC hmac key body)) replay) = None
      then parseEvent body else None)"

lemma dispatch_cases:
  "fst (verifyAndDispatch hmac key handler now body replay w) =
     (case admitted hmac key now body replay of
        None \<Rightarrow> [hd (fst (verifyAndDispatch hmac key handler now body replay w)), Nacked False]
      | Some event \<Rightarrow> [HandlerRan event,
          (case fst (handler w event) of None \<Rightarrow> Acked | Some e \<Rightarrow> Nacked (\<not> errors_is e ErrDrop))])"
  "admitted hmac key now body replay = None \<Longrightarrow>
     \<exists>m. hd (fst (verifyAndDispatch hmac key handler now body replay w)) = SecurityWarn m"
  by (auto simp: verifyAndDispatch_def admitted_def Let_def case_prod_unfold split: option.splits)

lemma dispatch_admitted:
  assumes "admitted hmac key now body replay = Some event"
  shows "fst (verifyAndDispatch hmac key handler now body replay w) = [HandlerRan event,
    (case fst (handler w event) of None \<Rightarrow> Acked | Some e \<Rightarrow> Nacked (\<not> errors_is e ErrDrop))]"
  using dispatch_cases(1) [of hmac key handler now body replay w] by (simp add: assms)

lemma dispatch_refused:
  assumes "admitted hmac key now body replay = None"
  shows "\<exists>m. fst (verifyAndDispatch hmac key handler now body replay w) = [SecurityWarn m, Nacked False]"
  using dispatch_cases(1) [of hmac key handler now body replay w]
    dispatch_cases(2) [of hmac key now body replay handler w] assms by auto

lemma dispatch_replay:
  "fst (snd (verifyAndDispatch hmac key handler now body replay w)) =
     (if fst (verifyHMAC hmac key body) then snd (replay_gate now (snd (verifyHMAC hmac key body)) replay) else replay)"
  by (auto simp: verifyAndDispatch_def Let_def case_prod_unfold split: option.splits)

section \<open>Runs of the loop\<close>

text \<open>The claim a delivery makes on the guard's seen set: only an authentic and fresh one does.\<close>

definition delivery_claim ::
  "(bytes \<Rightarrow> bytes \<Rightarrow> bytes) \<Rightarrow> bytes \<Rightarrow> duration \<Rightarrow> time \<times> bytes \<Rightarrow> bool \<times> time \<times> bytes \<times> time" where
  "delivery_claim hmac key skew d =
     (fst (verifyHMAC hmac key (snd d)) \<and> meta_fresh skew (fst d) (snd (verifyHMAC hmac key (snd d))),
      fst d, rm_Nonce (snd (verifyHMAC hmac key (snd d))), fst d + wrap64 (2 * skew))"

definition deliveries :: "(time \<times> bytes) list \<Rightarrow> loop_event list" where
  "deliveries ds = map (\<lambda>(t, b). Delivery t b) ds"

abbreviation loop_actions where
  "loop_actions hmac key handler ds g w \<equiv> fst (snd (consume_loop hmac key handler (deliveries ds) (Some g) w))"

lemma loop_claims:
  "list_all2 (\<lambda>acts ok. handled acts \<noteq> [] \<longrightarrow> ok) (loop_actions hmac key handler ds g w)
     (fst (guarded_run nonce_claim (map (delivery_claim hmac key (rg_skew g)) ds) (rg_seen g)))"
proof (induction ds arbitrary: g w)
  case (Cons d ds)
  obtain now body where d: "d = (now, body)" by force
  define step where "step = verifyAndDispatch hmac key handler now body (Some g) w"
  let ?v = "verifyHMAC hmac key body"
  let ?claim = "nonce_claim now (rm_Nonce (snd ?v)) (now + wrap64 (2 * rg_skew g)) (rg_seen g)"
  define g' where "g' = (if fst ?v then snd (replay_check now (snd ?v) g) else g)"
  have g': "fst (snd step) = Some g'" "rg_skew g' = rg_skew g"
    "rg_seen g' = (if fst ?v \<and> meta_fresh (rg_skew g) now (snd ?v) then snd ?claim else rg_seen g)"
    by (simp_all add: g'_def step_def dispatch_replay replay_gate_def case_prod_unfold replay_check_step)
  have first: "handled (fst step) \<noteq> [] \<longrightarrow> fst ?v \<and> meta_fresh (rg_skew g) now (snd ?v) \<and> fst ?claim"
  proof (cases "admitted hmac key now body (Some g)")
    case None
    from dispatch_refused [OF None, of handler w] show ?thesis by (auto simp: step_def handled_simps)
  next
    case (Some event)
    then have "fst ?v" "fst (replay_check now (snd ?v) g) = None"
      by (auto simp: admitted_def replay_gate_def Let_def case_prod_unfold split: if_splits)
    then show ?thesis by (simp add: replay_check_step)
  qed
  from Cons.IH [of g' "snd (snd step)"] first show ?case
    by (auto simp: d deliveries_def step_def [symmetric] g' delivery_claim_def Let_def case_prod_unfold)
qed (simp add: deliveries_def)

lemma loop_handled_fresh:
  assumes "i < length ds" "handled (loop_actions hmac key handler ds g w ! i) \<noteq> []"
  shows "fst (guarded_run nonce_claim (map (delivery_claim hmac key (rg_skew g)) ds) (rg_seen g)) ! i"
  using loop_claims [of hmac key handler ds g w] assms nonces.run_length
  by (auto simp: list_all2_conv_all_nth)

section \<open>Properties\<close>

text \<open>
  (C23) Every delivery is settled exactly once, whatever the body, the guard and the handler. The
  handler runs on it exactly when the MAC verifies, the replay gate passes and the body parses,
  and on that body's event; it is acknowledged exactly when the handler then returns no error,
  and put back on the queue exactly when the handler returns an error that is not \<open>ErrDrop\<close>.
\<close>

theorem delivery_settled_once:
  "let acts = fst (verifyAndDispatch hmac key handler now body replay w);
       ev = admitted hmac key now body replay
   in length (settlements acts) = 1 \<and>
      handled acts = (case ev of None \<Rightarrow> [] | Some e \<Rightarrow> [e]) \<and>
      (Acked \<in> set acts \<longleftrightarrow> (\<exists>e. ev = Some e \<and> fst (handler w e) = None)) \<and>
      (Nacked True \<in> set acts \<longleftrightarrow> (\<exists>e err. ev = Some e \<and> fst (handler w e) = Some err \<and> \<not> errors_is err ErrDrop))"
proof (cases "admitted hmac key now body replay")
  case None
  from dispatch_refused [OF None, of handler w] None show ?thesis by (auto simp: handled_simps)
next
  case (Some e)
  from dispatch_admitted [OF Some, of handler w] Some show ?thesis
    by (auto simp: handled_simps split: option.splits)
qed

text \<open>
  (C7) Over a whole run of the consume loop, with a clock that does not go back, the handler never
  sees one signed message twice: two deliveries it ran on that carry the same nonce and issue time
  are a message issued exactly one window ahead, delivered again exactly one window after.
\<close>

theorem consumer_runs_once:
  assumes "sorted (map fst ds)" "i < j" "j < length ds"
    and "handled (loop_actions hmac key handler ds g w ! i) \<noteq> []"
    and "handled (loop_actions hmac key handler ds g w ! j) \<noteq> []"
    and "rm_Nonce (snd (verifyHMAC hmac key (snd (ds ! i)))) = rm_Nonce (snd (verifyHMAC hmac key (snd (ds ! j))))"
    and "rm_IssuedAt (snd (verifyHMAC hmac key (snd (ds ! i)))) = rm_IssuedAt (snd (verifyHMAC hmac key (snd (ds ! j))))"
    and "0 < rg_skew g" "rg_skew g < 4611686018427387904"
  shows "\<exists>t. parse_rfc3339 (rm_IssuedAt (snd (verifyHMAC hmac key (snd (ds ! i))))) = Some t \<and>
    t = fst (ds ! i) + rg_skew g \<and> fst (ds ! j) = t + rg_skew g"
proof -
  let ?s = "rg_skew g" and ?v = "\<lambda>k. verifyHMAC hmac key (snd (ds ! k))"
  let ?rs = "map (delivery_claim hmac key ?s) ds"
  have srt: "sorted (map (fst \<circ> snd) ?rs)" using assms(1) by (simp add: delivery_claim_def comp_def)
  have ran: "fst (guarded_run nonce_claim ?rs (rg_seen g)) ! i" "fst (guarded_run nonce_claim ?rs (rg_seen g)) ! j"
    using loop_handled_fresh [of i ds] loop_handled_fresh [of j ds] assms(2-5) by simp_all
  have "fst (?rs ! i)" "fst (?rs ! j)" using nonces.run_guard [OF _ ran(1)] nonces.run_guard [OF _ ran(2)] assms(2,3) by simp_all
  then have "meta_fresh ?s (fst (ds ! i)) (snd (?v i))" "meta_fresh ?s (fst (ds ! j)) (snd (?v j))"
    using assms(2,3) by (simp_all add: delivery_claim_def)
  then show ?thesis
    by (intro claims_at_edge [OF srt assms(2) _ ran])
      (use assms in \<open>simp_all add: delivery_claim_def\<close>)
qed

text \<open>A witness: one message issued one window ahead, delivered, and delivered again one window after.\<close>

definition ahead_request :: authzRequestCanonical where
  "ahead_request = example_request\<lparr>aq_IssuedAt := ''2023-11-14T22:18:20Z''\<rparr>"

definition zero_mac :: "bytes \<Rightarrow> bytes \<Rightarrow> bytes" where "zero_mac k b = []"

definition ahead_body :: bytes where
  "ahead_body = signed_body (authz_members ahead_request) []"

lemma ahead_body_facts:
  "verifyHMAC zero_mac [] ahead_body = (True, boundary_message\<lparr>rm_Nonce := ''n1'', rm_IssuedAt := ''2023-11-14T22:18:20Z''\<rparr>)"
  "parseEvent ahead_body \<noteq> None"
proof -
  have v: "valid_authz ahead_request" by code_simp
  have m: "authz_meta ahead_request = boundary_message\<lparr>rm_Nonce := ''n1'', rm_IssuedAt := ''2023-11-14T22:18:20Z''\<rparr>"
    by code_simp
  have "verifyHMAC zero_mac [] ahead_body = (True, authz_meta ahead_request)"
    using signed_authz_verifies [OF v, of zero_mac "[]"] unfolding ahead_body_def zero_mac_def .
  then show "verifyHMAC zero_mac [] ahead_body =
      (True, boundary_message\<lparr>rm_Nonce := ''n1'', rm_IssuedAt := ''2023-11-14T22:18:20Z''\<rparr>)" unfolding m .
  have "wf_json (JObj (authz_members ahead_request @ [(''hmac_signature'', JStr (hex_encode []))]))"
    using authz_members_wf [of True ahead_request] hex_literal(1) [of "[]"] by auto
  from parse_print [OF this] show "parseEvent ahead_body \<noteq> None"
    by (simp add: ahead_body_def signed_body_def obj_body_def parseEvent_def)
qed

theorem consumer_runs_once_witness:
  "\<exists>t. parse_rfc3339 ''2023-11-14T22:18:20Z'' = Some t \<and>
     t = 1700000000000000000 + defaultSkew \<and> 1700000600000000000 = t + defaultSkew"
proof -
  let ?ds = "[(1700000000000000000 :: time, ahead_body), (1700000600000000000, ahead_body)]"
  let ?h = "\<lambda>(w :: unit) (e :: Event). (None :: go_error option, w)"
  note v = ahead_body_facts(1)
  obtain e where e: "parseEvent ahead_body = Some e" using ahead_body_facts(2) by blast
  let ?m = "boundary_message\<lparr>rm_Nonce := ''n1'', rm_IssuedAt := ''2023-11-14T22:18:20Z''\<rparr>" and ?g = "newReplayGuard defaultSkew"
  have c: "fst (replay_check 1700000000000000000 ?m ?g) = None"
      "fst (replay_check 1700000600000000000 ?m (snd (replay_check 1700000000000000000 ?m ?g))) = None"
    by code_simp+
  have acts: "handled (loop_actions zero_mac [] ?h ?ds ?g () ! 0) \<noteq> []"
      "handled (loop_actions zero_mac [] ?h ?ds ?g () ! 1) \<noteq> []"
    by (simp_all add: deliveries_def verifyAndDispatch_def replay_gate_def v e c handled_simps case_prod_unfold Let_def)
  have skew: "rg_skew (newReplayGuard s) = s" "defaultSkew = 300000000000" for s
    by (simp_all add: newReplayGuard_def defaultSkew_def Minute_def)
  show ?thesis
    using consumer_runs_once [of ?ds 0 1, OF _ _ _ acts] by (simp add: v skew)
qed

section \<open>What the MAC does not cover\<close>

text \<open>A body that names the action twice: any other value in lower case, then the signed one.\<close>

definition forged_members :: "bytes \<Rightarrow> authzRequestCanonical \<Rightarrow> bytes \<Rightarrow> (bytes \<times> json) list" where
  "forged_members action r mac =
     (''action'', json_string True action) #
     [str_member True ''correlation_id'' (aq_CorrelationID r), str_member True ''tenant_id'' (aq_TenantID r),
      str_member True ''subject_id'' (aq_SubjectID r), str_member True ''resource_id'' (aq_ResourceID r)]
     @ opt_member ''scope'' (json_string True) (aq_Scope r)
     @ [(''key_version'', JNum (show_nat (aq_KeyVersion r))), str_member True ''nonce'' (aq_Nonce r),
        str_member True ''issued_at'' (aq_IssuedAt r)] @
     [(''ACTION'', json_string True (aq_Action r)), (''hmac_signature'', JStr (hex_encode mac))]"

lemma forged_wf: "wf_json (JObj (forged_members action r mac))"
  by (cases "aq_Scope r") (simp_all add: forged_members_def str_member_def opt_member_def)

lemma forged_values:
  "field_values authz_names ''correlation_id'' (unquote_keys (forged_members action r mac)) = [json_string True (aq_CorrelationID r)]"
  "field_values authz_names ''tenant_id'' (unquote_keys (forged_members action r mac)) = [json_string True (aq_TenantID r)]"
  "field_values authz_names ''subject_id'' (unquote_keys (forged_members action r mac)) = [json_string True (aq_SubjectID r)]"
  "field_values authz_names ''action'' (unquote_keys (forged_members action r mac)) =
     [json_string True action, json_string True (aq_Action r)]"
  "field_values authz_names ''resource_id'' (unquote_keys (forged_members action r mac)) = [json_string True (aq_ResourceID r)]"
  "field_values authz_names ''scope'' (unquote_keys (forged_members action r mac)) =
     (case aq_Scope r of None \<Rightarrow> [] | Some s \<Rightarrow> [json_string True s])"
  "field_values authz_names ''key_version'' (unquote_keys (forged_members action r mac)) = [JNum (show_nat (aq_KeyVersion r))]"
  "field_values authz_names ''nonce'' (unquote_keys (forged_members action r mac)) = [json_string True (aq_Nonce r)]"
  "field_values authz_names ''issued_at'' (unquote_keys (forged_members action r mac)) = [json_string True (aq_IssuedAt r)]"
  "field_values [''hmac_signature''] ''hmac_signature'' (unquote_keys (forged_members action r mac)) = [JStr (hex_encode mac)]"
  by (cases "aq_Scope r"; simp add: forged_members_def field_values_simps str_member_def opt_member_def
      signature_only known_names)+

lemma forged_reads_as_signed:
  assumes "valid_authz r" "valid_utf8 action"
  shows "authz_of_members (unquote_keys (forged_members action r mac)) = Some r"
  using assms
  by (cases "aq_Scope r") (simp_all add: authz_of_members_def forged_values valid_authz_def Let_def)

lemma forged_signature: "received_signature (obj_body (forged_members action r mac)) = Some (hex_encode mac)"
  by (simp only: received_signature_def body_members_obj [OF forged_wf] bind.simps forged_values dec_string_ptr.simps
      hex_literal)

lemma forged_fields: "map_of (raw_map (forged_members action r mac)) ''action'' = Some (json_string True action)"
proof -
  have "map_of (foldl (\<lambda>m (k, v). AList.update (unquote k) v m) m ms) ''action'' = map_of m ''action''"
    if "\<forall>k \<in> fst ` set ms. unquote k \<noteq> ''action''" for ms m
    using that by (induction ms arbitrary: m) (auto split: prod.splits)
  note rest = this
  have tail: "forged_members action r mac = (''action'', json_string True action) # tl (forged_members action r mac)"
    by (simp add: forged_members_def)
  have "\<forall>k \<in> fst ` set (tl (forged_members action r mac)). unquote k \<noteq> ''action''"
    by (cases "aq_Scope r") (simp_all add: forged_members_def str_member_def opt_member_def)
  then show ?thesis unfolding raw_map_def by (subst tail) (simp add: rest)
qed

text \<open>
  (C34) The handler is given the body's own members, not the ones the MAC was computed over: for every
  request, key and hash, the body that names the action twice, first in lower case with any other
  value and then in upper case with the signed one, carries the signature of the genuine message,
  is accepted with its replay fields, and its event's \<open>action\<close> member is the other value.
\<close>

theorem unsigned_action_reaches_handler:
  assumes "valid_authz r" and "valid_utf8 action"
  shows "let body = obj_body (forged_members action r (hmac key (canonical_bytes (authz_members r))))
    in verifyHMAC hmac key body = (True, authz_meta r) \<and>
       (\<exists>ev. parseEvent body = Some ev \<and> map_of (ev_Fields ev) ''action'' = Some (json_string True action))"
proof -
  define mac where "mac = hmac key (canonical_bytes (authz_members r))"
  let ?ms = "forged_members action r mac" and ?body = "obj_body (forged_members action r mac)"
  note b = body_members_obj [OF forged_wf] and r = forged_reads_as_signed [OF assms, of mac]
  have cand: "canonicalCandidates ?body = (canonical_bytes (authz_members r), authz_meta r) #
      (case audit_of_members (unquote_keys ?ms) of None \<Rightarrow> []
       | Some q \<Rightarrow> [(canonical_bytes (audit_members q), audit_meta q)])"
    by (simp only: canonicalCandidates_def b bind.simps r option.case append.simps)
  have "verifyHMAC hmac key ?body = (True, authz_meta r)"
  proof (rule verifyHMAC_first [where c = "canonical_bytes (authz_members r)"])
    show "received_signature ?body = Some (hex_encode (hmac key (canonical_bytes (authz_members r))))"
      unfolding forged_signature mac_def ..
    show "m' = authz_meta r" if "(c', m') \<in> set (canonicalCandidates ?body)" for c' m'
      using that audit_reads_as_authz [OF b r] unfolding cand
      by (cases "audit_of_members (unquote_keys ?ms)") auto
  qed (simp add: cand)
  moreover have "parse_json ?body = Some (JObj ?ms)" unfolding obj_body_def by (rule parse_print [OF forged_wf])
  ultimately show ?thesis unfolding mac_def [symmetric] by (simp add: Let_def parseEvent_def forged_fields)
qed

theorem unsigned_action_reaches_handler_witness:
  "\<exists>body ev. verifyHMAC example_mac ''key'' body = (True, authz_meta example_request) \<and>
     parseEvent body = Some ev \<and> map_of (ev_Fields ev) ''action'' = Some (json_string True ''delete'')"
proof -
  have "valid_authz example_request" "valid_utf8 ''delete''" by code_simp+
  from unsigned_action_reaches_handler [OF this, of example_mac "''key''"] show ?thesis
    unfolding Let_def by blast
qed

end
