(* ===== verification/Reactor_Registry.thy ===== *)
theory Reactor_Registry
  imports Go_Strings
begin

text \<open>
  \<open>amqp/reactor_registry.go\<close>: the hookable events with their patch allow-lists, the failure
  policy a registration inherits, the broker names. \<open>nil\<close> and empty slices of names are the
  empty list.
\<close>

definition ReactorEventTokenPreIssue :: bytes where "ReactorEventTokenPreIssue = ''token.pre_issue''"
definition ReactorEventLoginPostAuth :: bytes where "ReactorEventLoginPostAuth = ''login.post_auth''"
definition ReactorEventUserPreCreate :: bytes where "ReactorEventUserPreCreate = ''user.pre_create''"
definition ReactorEventUserPreUpdate :: bytes where "ReactorEventUserPreUpdate = ''user.pre_update''"
definition ReactorEventGrantPreAssign :: bytes where "ReactorEventGrantPreAssign = ''grant.pre_assign''"

definition ReactorFailOpen :: bytes where "ReactorFailOpen = ''fail_open''"
definition ReactorFailClosed :: bytes where "ReactorFailClosed = ''fail_closed''"

definition ReactorModeIntercept :: bytes where "ReactorModeIntercept = ''intercept''"
definition ReactorModeListen :: bytes where "ReactorModeListen = ''listen''"

definition ReactorChainCeilingMS :: int where "ReactorChainCeilingMS = 5000"

lemmas reactor_names = ReactorEventTokenPreIssue_def ReactorEventLoginPostAuth_def ReactorEventUserPreCreate_def
  ReactorEventUserPreUpdate_def ReactorEventGrantPreAssign_def

record ReactorEventSpec =
  es_Name :: bytes
  es_Interceptable :: bool
  es_Mutable :: bool
  es_MutableFields :: "bytes list"
  es_DefaultFailurePolicy :: bytes
  es_Description :: bytes

definition reactorEventRegistry :: "ReactorEventSpec list" where
  "reactorEventRegistry =
    [\<lparr>es_Name = ReactorEventTokenPreIssue, es_Interceptable = True, es_Mutable = True,
      es_MutableFields = [''ext.''], es_DefaultFailurePolicy = ReactorFailOpen,
      es_Description = ''Enrich or veto token issuance. May add claims under `ext.` only.''\<rparr>,
     \<lparr>es_Name = ReactorEventLoginPostAuth, es_Interceptable = True, es_Mutable = False,
      es_MutableFields = [], es_DefaultFailurePolicy = ReactorFailClosed,
      es_Description = ''After credentials verify, before session issuance: veto or require step-up MFA.''\<rparr>,
     \<lparr>es_Name = ReactorEventUserPreCreate, es_Interceptable = True, es_Mutable = True,
      es_MutableFields = [''username'', ''email'', ''metadata.''], es_DefaultFailurePolicy = ReactorFailClosed,
      es_Description = ''Validate or normalize a new user's profile fields.''\<rparr>,
     \<lparr>es_Name = ReactorEventUserPreUpdate, es_Interceptable = True, es_Mutable = True,
      es_MutableFields = [''username'', ''email'', ''metadata.''], es_DefaultFailurePolicy = ReactorFailClosed,
      es_Description = ''Validate or normalize a profile update.''\<rparr>,
     \<lparr>es_Name = ReactorEventGrantPreAssign, es_Interceptable = True, es_Mutable = False,
      es_MutableFields = [], es_DefaultFailurePolicy = ReactorFailClosed,
      es_Description = ''Veto a role or permission assignment (four-eyes workflows). Veto-only.''\<rparr>]"

definition ReactorEvents :: "ReactorEventSpec list" where
  "ReactorEvents = map (\<lambda>spec. spec) reactorEventRegistry"

definition ReactorEventSpecFor :: "bytes \<Rightarrow> ReactorEventSpec option" where
  "ReactorEventSpecFor name = find (\<lambda>spec. es_Name spec = name) reactorEventRegistry"

text \<open>The loop over the allow-list, one entry at a time.\<close>

fun patch_field_in :: "bytes list \<Rightarrow> bytes \<Rightarrow> bool" where
  "patch_field_in [] field = False"
| "patch_field_in (allowed # rest) field =
     (case cut_suffix allowed (CHR ''.'') of
        Some prefix \<Rightarrow>
          if length field > length prefix + 1 \<and> has_prefix field allowed then True else patch_field_in rest field
      | None \<Rightarrow> if field = allowed then True else patch_field_in rest field)"

definition PatchFieldAllowed :: "ReactorEventSpec \<Rightarrow> bytes \<Rightarrow> bool" where
  "PatchFieldAllowed s field = (if \<not> es_Mutable s then False else patch_field_in (es_MutableFields s) field)"

text \<open>The loop that returns at the first closed or unknown event.\<close>

fun policy_of :: "bytes list \<Rightarrow> bytes" where
  "policy_of [] = ReactorFailOpen"
| "policy_of (name # rest) =
     (case ReactorEventSpecFor name of
        None \<Rightarrow> ReactorFailClosed
      | Some spec \<Rightarrow> if es_DefaultFailurePolicy spec = ReactorFailClosed then ReactorFailClosed else policy_of rest)"

definition ReactorDefaultFailurePolicy :: "bytes list \<Rightarrow> bytes" where
  "ReactorDefaultFailurePolicy events = (if events = [] then ReactorFailClosed else policy_of events)"

definition ReactorRoutingKey :: "bytes \<Rightarrow> bytes \<Rightarrow> bytes" where
  "ReactorRoutingKey tenantID event = tenantID @ ''.'' @ event"

definition ReactorQueueName :: "bytes \<Rightarrow> bytes \<Rightarrow> bytes" where
  "ReactorQueueName tenantID reactorID = ''axiam.reactor.q.'' @ tenantID @ ''.'' @ reactorID"

section \<open>The allow-list and the policy\<close>

lemma spec_for_cases:
  "ReactorEventSpecFor name = Some s \<Longrightarrow> s \<in> set reactorEventRegistry \<and> es_Name s = name"
  by (auto simp: ReactorEventSpecFor_def find_Some_iff)

lemma cut_suffix_dot: "cut_suffix ''ext.'' (CHR ''.'') = Some ''ext''" "cut_suffix ''metadata.'' (CHR ''.'') = Some ''metadata''"
    "cut_suffix ''username'' (CHR ''.'') = None" "cut_suffix ''email'' (CHR ''.'') = None"
  by code_simp+

lemma namespace_field:
  "length f > n \<and> has_prefix f p \<longleftrightarrow> (\<exists>x. x \<noteq> [] \<and> f = p @ x)" if "n = length p"
  using that by (auto simp: has_prefix_iff)

definition allowed_of :: "bytes \<Rightarrow> (bool \<times> bytes list) option" where
  "allowed_of event = map_option (\<lambda>s. (es_Mutable s, es_MutableFields s)) (ReactorEventSpecFor event)"

lemma allowed_of_event:
  "allowed_of ''token.pre_issue'' = Some (True, [''ext.''])"
  "allowed_of ''login.post_auth'' = Some (False, [])"
  "allowed_of ''user.pre_create'' = Some (True, [''username'', ''email'', ''metadata.''])"
  "allowed_of ''user.pre_update'' = Some (True, [''username'', ''email'', ''metadata.''])"
  "allowed_of ''grant.pre_assign'' = Some (False, [])"
  by code_simp+

lemma registry_names: "map es_Name reactorEventRegistry =
    [''token.pre_issue'', ''login.post_auth'', ''user.pre_create'', ''user.pre_update'', ''grant.pre_assign'']"
  by code_simp

lemma allowed_of_other:
  "event \<notin> {''token.pre_issue'', ''login.post_auth'', ''user.pre_create'', ''user.pre_update'', ''grant.pre_assign''} \<Longrightarrow>
   allowed_of event = None"
proof (rule ccontr)
  assume "allowed_of event \<noteq> None"
  then obtain s where "ReactorEventSpecFor event = Some s" by (auto simp: allowed_of_def)
  then have "event \<in> set (map es_Name reactorEventRegistry)" using spec_for_cases by force
  moreover assume "event \<notin> {''token.pre_issue'', ''login.post_auth'', ''user.pre_create'', ''user.pre_update'', ''grant.pre_assign''}"
  ultimately show False unfolding registry_names by auto
qed

lemma field_allowed_iff:
  "(\<exists>s. ReactorEventSpecFor event = Some s \<and> PatchFieldAllowed s field) \<longleftrightarrow>
     (case allowed_of event of None \<Rightarrow> False | Some (m, fs) \<Rightarrow> m \<and> patch_field_in fs field)"
  by (auto simp: allowed_of_def PatchFieldAllowed_def split: option.splits)

text \<open>
  (C21) Which patch fields an event admits: no field on an event that is not mutable or not in the
  registry; on \<open>token.pre_issue\<close> exactly the names with something after \<open>ext.\<close>; on the two user
  events \<open>username\<close>, \<open>email\<close> and the names with something after \<open>metadata.\<close>.
\<close>

theorem patch_fields:
  "(\<exists>s. ReactorEventSpecFor event = Some s \<and> PatchFieldAllowed s field) \<longleftrightarrow>
     (event = ''token.pre_issue'' \<and> (\<exists>x. x \<noteq> [] \<and> field = ''ext.'' @ x)) \<or>
     (event \<in> {''user.pre_create'', ''user.pre_update''} \<and>
        (field = ''username'' \<or> field = ''email'' \<or> (\<exists>x. x \<noteq> [] \<and> field = ''metadata.'' @ x)))"
proof -
  have ext: "patch_field_in [''ext.''] field \<longleftrightarrow> (\<exists>x. x \<noteq> [] \<and> field = ''ext.'' @ x)"
    using namespace_field [of 4 "''ext.''" field] by (simp add: cut_suffix_dot eval_nat_numeral)
  have user: "patch_field_in [''username'', ''email'', ''metadata.''] field \<longleftrightarrow>
      field = ''username'' \<or> field = ''email'' \<or> (\<exists>x. x \<noteq> [] \<and> field = ''metadata.'' @ x)"
    using namespace_field [of 9 "''metadata.''" field] by (simp add: cut_suffix_dot eval_nat_numeral)
  have "(case allowed_of event of None \<Rightarrow> False | Some (m, fs) \<Rightarrow> m \<and> patch_field_in fs field) \<longleftrightarrow> 
     (event = ''token.pre_issue'' \<and> (\<exists>x. x \<noteq> [] \<and> field = ''ext.'' @ x)) \<or>
     (event \<in> {''user.pre_create'', ''user.pre_update''} \<and>
        (field = ''username'' \<or> field = ''email'' \<or> (\<exists>x. x \<noteq> [] \<and> field = ''metadata.'' @ x)))"
  proof (cases "event = ''token.pre_issue''")
    case True
    then show "?thesis" using ext by (simp only: allowed_of_event option.case prod.case) simp
  next
    case n1: False
    show ?thesis
    proof (cases "event \<in> {''login.post_auth'', ''grant.pre_assign''}")
      case True
      then have "allowed_of event = Some (False, [])" using allowed_of_event by auto
      with True show ?thesis by auto
    next
      case n2: False
      show ?thesis
      proof (cases "event \<in> {''user.pre_create'', ''user.pre_update''}")
        case True
        then have af: "allowed_of event = Some (True, [''username'', ''email'', ''metadata.''])"
          by (elim insertE emptyE) (simp_all only: allowed_of_event)
        show ?thesis unfolding af option.case prod.case user using True n1 by (simp only: simp_thms)
      next
        case n3: False
        then have "allowed_of event = None"
          using n1 n2 by (intro allowed_of_other) (simp only: insert_iff empty_iff de_Morgan_disj simp_thms)
        with n1 n3 show ?thesis by (simp only: option.case simp_thms)
      qed
    qed
  qed
  then show ?thesis unfolding field_allowed_iff .
qed

lemma policy_of_open: "policy_of events = ReactorFailOpen \<longleftrightarrow> (\<forall>e \<in> set events. e = ReactorEventTokenPreIssue)"
proof (induction events)
  case (Cons e es)
  then show ?case
    by (cases "e = ReactorEventTokenPreIssue")
      (auto simp: ReactorEventSpecFor_def reactorEventRegistry_def reactor_names ReactorFailOpen_def ReactorFailClosed_def)
qed simp

lemma policy_of_values: "policy_of events \<in> {ReactorFailOpen, ReactorFailClosed}"
  by (induction events) (auto split: option.split)

text \<open>
  (C22) The inherited failure policy is open exactly when every event is \<open>token.pre_issue\<close> and there
  is one, and closed otherwise: it depends on the set of the events alone, not on their order.
\<close>

theorem default_policy_strictest:
  "ReactorDefaultFailurePolicy events =
     (if events \<noteq> [] \<and> set events = {''token.pre_issue''} then ''fail_open'' else ''fail_closed'')"
proof (cases "events = []")
  case False
  then have "set events = {ReactorEventTokenPreIssue} \<longleftrightarrow> (\<forall>e \<in> set events. e = ReactorEventTokenPreIssue)"
    by (cases events) auto
  then show ?thesis using policy_of_open [of events] policy_of_values [of events] False
    by (auto simp: ReactorDefaultFailurePolicy_def ReactorFailOpen_def ReactorFailClosed_def reactor_names)
qed (simp add: ReactorDefaultFailurePolicy_def ReactorFailClosed_def)

end
