(* ===== verification/Reactor_Protocol.thy ===== *)
theory Reactor_Protocol
  imports Amqp_Hmac Reactor_Registry "HOL-Library.List_Lexorder"
begin

text \<open>
  \<open>amqp/reactor_protocol.go\<close>: the signed event a reactor receives, its verification, the answer a
  handler gives and the signed reply. HMAC-SHA256 is a function argument, as in \<open>Amqp_Hmac\<close>; the
  clock readings and the fresh nonce are arguments. A \<open>map[string]string\<close> is an association
  list, rendered in the order of its keys. Marshalling cannot fail here: every value rendered
  is a string, a number or a raw message that has been parsed.
\<close>

section \<open>Data\<close>

definition reactorChainPatchKey :: bytes where "reactorChainPatchKey = ''_reactor_patch''"
definition reactorDecisionAllow :: bytes where "reactorDecisionAllow = ''allow''"
definition reactorDecisionDeny :: bytes where "reactorDecisionDeny = ''deny''"
definition reactorDecisionMutate :: bytes where "reactorDecisionMutate = ''mutate''"
definition reactorKeyVersion :: nat where "reactorKeyVersion = 2"

lemmas reactor_decisions = reactorDecisionAllow_def reactorDecisionDeny_def reactorDecisionMutate_def

datatype reactor_error =
    ErrReactorKeyVersionTooOld
  | ErrReactorBadSignature
  | ErrReactorStale
  | ErrReactorReplay
  | ErrReactorTenantMismatch
  | ErrReactorUnknownEvent bytes
  | ErrReactorMalformed
  | ErrReactorRequireMFAUnsupported bytes
  | ErrReactorEmptyPatch

record reactorEventCanonical =
  rc_TenantID :: bytes
  rc_Event :: bytes
  rc_CorrelationID :: bytes
  rc_Payload :: "json option"
  rc_TimeoutMS :: nat
  rc_KeyVersion :: nat
  rc_Nonce :: bytes
  rc_IssuedAt :: bytes
  rc_HMACSignature :: "bytes option"

record reactorReplyCanonical =
  rr_CorrelationID :: bytes
  rr_TenantID :: bytes
  rr_Event :: bytes
  rr_Decision :: bytes
  rr_Reason :: "bytes option"
  rr_Patch :: "(bytes \<times> bytes) list"
  rr_RequireMFA :: bool
  rr_KeyVersion :: nat
  rr_Nonce :: bytes
  rr_IssuedAt :: bytes
  rr_HMACSignature :: "bytes option"

record ReactorEvent =
  rv_TenantID :: bytes
  rv_Event :: bytes
  rv_CorrelationID :: bytes
  rv_Payload :: json
  rv_Timeout :: duration
  rv_Nonce :: bytes
  rv_IssuedAt :: time
  rv_Deadline :: time

record ReactorAnswer =
  ra_decision :: bytes
  ra_reason :: bytes
  ra_patch :: "(bytes \<times> bytes) list"
  ra_requireMFA :: bool

section \<open>Canonical bytes\<close>

definition plain_member :: "bytes \<Rightarrow> bytes \<Rightarrow> bytes \<times> json" where
  "plain_member k s = str_member False k s"

text \<open>A \<open>*string\<close> without \<open>omitempty\<close>: \<open>null\<close> when it is nil.\<close>

definition signature_member :: "bytes option \<Rightarrow> bytes \<times> json" where
  "signature_member sig = (''hmac_signature'', (case sig of None \<Rightarrow> JNull | Some s \<Rightarrow> json_string False s))"

definition event_members :: "reactorEventCanonical \<Rightarrow> (bytes \<times> json) list" where
  "event_members r =
     [plain_member ''tenant_id'' (rc_TenantID r), plain_member ''event'' (rc_Event r),
      plain_member ''correlation_id'' (rc_CorrelationID r),
      (''payload'', (case rc_Payload r of None \<Rightarrow> JNull | Some p \<Rightarrow> p)),
      (''timeout_ms'', JNum (show_nat (rc_TimeoutMS r))), (''key_version'', JNum (show_nat (rc_KeyVersion r))),
      plain_member ''nonce'' (rc_Nonce r), plain_member ''issued_at'' (rc_IssuedAt r),
      signature_member (rc_HMACSignature r)]"

definition patch_json :: "(bytes \<times> bytes) list \<Rightarrow> json" where
  "patch_json p = JObj (map (\<lambda>(k, v). (escape_from False k, json_string False v)) (sort_key fst p))"

definition reply_members :: "reactorReplyCanonical \<Rightarrow> (bytes \<times> json) list" where
  "reply_members r =
     [plain_member ''correlation_id'' (rr_CorrelationID r), plain_member ''tenant_id'' (rr_TenantID r),
      plain_member ''event'' (rr_Event r), plain_member ''decision'' (rr_Decision r)]
     @ opt_member ''reason'' (json_string False) (rr_Reason r)
     @ (if rr_Patch r = [] then [] else [(''patch'', patch_json (rr_Patch r))])
     @ (if rr_RequireMFA r then [(''require_mfa'', JBool True)] else [])
     @ [(''key_version'', JNum (show_nat (rr_KeyVersion r))), plain_member ''nonce'' (rr_Nonce r),
        plain_member ''issued_at'' (rr_IssuedAt r), signature_member (rr_HMACSignature r)]"

text \<open>\<open>marshalReactorCanonical\<close>: compact, no HTML escapes, the encoder's newline removed.\<close>

definition marshalReactorCanonical :: "(bytes \<times> json) list \<Rightarrow> bytes" where
  "marshalReactorCanonical ms = print_json (JObj ms)"

definition signReactorBytes :: "(bytes \<Rightarrow> bytes \<Rightarrow> bytes) \<Rightarrow> bytes \<Rightarrow> bytes \<Rightarrow> bytes" where
  "signReactorBytes mac key canonical = hex_encode (mac key canonical)"

definition verifyReactorMAC :: "(bytes \<Rightarrow> bytes \<Rightarrow> bytes) \<Rightarrow> bytes \<Rightarrow> bytes \<Rightarrow> bytes \<Rightarrow> bool" where
  "verifyReactorMAC mac key canonical signatureHex =
     (case hex_decode signatureHex of None \<Rightarrow> False | Some expected \<Rightarrow> mac key canonical = expected)"

section \<open>Receiving an event\<close>

definition event_names :: "bytes list" where
  "event_names = [''tenant_id'', ''event'', ''correlation_id'', ''payload'', ''timeout_ms'', ''key_version'',
     ''nonce'', ''issued_at'', ''hmac_signature'']"

definition event_of_members :: "(bytes \<times> json) list \<Rightarrow> reactorEventCanonical option" where
  "event_of_members ms =
     (let f = (\<lambda>n. field_values event_names n ms) in
      Option.bind (dec_string [] (f ''tenant_id'')) (\<lambda>tenant.
      Option.bind (dec_string [] (f ''event'')) (\<lambda>event.
      Option.bind (dec_string [] (f ''correlation_id'')) (\<lambda>corr.
      Option.bind (dec_uint 32 0 (f ''timeout_ms'')) (\<lambda>timeout.
      Option.bind (dec_uint 8 0 (f ''key_version'')) (\<lambda>kv.
      Option.bind (dec_string [] (f ''nonce'')) (\<lambda>nonce.
      Option.bind (dec_string [] (f ''issued_at'')) (\<lambda>issued.
      Option.bind (dec_string_ptr None (f ''hmac_signature'')) (\<lambda>sig.
      Some \<lparr>rc_TenantID = tenant, rc_Event = event, rc_CorrelationID = corr,
            rc_Payload = dec_raw (f ''payload''), rc_TimeoutMS = timeout, rc_KeyVersion = kv,
            rc_Nonce = nonce, rc_IssuedAt = issued, rc_HMACSignature = sig\<rparr>)))))))))"

definition event_of_raw :: "time \<Rightarrow> time \<Rightarrow> json \<Rightarrow> reactorEventCanonical \<Rightarrow> ReactorEvent" where
  "event_of_raw now issuedAt payload raw =
     (let timeout = int (rc_TimeoutMS raw) * Millisecond in
      \<lparr>rv_TenantID = rc_TenantID raw, rv_Event = rc_Event raw, rv_CorrelationID = rc_CorrelationID raw,
       rv_Payload = payload, rv_Timeout = timeout, rv_Nonce = rc_Nonce raw, rv_IssuedAt = issuedAt,
       rv_Deadline = now + timeout\<rparr>)"

text \<open>The claim of the event's nonce; no guard, no claim.\<close>

definition claim_event :: "bytes \<Rightarrow> time \<Rightarrow> replayGuard option \<Rightarrow> bool \<times> replayGuard option" where
  "claim_event nonce now guard =
     (case guard of None \<Rightarrow> (True, None)
      | Some g \<Rightarrow> (let (fresh, g') = claimReactorNonce nonce now g in (fresh, Some g')))"

definition decodeReactorEvent ::
  "(bytes \<Rightarrow> bytes \<Rightarrow> bytes) \<Rightarrow> bytes \<Rightarrow> bytes \<Rightarrow> bytes \<Rightarrow> time \<Rightarrow> duration \<Rightarrow> replayGuard option \<Rightarrow>
   (reactor_error + ReactorEvent) \<times> replayGuard option" where
  "decodeReactorEvent mac key body tenantID now skew guard =
     (case Option.bind (body_members body) event_of_members of
        None \<Rightarrow> (Inl ErrReactorMalformed, guard)
      | Some raw \<Rightarrow>
        (case rc_HMACSignature raw of
           None \<Rightarrow> (Inl ErrReactorBadSignature, guard)
         | Some signature \<Rightarrow>
           (case rc_Payload raw of
              None \<Rightarrow> (Inl ErrReactorMalformed, guard)
            | Some payload \<Rightarrow>
              if rc_KeyVersion raw < minKeyVersion then (Inl ErrReactorKeyVersionTooOld, guard)
              else if \<not> verifyReactorMAC mac key
                     (marshalReactorCanonical (event_members (raw\<lparr>rc_HMACSignature := None\<rparr>))) signature
              then (Inl ErrReactorBadSignature, guard)
              else
                (case parse_rfc3339 (rc_IssuedAt raw) of
                   None \<Rightarrow> (Inl ErrReactorMalformed, guard)
                 | Some issuedAt \<Rightarrow>
                   if outside_window skew now issuedAt then (Inl ErrReactorStale, guard)
                   else
                     (let (fresh, guard') = claim_event (rc_Nonce raw) now guard in
                      if \<not> fresh then (Inl ErrReactorReplay, guard')
                      else if tenantID \<noteq> [] \<and> rc_TenantID raw \<noteq> tenantID then (Inl ErrReactorTenantMismatch, guard')
                      else if ReactorEventSpecFor (rc_Event raw) = None
                      then (Inl (ErrReactorUnknownEvent (rc_Event raw)), guard')
                      else (Inr (event_of_raw now issuedAt payload raw), guard'))))))"

text \<open>\<open>ReactorEvent.ChainPatch\<close>: the accumulated patch, when the payload carries one.\<close>

fun dec_string_values :: "(bytes \<times> json) list \<Rightarrow> (bytes \<times> bytes) list \<Rightarrow> (bytes \<times> bytes) list option" where
  "dec_string_values [] m = Some m"
| "dec_string_values ((k, v) # ms) m =
     (case dec_string [] [v] of None \<Rightarrow> None
      | Some s \<Rightarrow> dec_string_values ms (AList.update (unquote k) s m))"

text \<open>A \<open>map[string]string\<close> field: \<open>null\<close> sets it to nil, an object adds its members.\<close>

fun dec_string_map :: "(bytes \<times> bytes) list option \<Rightarrow> json list \<Rightarrow> (bytes \<times> bytes) list option option" where
  "dec_string_map cur [] = Some cur"
| "dec_string_map cur (JNull # vs) = dec_string_map None vs"
| "dec_string_map cur (JObj ms # vs) =
     (case dec_string_values ms (case cur of None \<Rightarrow> [] | Some m \<Rightarrow> m) of
        None \<Rightarrow> None | Some m \<Rightarrow> dec_string_map (Some m) vs)"
| "dec_string_map cur (v # vs) = None"

definition ChainPatch :: "ReactorEvent \<Rightarrow> (bytes \<times> bytes) list \<times> bool" where
  "ChainPatch e =
     (case Option.bind (struct_members (rv_Payload e))
             (\<lambda>ms. dec_string_map None (field_values [reactorChainPatchKey] reactorChainPatchKey ms)) of
        Some (Some patch) \<Rightarrow> (patch, True)
      | _ \<Rightarrow> ([], False))"

section \<open>Answers and replies\<close>

definition ReactorAllow :: ReactorAnswer where
  "ReactorAllow = \<lparr>ra_decision = reactorDecisionAllow, ra_reason = [], ra_patch = [], ra_requireMFA = False\<rparr>"

definition ReactorAllowWithStepUp :: ReactorAnswer where
  "ReactorAllowWithStepUp = \<lparr>ra_decision = reactorDecisionAllow, ra_reason = [], ra_patch = [], ra_requireMFA = True\<rparr>"

definition ReactorDeny :: "bytes \<Rightarrow> ReactorAnswer" where
  "ReactorDeny reason = \<lparr>ra_decision = reactorDecisionDeny, ra_reason = reason, ra_patch = [], ra_requireMFA = False\<rparr>"

definition ReactorMutate :: "(bytes \<times> bytes) list \<Rightarrow> ReactorAnswer" where
  "ReactorMutate patch = \<lparr>ra_decision = reactorDecisionMutate, ra_reason = [], ra_patch = patch, ra_requireMFA = False\<rparr>"

definition reply_of :: "ReactorEvent \<Rightarrow> ReactorAnswer \<Rightarrow> bytes \<Rightarrow> time \<Rightarrow> reactorReplyCanonical" where
  "reply_of ev answer nonce now =
     \<lparr>rr_CorrelationID = rv_CorrelationID ev, rr_TenantID = rv_TenantID ev, rr_Event = rv_Event ev,
      rr_Decision = ra_decision answer,
      rr_Reason = (if ra_decision answer = reactorDecisionDeny \<and> ra_reason answer \<noteq> []
                   then Some (ra_reason answer) else None),
      rr_Patch = ra_patch answer, rr_RequireMFA = ra_requireMFA answer, rr_KeyVersion = reactorKeyVersion,
      rr_Nonce = nonce, rr_IssuedAt = format_rfc3339_utc now, rr_HMACSignature = None\<rparr>"

definition buildReactorReply ::
  "(bytes \<Rightarrow> bytes \<Rightarrow> bytes) \<Rightarrow> bytes \<Rightarrow> ReactorEvent \<Rightarrow> ReactorAnswer \<Rightarrow> bytes \<Rightarrow> time \<Rightarrow> reactor_error + bytes" where
  "buildReactorReply mac key ev answer nonce now =
     (if ra_requireMFA answer \<and> rv_Event ev \<noteq> ReactorEventLoginPostAuth
      then Inl (ErrReactorRequireMFAUnsupported (rv_Event ev))
      else if ra_decision answer = reactorDecisionMutate \<and> ra_patch answer = [] then Inl ErrReactorEmptyPatch
      else
        (let reply = reply_of ev answer nonce now;
             signature = signReactorBytes mac key (marshalReactorCanonical (reply_members reply))
         in Inr (marshalReactorCanonical (reply_members (reply\<lparr>rr_HMACSignature := Some signature\<rparr>)))))"

section \<open>The layouts are well formed and unambiguous\<close>

definition reactor_field_names :: "bytes list" where
  "reactor_field_names = event_names @ [''decision'', ''reason'', ''patch'', ''require_mfa'']"

lemma reactor_names_plain: "list_all (\<lambda>k. escape_from False k = k) reactor_field_names"
  by code_simp

lemma reactor_name_raw: "k \<in> set reactor_field_names \<Longrightarrow> raw_string k"
  using reactor_names_plain raw_string_escape [of False k] by (auto simp: list_all_iff)

lemma reactor_raw_names [simp]:
  "raw_string ''tenant_id''" "raw_string ''event''" "raw_string ''correlation_id''" "raw_string ''payload''"
  "raw_string ''timeout_ms''" "raw_string ''key_version''" "raw_string ''nonce''" "raw_string ''issued_at''"
  "raw_string ''hmac_signature''" "raw_string ''decision''" "raw_string ''reason''" "raw_string ''patch''"
  "raw_string ''require_mfa''"
  by (rule reactor_name_raw, simp add: reactor_field_names_def event_names_def)+

lemma signature_member_wf: "wf_json (snd (signature_member sig))" "fst (signature_member sig) = ''hmac_signature''"
  by (auto simp: signature_member_def split: option.split)

lemma event_members_wf:
  assumes "\<And>p. rc_Payload r = Some p \<Longrightarrow> wf_json p"
  shows "wf_json (JObj (event_members r))"
  using assms
  by (cases "rc_HMACSignature r"; cases "rc_Payload r")
    (simp_all add: event_members_def signature_member_def plain_member_def str_member_def)

lemma patch_json_wf: "wf_json (patch_json p)"
  by (auto simp: patch_json_def raw_string_escape)

lemma reply_members_wf: "wf_json (JObj (reply_members r))"
  by (cases "rr_HMACSignature r"; cases "rr_Reason r")
    (simp_all add: reply_members_def signature_member_def plain_member_def str_member_def opt_member_def
      patch_json_wf)

definition valid_event :: "reactorEventCanonical \<Rightarrow> bool" where
  "valid_event r \<longleftrightarrow> valid_utf8 (rc_TenantID r) \<and> valid_utf8 (rc_Event r) \<and> valid_utf8 (rc_CorrelationID r) \<and>
     valid_utf8 (rc_Nonce r) \<and> valid_utf8 (rc_IssuedAt r) \<and> (\<forall>p. rc_Payload r = Some p \<longrightarrow> wf_json p)"

definition raw_event :: "bytes \<Rightarrow> reactorEventCanonical option" where
  "raw_event body = Option.bind (body_members body) event_of_members"

lemma raw_event_valid:
  assumes "raw_event body = Some r"
  shows "valid_event r"
proof -
  obtain ms where ms: "body_members body = Some ms" "event_of_members ms = Some r"
    using assms by (auto simp: raw_event_def bind_eq_Some_conv)
  have "wf_json p" if "rc_Payload r = Some p" for p
  proof -
    have "dec_raw (field_values event_names ''payload'' ms) = Some p"
      using ms(2) that by (auto simp: event_of_members_def Let_def bind_eq_Some_conv)
    then have "p \<in> set (field_values event_names ''payload'' ms)" by (auto simp: dec_raw_def split: if_splits)
    then show ?thesis using body_members_wf [OF ms(1)] by (auto simp: field_values_def)
  qed
  moreover have "valid_utf8 (rc_TenantID r) \<and> valid_utf8 (rc_Event r) \<and> valid_utf8 (rc_CorrelationID r) \<and>
      valid_utf8 (rc_Nonce r) \<and> valid_utf8 (rc_IssuedAt r)"
    using ms(2) by (auto simp: event_of_members_def Let_def bind_eq_Some_conv dest: dec_string_valid)
  ultimately show ?thesis by (simp add: valid_event_def)
qed

text \<open>The bytes the MAC of an event is computed over.\<close>

definition signed_event :: "reactorEventCanonical \<Rightarrow> bytes" where
  "signed_event r = marshalReactorCanonical (event_members (r\<lparr>rc_HMACSignature := None\<rparr>))"

lemma signed_event_inject:
  assumes "valid_event r" "valid_event r'" "rc_Payload r \<noteq> None" "rc_Payload r' \<noteq> None"
    and "signed_event r = signed_event r'"
  shows "r\<lparr>rc_HMACSignature := None\<rparr> = r'\<lparr>rc_HMACSignature := None\<rparr>"
proof -
  have "wf_json (JObj (event_members (r\<lparr>rc_HMACSignature := None\<rparr>)))"
      "wf_json (JObj (event_members (r'\<lparr>rc_HMACSignature := None\<rparr>)))"
    using assms(1,2) by (auto intro!: event_members_wf simp: valid_event_def simp del: wf_json.simps)
  from print_json_inject [OF this] assms(5)
  have "event_members (r\<lparr>rc_HMACSignature := None\<rparr>) = event_members (r'\<lparr>rc_HMACSignature := None\<rparr>)"
    by (simp add: signed_event_def marshalReactorCanonical_def)
  then have "rc_TenantID r = rc_TenantID r'" "rc_Event r = rc_Event r'" "rc_CorrelationID r = rc_CorrelationID r'"
      "rc_Nonce r = rc_Nonce r'" "rc_IssuedAt r = rc_IssuedAt r'" "rc_Payload r = rc_Payload r'"
      "rc_TimeoutMS r = rc_TimeoutMS r'" "rc_KeyVersion r = rc_KeyVersion r'"
    using assms(1-4) json_string_inject
    by (auto simp: event_members_def plain_member_def str_member_def valid_event_def split: option.splits)
  then show ?thesis by simp
qed

section \<open>What a verified event is\<close>

text \<open>Whether the body carries a valid signature of its own canonical bytes.\<close>

definition authentic :: "(bytes \<Rightarrow> bytes \<Rightarrow> bytes) \<Rightarrow> bytes \<Rightarrow> reactorEventCanonical \<Rightarrow> bool" where
  "authentic mac key raw \<longleftrightarrow>
     (\<exists>sig. rc_HMACSignature raw = Some sig \<and> verifyReactorMAC mac key (signed_event raw) sig)"

lemma decode_accepts:
  "fst (decodeReactorEvent mac key body tenantID now skew guard) = Inr ev \<longleftrightarrow>
     (\<exists>raw payload issuedAt. raw_event body = Some raw \<and> rc_Payload raw = Some payload \<and>
        minKeyVersion \<le> rc_KeyVersion raw \<and> authentic mac key raw \<and>
        parse_rfc3339 (rc_IssuedAt raw) = Some issuedAt \<and> \<not> outside_window skew now issuedAt \<and>
        fst (claim_event (rc_Nonce raw) now guard) \<and> (tenantID = [] \<or> rc_TenantID raw = tenantID) \<and>
        ReactorEventSpecFor (rc_Event raw) \<noteq> None \<and> ev = event_of_raw now issuedAt payload raw)"
  unfolding decodeReactorEvent_def raw_event_def [symmetric]
  by (cases "raw_event body")
    (auto simp: authentic_def signed_event_def Let_def case_prod_unfold split: option.splits)


lemma reactor_names_unquote: "list_all (\<lambda>k. unquote k = k) reactor_field_names"
  by code_simp

lemma reactor_unquote_names [simp]: "unquote ''event'' = ''event''" "unquote ''payload'' = ''payload''"
    "unquote ''timeout_ms'' = ''timeout_ms''"
  using reactor_names_unquote
  by (simp_all add: reactor_field_names_def event_names_def del: unquote.simps)

lemma event_fields_exact [simp]:
  "field_for event_names ''tenant_id'' = Some ''tenant_id''" "field_for event_names ''event'' = Some ''event''"
  "field_for event_names ''correlation_id'' = Some ''correlation_id''"
  "field_for event_names ''payload'' = Some ''payload''" "field_for event_names ''timeout_ms'' = Some ''timeout_ms''"
  "field_for event_names ''key_version'' = Some ''key_version''" "field_for event_names ''nonce'' = Some ''nonce''"
  "field_for event_names ''issued_at'' = Some ''issued_at''"
  "field_for event_names ''hmac_signature'' = Some ''hmac_signature''"
  by (rule field_for_exact, simp add: event_names_def)+

text \<open>A rendered event reads back as itself.\<close>

lemma event_reads_back:
  assumes "valid_event r" "rc_Payload r = Some p" "rc_TimeoutMS r < 2 ^ 32" "rc_KeyVersion r < 2 ^ 8"
    and "rc_HMACSignature r = Some sig" "valid_utf8 sig"
  shows "raw_event (marshalReactorCanonical (event_members r)) = Some r"
proof -
  have "wf_json (JObj (event_members r))" using assms(1) by (intro event_members_wf) (simp add: valid_event_def)
  then have "body_members (marshalReactorCanonical (event_members r)) = Some (unquote_keys (event_members r))"
    using body_members_obj by (simp only: marshalReactorCanonical_def obj_body_def)
  then show ?thesis
    using assms
    by (simp add: raw_event_def event_of_members_def event_members_def plain_member_def str_member_def
        signature_member_def valid_event_def field_values_simps dec_raw_def Let_def del: unquote.simps)
qed

definition sign_event :: "(bytes \<Rightarrow> bytes \<Rightarrow> bytes) \<Rightarrow> bytes \<Rightarrow> reactorEventCanonical \<Rightarrow> bytes" where
  "sign_event mac key r =
     marshalReactorCanonical (event_members (r\<lparr>rc_HMACSignature := Some (hex_encode (mac key (signed_event r)))\<rparr>))"

lemma sign_event_authentic:
  assumes "valid_event r" "rc_Payload r = Some p" "rc_TimeoutMS r < 2 ^ 32" "rc_KeyVersion r < 2 ^ 8"
  shows "\<exists>raw. raw_event (sign_event mac key r) = Some raw \<and> authentic mac key raw \<and>
    raw\<lparr>rc_HMACSignature := None\<rparr> = r\<lparr>rc_HMACSignature := None\<rparr>"
proof -
  let ?raw = "r\<lparr>rc_HMACSignature := Some (hex_encode (mac key (signed_event r)))\<rparr>"
  have "raw_event (sign_event mac key r) = Some ?raw"
    unfolding sign_event_def using assms hex_encode_plain [of False "mac key (signed_event r)"]
    by (intro event_reads_back [where p = p and sig = "hex_encode (mac key (signed_event r))"])
      (simp_all add: valid_event_def)
  moreover have "signed_event ?raw = signed_event r" by (simp add: signed_event_def)
  then have "authentic mac key ?raw"
    unfolding authentic_def
    by (intro exI [of _ "hex_encode (mac key (signed_event r))"]) (simp add: verifyReactorMAC_def)
  ultimately show ?thesis by auto
qed

section \<open>Properties\<close>


definition example_event :: reactorEventCanonical where
  "example_event = \<lparr>rc_TenantID = ''t1'', rc_Event = ''token.pre_issue'', rc_CorrelationID = ''c1'',
     rc_Payload = Some (JObj []), rc_TimeoutMS = 500, rc_KeyVersion = 2, rc_Nonce = ''n1'',
     rc_IssuedAt = ''2023-11-14T22:13:20Z'', rc_HMACSignature = None\<rparr>"

definition example_now :: time where "example_now = 1700000000 * Second"

lemma example_event_valid:
  "valid_event example_event" "rc_Payload example_event = Some (JObj [])"
  "rc_TimeoutMS example_event < 2 ^ 32" "rc_KeyVersion example_event < 2 ^ 8"
proof -
  show "valid_event example_event" by (simp add: valid_event_def example_event_def) code_simp
qed (simp_all add: example_event_def)

lemma example_event_accepted:
  "fst (decodeReactorEvent mac key (sign_event mac key example_event) ''t1'' example_now defaultSkew None)
    = Inr (event_of_raw example_now example_now (JObj []) example_event)"
proof -
  obtain raw where raw: "raw_event (sign_event mac key example_event) = Some raw" "authentic mac key raw"
      "raw\<lparr>rc_HMACSignature := None\<rparr> = example_event\<lparr>rc_HMACSignature := None\<rparr>"
    using sign_event_authentic [OF example_event_valid] by blast
  have f: "rc_TenantID raw = ''t1''" "rc_Event raw = ''token.pre_issue''" "rc_CorrelationID raw = ''c1''"
      "rc_Payload raw = Some (JObj [])" "rc_TimeoutMS raw = 500" "rc_KeyVersion raw = 2" "rc_Nonce raw = ''n1''"
      "rc_IssuedAt raw = ''2023-11-14T22:13:20Z''"
    using raw(3) by (cases raw, simp add: example_event_def)+
  have "parse_rfc3339 ''2023-11-14T22:13:20Z'' = Some example_now" by code_simp
  moreover have "\<not> outside_window defaultSkew example_now example_now" by code_simp
  moreover have "ReactorEventSpecFor ''token.pre_issue'' \<noteq> None" by code_simp
  ultimately have "\<exists>raw p i. raw_event (sign_event mac key example_event) = Some raw \<and> rc_Payload raw = Some p \<and>
        minKeyVersion \<le> rc_KeyVersion raw \<and> authentic mac key raw \<and>
        parse_rfc3339 (rc_IssuedAt raw) = Some i \<and> \<not> outside_window defaultSkew example_now i \<and>
        fst (claim_event (rc_Nonce raw) example_now None) \<and> (''t1'' = [] \<or> rc_TenantID raw = ''t1'') \<and>
        ReactorEventSpecFor (rc_Event raw) \<noteq> None \<and>
        event_of_raw example_now example_now (JObj []) example_event = event_of_raw example_now i p raw"
    using raw(1,2) f
    by (intro exI [of _ raw] exI [of _ "JObj []"] exI [of _ example_now])
      (simp add: claim_event_def minKeyVersion_def event_of_raw_def example_event_def)
  then show ?thesis unfolding decode_accepts .
qed


text \<open>
  (C35) An event that is not authentic, malformed or signed under an old key version is refused as
  such, and its nonce is not claimed: a forged delivery cannot burn the nonce of the genuine one.
\<close>

theorem forged_event_keeps_nonce:
  assumes "\<forall>raw. raw_event body = Some raw \<longrightarrow> \<not> authentic mac key raw"
  shows "decodeReactorEvent mac key body tenantID now skew guard
    \<in> {Inl ErrReactorMalformed, Inl ErrReactorBadSignature, Inl ErrReactorKeyVersionTooOld} \<times> {guard}"
  using assms unfolding decodeReactorEvent_def raw_event_def [symmetric]
  by (cases "raw_event body")
    (auto simp: authentic_def signed_event_def split: option.splits)

theorem forged_event_keeps_nonce_witness:
  "decodeReactorEvent example_mac ''key'' (marshalReactorCanonical (event_members (example_event\<lparr>rc_HMACSignature := Some ''00''\<rparr>)))
     ''t1'' example_now defaultSkew (Some (newReplayGuard defaultSkew))
   \<in> {Inl ErrReactorMalformed, Inl ErrReactorBadSignature, Inl ErrReactorKeyVersionTooOld} \<times> {Some (newReplayGuard defaultSkew)}"
proof (rule forged_event_keeps_nonce)
  let ?r = "example_event\<lparr>rc_HMACSignature := Some ''00''\<rparr>"
  have zeros: "valid_utf8 ''00''" "hex_decode ''00'' = Some [CHR 0x00]" by code_simp+
  have "raw_event (marshalReactorCanonical (event_members ?r)) = Some ?r"
  proof (rule event_reads_back [OF _ _ _ _ _ zeros(1)])
    show "valid_event ?r" using example_event_valid(1) by (simp add: valid_event_def)
  qed (use example_event_valid in simp_all)
  moreover have "\<not> authentic example_mac ''key'' ?r"
  proof -
    have "length (example_mac ''key'' b) \<noteq> length [CHR 0x00]" for b by (simp add: example_mac_def)
    then have "example_mac ''key'' b \<noteq> [CHR 0x00]" for b by metis
    then show ?thesis by (simp add: authentic_def verifyReactorMAC_def zeros del: hex_decode.simps)
  qed
  ultimately show "\<forall>raw. raw_event (marshalReactorCanonical (event_members ?r)) = Some raw \<longrightarrow>
      \<not> authentic example_mac ''key'' raw" by simp
qed

text \<open>
  (C21) A reply the SDK builds is a JSON object whose last member is the MAC, in hex, of the same object
  with that member null; it carries the event's own correlation id, tenant and event, the answer's
  decision, a patch exactly when the answer has one and \<open>require_mfa\<close> only on \<open>login.post_auth\<close>.
\<close>

theorem reply_signs_the_answer:
  assumes "buildReactorReply mac key ev answer nonce now = Inr body"
  shows "\<exists>ms sig. parse_json body = Some (JObj (ms @ [(''hmac_signature'', JStr sig)])) \<and>
    verifyReactorMAC mac key (print_json (JObj (ms @ [(''hmac_signature'', JNull)]))) sig \<and>
    map_of ms ''correlation_id'' = Some (json_string False (rv_CorrelationID ev)) \<and>
    map_of ms ''tenant_id'' = Some (json_string False (rv_TenantID ev)) \<and>
    map_of ms ''event'' = Some (json_string False (rv_Event ev)) \<and>
    map_of ms ''decision'' = Some (json_string False (ra_decision answer)) \<and>
    map_of ms ''patch'' = (if ra_patch answer = [] then None else Some (patch_json (ra_patch answer))) \<and>
    map_of ms ''reason'' = (if ra_decision answer = ''deny'' \<and> ra_reason answer \<noteq> []
      then Some (json_string False (ra_reason answer)) else None) \<and>
    map_of ms ''require_mfa'' = (if ra_requireMFA answer then Some (JBool True) else None) \<and>
    (ra_requireMFA answer \<longrightarrow> rv_Event ev = ''login.post_auth'') \<and>
    (ra_decision answer = ''mutate'' \<longrightarrow> ra_patch answer \<noteq> [])"
proof -
  let ?r = "reply_of ev answer nonce now"
  let ?sig = "signReactorBytes mac key (marshalReactorCanonical (reply_members ?r))"
  have guards: "ra_requireMFA answer \<longrightarrow> rv_Event ev = ''login.post_auth''"
      "ra_decision answer = ''mutate'' \<longrightarrow> ra_patch answer \<noteq> []"
    and body: "body = print_json (JObj (reply_members (?r\<lparr>rr_HMACSignature := Some ?sig\<rparr>)))"
    using assms by (auto simp: buildReactorReply_def Let_def reactor_names reactor_decisions
        marshalReactorCanonical_def split: if_splits)
  define ms where "ms = butlast (reply_members ?r)"
  have split: "reply_members (?r\<lparr>rr_HMACSignature := s\<rparr>) = ms @ [signature_member s]" for s
    by (simp add: reply_members_def ms_def butlast_append)
  have mac: "reply_members ?r = ms @ [(''hmac_signature'', JNull)]"
    using split [of None] by (simp add: signature_member_def reply_of_def)
  have "json_string False ?sig = JStr ?sig"
    by (simp add: json_string_def signReactorBytes_def hex_encode_plain)
  then have "reply_members (?r\<lparr>rr_HMACSignature := Some ?sig\<rparr>) = ms @ [(''hmac_signature'', JStr ?sig)]"
    by (simp add: split signature_member_def)
  then have "parse_json body = Some (JObj (ms @ [(''hmac_signature'', JStr ?sig)]))"
    unfolding body using parse_print [OF reply_members_wf] by metis
  moreover have "verifyReactorMAC mac key (print_json (JObj (ms @ [(''hmac_signature'', JNull)]))) ?sig"
    by (simp add: verifyReactorMAC_def signReactorBytes_def mac marshalReactorCanonical_def)
  moreover have "map_of ms ''correlation_id'' = Some (json_string False (rv_CorrelationID ev)) \<and>
    map_of ms ''tenant_id'' = Some (json_string False (rv_TenantID ev)) \<and>
    map_of ms ''event'' = Some (json_string False (rv_Event ev)) \<and>
    map_of ms ''decision'' = Some (json_string False (ra_decision answer)) \<and>
    map_of ms ''patch'' = (if ra_patch answer = [] then None else Some (patch_json (ra_patch answer))) \<and>
    map_of ms ''reason'' = (if ra_decision answer = ''deny'' \<and> ra_reason answer \<noteq> []
      then Some (json_string False (ra_reason answer)) else None) \<and>
    map_of ms ''require_mfa'' = (if ra_requireMFA answer then Some (JBool True) else None)"
    by (simp add: ms_def reply_members_def reply_of_def plain_member_def str_member_def opt_member_def
        reactor_decisions butlast_append)
  ultimately show ?thesis using guards by blast
qed

theorem reply_signs_the_answer_witness:
  "\<exists>body ms sig. buildReactorReply example_mac ''key'' (event_of_raw example_now example_now (JObj []) example_event)
      (ReactorDeny ''no <way>'') ''n2'' example_now = Inr body \<and>
    parse_json body = Some (JObj (ms @ [(''hmac_signature'', JStr sig)])) \<and>
    map_of ms ''reason'' = Some (JStr ''no <way>'')"
proof -
  obtain body where body: "buildReactorReply example_mac ''key'' (event_of_raw example_now example_now (JObj []) example_event)
      (ReactorDeny ''no <way>'') ''n2'' example_now = Inr body"
    by (simp add: buildReactorReply_def ReactorDeny_def Let_def reactor_decisions)
  have "json_string False ''no <way>'' = JStr ''no <way>''" by code_simp
  then show ?thesis using reply_signs_the_answer [OF body] body by (auto simp: ReactorDeny_def reactor_decisions)
qed

end
