(* ===== verification/Reactor.thy ===== *)
theory Reactor
  imports Reactor_Protocol Retry
begin

text \<open>
  \<open>amqp/reactor.go\<close>, \<open>amqp/reactor_mux.go\<close> and \<open>amqp/reactor_transport.go\<close>: the handler table, the
  configuration of a reactor, what becomes of one delivery, the session and the reconnect loop.
  The handler is a function of the event, its outcome a value, a panic included; the clock
  readings, the nonce, the jitter and the broker's answers are arguments. Deliveries are served
  concurrently, but the one thing they share, the nonce set, is touched only while an event
  is decoded, under its lock: a run lists the deliveries in the order of those decodings.
\<close>

section \<open>The handler table\<close>

datatype handler_error =
    HandlerFailed bytes
  | ErrReactorNoHandler bytes
  | errReactorHandlerPanicked

datatype handler_outcome = HandlerReturned ReactorAnswer "handler_error option" | HandlerPanicked

type_synonym ReactorHandler = "ReactorEvent \<Rightarrow> handler_outcome"

datatype mux_error = NilHandler bytes | NotHookable bytes "bytes list" | AlreadyBound bytes

datatype mux_failure = MuxErrors "mux_error list" | MuxEmpty

record 'h ReactorMux =
  rm_handlers :: "(bytes \<times> 'h) list"
  rm_order :: "bytes list"
  rm_errs :: "mux_error list"

definition NewReactorMux :: "'h ReactorMux" where
  "NewReactorMux = \<lparr>rm_handlers = [], rm_order = [], rm_errs = []\<rparr>"

definition reactorRegistryNames :: "bytes list" where
  "reactorRegistryNames = sort (map es_Name ReactorEvents)"

definition mux_on :: "bytes \<Rightarrow> 'h option \<Rightarrow> 'h ReactorMux \<Rightarrow> 'h ReactorMux" where
  "mux_on event handler m =
     (case handler of
        None \<Rightarrow> m\<lparr>rm_errs := rm_errs m @ [NilHandler event]\<rparr>
      | Some h \<Rightarrow>
        if ReactorEventSpecFor event = None
        then m\<lparr>rm_errs := rm_errs m @ [NotHookable event reactorRegistryNames]\<rparr>
        else if map_of (rm_handlers m) event \<noteq> None then m\<lparr>rm_errs := rm_errs m @ [AlreadyBound event]\<rparr>
        else m\<lparr>rm_handlers := AList.update event h (rm_handlers m), rm_order := rm_order m @ [event]\<rparr>)"

definition mux_events :: "'h ReactorMux \<Rightarrow> bytes list" where
  "mux_events m = rm_order m"

definition zeroAnswer :: ReactorAnswer where
  "zeroAnswer = \<lparr>ra_decision = [], ra_reason = [], ra_patch = [], ra_requireMFA = False\<rparr>"

definition mux_dispatch :: "(bytes \<times> ReactorHandler) list \<Rightarrow> ReactorHandler" where
  "mux_dispatch bound event =
     (case map_of bound (rv_Event event) of
        None \<Rightarrow> HandlerReturned zeroAnswer (Some (ErrReactorNoHandler (rv_Event event)))
      | Some h \<Rightarrow> h event)"

definition mux_handler :: "ReactorHandler ReactorMux \<Rightarrow> mux_failure + ReactorHandler" where
  "mux_handler m =
     (if rm_errs m \<noteq> [] then Inl (MuxErrors (rm_errs m))
      else if rm_handlers m = [] then Inl MuxEmpty
      else Inr (mux_dispatch (rm_handlers m)))"

section \<open>Configuration\<close>

record ReactorConfig =
  cf_TenantID :: bytes
  cf_ReactorID :: bytes
  cf_Queue :: bytes
  cf_SigningKey :: bytes
  cf_Mode :: bytes

datatype config_error = TenantRequired | QueueRequired | SigningKeyRequired | BadMode

definition queueName :: "ReactorConfig \<Rightarrow> bytes" where
  "queueName c = (if cf_Queue c \<noteq> [] then cf_Queue c else ReactorQueueName (cf_TenantID c) (cf_ReactorID c))"

definition reactor_validate :: "ReactorConfig \<Rightarrow> config_error option" where
  "reactor_validate c =
     (if cf_TenantID c = [] then Some TenantRequired
      else if cf_Queue c = [] \<and> cf_ReactorID c = [] then Some QueueRequired
      else if cf_SigningKey c = [] then Some SigningKeyRequired
      else if cf_Mode c \<in> {[], ReactorModeIntercept, ReactorModeListen} then None
      else Some BadMode)"

text \<open>Whether a logger and a hook are given is all a reactor's own behaviour depends on.\<close>

record reactorConfig =
  rk_skew :: duration
  rk_logger :: bool
  rk_telemetry :: bool
  rk_drainGrace :: duration

datatype ReactorOption =
    WithReactorSkew duration
  | WithReactorSecurityLogger bool
  | WithReactorTelemetryHook bool
  | WithReactorDrainGrace duration

fun apply_reactor_option :: "ReactorOption \<Rightarrow> reactorConfig \<Rightarrow> reactorConfig" where
  "apply_reactor_option (WithReactorSkew skew) c = (if skew > 0 then c\<lparr>rk_skew := skew\<rparr> else c)"
| "apply_reactor_option (WithReactorSecurityLogger l) c = (if l then c\<lparr>rk_logger := True\<rparr> else c)"
| "apply_reactor_option (WithReactorTelemetryHook h) c = (if h then c\<lparr>rk_telemetry := True\<rparr> else c)"
| "apply_reactor_option (WithReactorDrainGrace d) c = (if d > 0 then c\<lparr>rk_drainGrace := d\<rparr> else c)"

definition reactorDefaultDrainGrace :: duration where
  "reactorDefaultDrainGrace = ReactorChainCeilingMS * Millisecond"

definition reactor_config :: "ReactorOption list \<Rightarrow> reactorConfig" where
  "reactor_config opts = fold apply_reactor_option opts
     \<lparr>rk_skew = defaultSkew, rk_logger = False, rk_telemetry = False, rk_drainGrace = reactorDefaultDrainGrace\<rparr>"

section \<open>One delivery\<close>

datatype ReactorTelemetryEvent =
    ReactorReceivedEvent bytes bytes
  | ReactorRejectedEvent bytes bytes
  | ReactorRepliedEvent bytes bytes bytes duration
  | ReactorNoReplyEvent bytes bytes bytes
  | ReactorReconnectEvent nat duration bytes

datatype reactor_action =
    SecurityWarn bytes
  | Telemetry ReactorTelemetryEvent
  | Handled ReactorEvent
  | PublishReply bytes bytes bytes
  | ReactorAck
  | ReactorNack

record reactor_delivery =
  rd_Body :: bytes
  rd_ReplyTo :: bytes
  rd_CorrelationID :: bytes

text \<open>The readings and answers one dispatch gets from outside.\<close>

record dispatch_env =
  de_started :: time
  de_answered :: time
  de_nonce :: bytes
  de_issued :: time
  de_ended :: time
  de_publish :: "bytes \<Rightarrow> bytes \<Rightarrow> bytes \<Rightarrow> bool"

fun reactorRejectionReason :: "reactor_error \<Rightarrow> bytes" where
  "reactorRejectionReason ErrReactorKeyVersionTooOld = ''key_version_too_old''"
| "reactorRejectionReason ErrReactorBadSignature = ''bad_signature''"
| "reactorRejectionReason ErrReactorStale = ''stale''"
| "reactorRejectionReason ErrReactorReplay = ''replay''"
| "reactorRejectionReason ErrReactorTenantMismatch = ''tenant_mismatch''"
| "reactorRejectionReason (ErrReactorUnknownEvent _) = ''unknown_event''"
| "reactorRejectionReason _ = ''malformed''"

fun invokeReactorHandler :: "ReactorHandler \<Rightarrow> ReactorEvent \<Rightarrow> ReactorAnswer \<times> handler_error option" where
  "invokeReactorHandler handler event =
     (case handler event of
        HandlerReturned answer err \<Rightarrow> (answer, err)
      | HandlerPanicked \<Rightarrow> (zeroAnswer, Some errReactorHandlerPanicked))"

definition emitReactorTelemetry :: "reactorConfig \<Rightarrow> ReactorTelemetryEvent \<Rightarrow> reactor_action list" where
  "emitReactorTelemetry rc e = (if rk_telemetry rc then [Telemetry e] else [])"

definition warn :: "reactorConfig \<Rightarrow> bytes \<Rightarrow> reactor_action list" where
  "warn rc m = (if rk_logger rc then [SecurityWarn m] else [])"

definition no_reply :: "reactorConfig \<Rightarrow> ReactorEvent \<Rightarrow> bytes \<Rightarrow> reactor_action list" where
  "no_reply rc ev reason =
     emitReactorTelemetry rc (ReactorNoReplyEvent (rv_Event ev) (rv_CorrelationID ev) reason) @ [ReactorAck]"

text \<open>What follows the handler's return.\<close>

definition reactor_answer ::
  "(bytes \<Rightarrow> bytes \<Rightarrow> bytes) \<Rightarrow> ReactorConfig \<Rightarrow> reactorConfig \<Rightarrow> dispatch_env \<Rightarrow> reactor_delivery \<Rightarrow>
   ReactorEvent \<Rightarrow> ReactorAnswer \<Rightarrow> handler_error option \<Rightarrow> reactor_action list" where
  "reactor_answer mac cfg rc env d ev answer herr =
     (if cf_Mode cfg = ReactorModeListen then no_reply rc ev ''listen_mode''
      else case herr of
        Some err \<Rightarrow> no_reply rc ev (if err = errReactorHandlerPanicked then ''handler_panic'' else ''handler_error'')
      | None \<Rightarrow>
        if \<not> de_answered env < rv_Deadline ev then no_reply rc ev ''deadline_passed''
        else (case buildReactorReply mac (cf_SigningKey cfg) ev answer (de_nonce env) (de_issued env) of
            Inl _ \<Rightarrow> no_reply rc ev ''unsendable_answer''
          | Inr body \<Rightarrow>
            PublishReply (rd_ReplyTo d) (rd_CorrelationID d) body #
            (if \<not> de_publish env (rd_ReplyTo d) (rd_CorrelationID d) body then no_reply rc ev ''publish_failed''
             else emitReactorTelemetry rc (ReactorRepliedEvent (rv_Event ev) (rv_CorrelationID ev)
                    (ra_decision answer) (time_sub (de_ended env) (de_started env))) @ [ReactorAck])))"

definition dispatchReactorDelivery ::
  "(bytes \<Rightarrow> bytes \<Rightarrow> bytes) \<Rightarrow> ReactorConfig \<Rightarrow> reactorConfig \<Rightarrow> ReactorHandler \<Rightarrow> dispatch_env \<Rightarrow>
   reactor_delivery \<Rightarrow> replayGuard \<Rightarrow> reactor_action list \<times> replayGuard option" where
  "dispatchReactorDelivery mac cfg rc handler env d guard =
     (case decodeReactorEvent mac (cf_SigningKey cfg) (rd_Body d) (cf_TenantID cfg) (de_started env) (rk_skew rc) (Some guard) of
        (Inl err, guard') \<Rightarrow>
          (warn rc (''axiam_sdk_security: reactor event refused ('' @ reactorRejectionReason err @ ''); nacking without requeue'')
           @ emitReactorTelemetry rc (ReactorRejectedEvent [] (reactorRejectionReason err)) @ [ReactorNack], guard')
      | (Inr ev, guard') \<Rightarrow>
          (emitReactorTelemetry rc (ReactorReceivedEvent (rv_Event ev) (rv_CorrelationID ev))
           @ Handled ev #
           (case invokeReactorHandler handler ev of (answer, herr) \<Rightarrow> reactor_answer mac cfg rc env d ev answer herr), guard'))"

section \<open>Session and reconnect loop\<close>

datatype session_error = InsecureURL | TransportFailed bytes | DeliveryChannelClosed | ContextDone

datatype session_event = SessionCancelled | SessionClosed | Delivered dispatch_env reactor_delivery

text \<open>
  \<open>runReactorSession\<close>: the dial, the subscription, then the \<open>select\<close> loop, over the events it
  receives; the events exhausted, it still waits (no result).
\<close>

fun session_loop ::
  "(bytes \<Rightarrow> bytes \<Rightarrow> bytes) \<Rightarrow> ReactorConfig \<Rightarrow> reactorConfig \<Rightarrow> ReactorHandler \<Rightarrow> session_event list \<Rightarrow> replayGuard \<Rightarrow>
   reactor_action list list \<times> session_error option \<times> replayGuard" where
  "session_loop mac cfg rc handler [] guard = ([], None, guard)"
| "session_loop mac cfg rc handler (SessionCancelled # es) guard = ([], Some ContextDone, guard)"
| "session_loop mac cfg rc handler (SessionClosed # es) guard = ([], Some DeliveryChannelClosed, guard)"
| "session_loop mac cfg rc handler (Delivered env d # es) guard =
     (let (acts, guard') = dispatchReactorDelivery mac cfg rc handler env d guard;
          (rest, err, guard'') = session_loop mac cfg rc handler es (case guard' of None \<Rightarrow> guard | Some g \<Rightarrow> g)
      in (acts # rest, err, guard''))"

definition runReactorSession ::
  "(bytes \<Rightarrow> bytes \<Rightarrow> bytes) \<Rightarrow> ReactorConfig \<Rightarrow> reactorConfig \<Rightarrow> ReactorHandler \<Rightarrow> session_error option \<Rightarrow> session_error option \<Rightarrow>
   session_event list \<Rightarrow> replayGuard \<Rightarrow> reactor_action list list \<times> session_error option \<times> replayGuard" where
  "runReactorSession mac cfg rc handler dial_err consume_err es guard =
     (case dial_err of Some err \<Rightarrow> ([], Some err, guard)
      | None \<Rightarrow> (case consume_err of Some err \<Rightarrow> ([], Some err, guard)
        | None \<Rightarrow> session_loop mac cfg rc handler es guard))"

fun reactorRedactedReason :: "session_error option \<Rightarrow> bytes" where
  "reactorRedactedReason None = ''session_closed''"
| "reactorRedactedReason (Some InsecureURL) = ''insecure_url''"
| "reactorRedactedReason (Some _) = ''transport_error''"

definition reactorReconnectBaseDelay :: duration where "reactorReconnectBaseDelay = 200 * Millisecond"
definition reactorReconnectMaxDelay :: duration where "reactorReconnectMaxDelay = 5 * Second"

text \<open>The backoff of \<open>reactorReconnectDelay\<close>, the 64-bit shift included, and the delay.\<close>

definition reactor_backoff :: "nat \<Rightarrow> duration" where
  "reactor_backoff n =
     (let attempt = (if n < 1 then 1 else n) in
      if attempt < 32 then
        (let d = shl64 reactorReconnectBaseDelay (attempt - 1)
         in if d > 0 \<and> d < reactorReconnectMaxDelay then d else reactorReconnectMaxDelay)
      else reactorReconnectMaxDelay)"

definition reactorReconnectDelay :: "nat \<Rightarrow> rat \<Rightarrow> duration" where
  "reactorReconnectDelay attempt fraction = scale (reactor_backoff attempt) (clamp_fraction fraction)"

text \<open>One turn of the loop of \<open>ReactorServe\<close>: what the context and the session did.\<close>

record serve_turn =
  sv_cancelled_before :: bool
  sv_session :: "session_error option"
  sv_cancelled_after :: bool
  sv_jitter :: rat
  sv_cancelled_wait :: bool

fun serve_loop :: "reactorConfig \<Rightarrow> nat \<Rightarrow> serve_turn list \<Rightarrow> reactor_action list \<times> bool" where
  "serve_loop rc attempt [] = ([], False)"
| "serve_loop rc attempt (t # ts) =
     (if sv_cancelled_before t \<or> sv_cancelled_after t then ([], True)
      else
        (let attempt' = attempt + 1;
             delay = reactorReconnectDelay attempt' (sv_jitter t);
             acts = emitReactorTelemetry rc (ReactorReconnectEvent attempt' delay (reactorRedactedReason (sv_session t)))
         in if sv_cancelled_wait t then (acts, True)
            else (let (rest, done) = serve_loop rc attempt' ts in (acts @ rest, done))))"

datatype serve_error = DialerRequired | HandlerRequired | ConfigInvalid config_error | ServeCancelled

definition ReactorServe ::
  "bool \<Rightarrow> ReactorConfig \<Rightarrow> ReactorHandler option \<Rightarrow> ReactorOption list \<Rightarrow> serve_turn list \<Rightarrow>
   reactor_action list \<times> serve_error option" where
  "ReactorServe dialer cfg handler opts turns =
     (if \<not> dialer then ([], Some DialerRequired)
      else if handler = None then ([], Some HandlerRequired)
      else case reactor_validate cfg of
        Some err \<Rightarrow> ([], Some (ConfigInvalid err))
      | None \<Rightarrow> (let (acts, done) = serve_loop (reactor_config opts) 0 turns
                 in (acts, if done then Some ServeCancelled else None)))"

section \<open>Transport\<close>

record amqpsDialerConfig =
  ad_caPEM :: bytes
  ad_heartbeat :: duration
  ad_prefetch :: int
  ad_dialTO :: duration

datatype AMQPSDialerOption = WithReactorCABundle bytes | WithReactorHeartbeat duration | WithReactorPrefetch int

fun apply_dialer_option :: "AMQPSDialerOption \<Rightarrow> amqpsDialerConfig \<Rightarrow> amqpsDialerConfig" where
  "apply_dialer_option (WithReactorCABundle pem) c = c\<lparr>ad_caPEM := pem\<rparr>"
| "apply_dialer_option (WithReactorHeartbeat d) c = (if d > 0 then c\<lparr>ad_heartbeat := d\<rparr> else c)"
| "apply_dialer_option (WithReactorPrefetch n) c = (if n > 0 then c\<lparr>ad_prefetch := n\<rparr> else c)"

definition dialer_config :: "AMQPSDialerOption list \<Rightarrow> amqpsDialerConfig" where
  "dialer_config opts = fold apply_dialer_option opts
     \<lparr>ad_caPEM = [], ad_heartbeat = 10 * Second, ad_prefetch = 10, ad_dialTO = 30 * Second\<rparr>"

datatype dial_error = DialInsecureURL | DialBadCABundle | DialConnect bytes | DialChannel bytes | DialQos bytes

text \<open>What the broker was asked for: TLS 1.3 at least, the given roots or the system's.\<close>

datatype dial_action =
    DialConfig bytes duration duration "bytes option"
  | OpenChannel
  | SetQos int
  | CloseChannel
  | CloseConnection

definition newAMQP091Transport :: "bytes option \<Rightarrow> (int \<Rightarrow> bytes option) \<Rightarrow> int \<Rightarrow> dial_action list \<times> dial_error option" where
  "newAMQP091Transport channel_err qos_err prefetch =
     (case channel_err of
        Some e \<Rightarrow> ([OpenChannel, CloseConnection], Some (DialChannel e))
      | None \<Rightarrow>
        (case qos_err prefetch of
           Some e \<Rightarrow> ([OpenChannel, SetQos prefetch, CloseChannel, CloseConnection], Some (DialQos e))
         | None \<Rightarrow> ([OpenChannel, SetQos prefetch], None)))"

definition AMQPSDialer ::
  "(bytes \<Rightarrow> bool) \<Rightarrow> bytes option \<Rightarrow> bytes option \<Rightarrow> (int \<Rightarrow> bytes option) \<Rightarrow> bytes \<Rightarrow> AMQPSDialerOption list \<Rightarrow>
   dial_action list \<times> dial_error option" where
  "AMQPSDialer pem_ok connect_err channel_err qos_err url opts =
     (let cfg = dialer_config opts in
      if \<not> has_prefix (to_lower url) ''amqps://'' then ([], Some DialInsecureURL)
      else if ad_caPEM cfg \<noteq> [] \<and> \<not> pem_ok (ad_caPEM cfg) then ([], Some DialBadCABundle)
      else
        (let dial = DialConfig url (ad_heartbeat cfg) (ad_dialTO cfg)
                      (if ad_caPEM cfg \<noteq> [] then Some (ad_caPEM cfg) else None)
         in case connect_err of
              Some e \<Rightarrow> ([dial], Some (DialConnect e))
            | None \<Rightarrow> (let (acts, err) = newAMQP091Transport channel_err qos_err (ad_prefetch cfg) in (dial # acts, err))))"

text \<open>\<open>amqp091Transport.PublishReply\<close>: whether the reply went out.\<close>

definition amqp_publish_reply :: "(bytes \<Rightarrow> bytes \<Rightarrow> bytes \<Rightarrow> bool) \<Rightarrow> bytes \<Rightarrow> bytes \<Rightarrow> bytes \<Rightarrow> bool" where
  "amqp_publish_reply broker replyQueue correlationID body =
     (if replyQueue = [] then False else broker replyQueue correlationID body)"

section \<open>The handler table lists its bindings\<close>

definition mux_ok :: "'h ReactorMux \<Rightarrow> bool" where
  "mux_ok m \<longleftrightarrow> distinct (rm_order m) \<and> set (rm_order m) = fst ` set (rm_handlers m) \<and>
     distinct (map fst (rm_handlers m)) \<and> (\<forall>e \<in> set (rm_order m). ReactorEventSpecFor e \<noteq> None)"

lemma mux_on_ok: "mux_ok m \<Longrightarrow> mux_ok (mux_on e h m)"
  by (auto simp: mux_ok_def mux_on_def map_of_eq_None_iff dom_update distinct_update split: option.split)

definition mux_of :: "(bytes \<times> 'h option) list \<Rightarrow> 'h ReactorMux" where
  "mux_of calls = fold (\<lambda>(e, h). mux_on e h) calls NewReactorMux"

lemma mux_of_ok: "mux_ok (mux_of calls)"
proof -
  have "mux_ok (fold (\<lambda>(e, h). mux_on e h) calls m)" if "mux_ok m" for m :: "'a ReactorMux"
    using that by (induction calls arbitrary: m) (auto simp: mux_on_ok split: prod.split)
  moreover have "mux_ok NewReactorMux" by (simp add: mux_ok_def NewReactorMux_def)
  ultimately show ?thesis unfolding mux_of_def by blast
qed

text \<open>The calls that bind: a handler, a hookable event, the first for that event.\<close>

definition bindable :: "bytes \<times> 'h option \<Rightarrow> bool" where
  "bindable c \<longleftrightarrow> snd c \<noteq> None \<and> ReactorEventSpecFor (fst c) \<noteq> None"

lemma mux_on_bindable:
  "rm_errs (mux_on e h m) = [] \<longleftrightarrow> rm_errs m = [] \<and> bindable (e, h) \<and> map_of (rm_handlers m) e = None"
  "bindable (e, h) \<Longrightarrow> map_of (rm_handlers m) e = None \<Longrightarrow> rm_order (mux_on e h m) = rm_order m @ [e]"
  "bindable (e, h) \<Longrightarrow> map_of (rm_handlers m) e = None \<Longrightarrow> map_of (rm_handlers (mux_on e h m)) = (map_of (rm_handlers m))(e := h)"
  by (auto simp: mux_on_def bindable_def update_conv' split: option.split)

lemma mux_fold_errs:
  "rm_errs (fold (\<lambda>(e, h). mux_on e h) calls m) = [] \<longleftrightarrow>
     rm_errs m = [] \<and> list_all bindable calls \<and> distinct (map fst calls) \<and>
     (\<forall>e \<in> fst ` set calls. map_of (rm_handlers m) e = None)"
proof (induction calls arbitrary: m)
  case (Cons c calls)
  obtain e h where c: "c = (e, h)" by force
  show ?case
  proof (cases "rm_errs (mux_on e h m) = []")
    case True
    then show ?thesis using Cons.IH [of "mux_on e h m"] by (auto simp: c mux_on_bindable bindable_def)
  next
    case False
    then show ?thesis using Cons.IH [of "mux_on e h m"] by (auto simp: c mux_on_bindable bindable_def)
  qed
qed simp

lemma mux_fold_bound:
  "list_all bindable calls \<Longrightarrow> distinct (map fst calls) \<Longrightarrow> (\<forall>e \<in> fst ` set calls. map_of (rm_handlers m) e = None) \<Longrightarrow>
   rm_order (fold (\<lambda>(e, h). mux_on e h) calls m) = rm_order m @ map fst calls \<and>
   map_of (rm_handlers (fold (\<lambda>(e, h). mux_on e h) calls m)) =
     (\<lambda>e. case map_of calls e of Some h \<Rightarrow> h | None \<Rightarrow> map_of (rm_handlers m) e)"
proof (induction calls arbitrary: m)
  case (Cons c calls)
  obtain e h where c: "c = (e, h)" by force
  have b: "bindable (e, h)" "map_of (rm_handlers m) e = None" using Cons.prems by (auto simp: c)
  have "e \<notin> fst ` set calls" using Cons.prems(2) by (simp add: c)
  then have "map_of calls e = None" by (simp add: map_of_eq_None_iff)
  moreover have "\<forall>x \<in> fst ` set calls. map_of (rm_handlers (mux_on e h m)) x = None"
    using Cons.prems(2,3) by (auto simp: c mux_on_bindable(3) [OF b])
  ultimately show ?case using Cons.IH [of "mux_on e h m"] Cons.prems(1,2)
    by (auto simp: c mux_on_bindable(2,3) [OF b] fun_eq_iff split: option.split)
qed simp

section \<open>What one dispatch does\<close>

definition published :: "reactor_action list \<Rightarrow> (bytes \<times> bytes \<times> bytes) list" where
  "published acts = List.map_filter (\<lambda>a. case a of PublishReply q c b \<Rightarrow> Some (q, c, b) | _ \<Rightarrow> None) acts"

definition reactor_handled :: "reactor_action list \<Rightarrow> ReactorEvent list" where
  "reactor_handled acts = List.map_filter (\<lambda>a. case a of Handled e \<Rightarrow> Some e | _ \<Rightarrow> None) acts"

definition reactor_settled :: "reactor_action list \<Rightarrow> reactor_action list" where
  "reactor_settled acts = filter (\<lambda>a. a = ReactorAck \<or> a = ReactorNack) acts"

lemma reactor_traces [simp]:
  "published [] = []" "published (PublishReply q c b # acts) = (q, c, b) # published acts"
  "published (Handled e # acts) = published acts" "published (ReactorAck # acts) = published acts"
  "published (ReactorNack # acts) = published acts" "published (emitReactorTelemetry rc t @ acts) = published acts"
  "published (warn rc m @ acts) = published acts" "published (no_reply rc ev r) = []"
  "reactor_handled [] = []" "reactor_handled (PublishReply q c b # acts) = reactor_handled acts"
  "reactor_handled (Handled e # acts) = e # reactor_handled acts" "reactor_handled (ReactorAck # acts) = reactor_handled acts"
  "reactor_handled (ReactorNack # acts) = reactor_handled acts"
  "reactor_handled (emitReactorTelemetry rc t @ acts) = reactor_handled acts"
  "reactor_handled (warn rc m @ acts) = reactor_handled acts" "reactor_handled (no_reply rc ev r) = []"
  "reactor_settled [] = []" "reactor_settled (PublishReply q c b # acts) = reactor_settled acts"
  "reactor_settled (Handled e # acts) = reactor_settled acts" "reactor_settled (ReactorAck # acts) = ReactorAck # reactor_settled acts"
  "reactor_settled (ReactorNack # acts) = ReactorNack # reactor_settled acts"
  "reactor_settled (emitReactorTelemetry rc t @ acts) = reactor_settled acts"
  "reactor_settled (warn rc m @ acts) = reactor_settled acts" "reactor_settled (no_reply rc ev r) = [ReactorAck]"
  by (simp_all add: published_def reactor_handled_def reactor_settled_def map_filter_simps no_reply_def
      emitReactorTelemetry_def warn_def)

text \<open>The reply the protocol lets out: the handler's own answer, in time, on an intercepting reactor.\<close>

definition reply_due ::
  "(bytes \<Rightarrow> bytes \<Rightarrow> bytes) \<Rightarrow> ReactorConfig \<Rightarrow> dispatch_env \<Rightarrow> ReactorEvent \<Rightarrow> handler_outcome \<Rightarrow> bytes option" where
  "reply_due mac cfg env ev outcome =
     (case outcome of
        HandlerReturned answer None \<Rightarrow>
          if cf_Mode cfg \<noteq> ''listen'' \<and> de_answered env < rv_Deadline ev then
            (case buildReactorReply mac (cf_SigningKey cfg) ev answer (de_nonce env) (de_issued env) of
               Inr body \<Rightarrow> Some body | Inl _ \<Rightarrow> None)
          else None
      | _ \<Rightarrow> None)"

lemma answer_trace:
  assumes "invokeReactorHandler handler ev = (answer, herr)"
  shows "reactor_settled (reactor_answer mac cfg rc env d ev answer herr) = [ReactorAck]"
    and "reactor_handled (reactor_answer mac cfg rc env d ev answer herr) = []"
    and "published (reactor_answer mac cfg rc env d ev answer herr) =
      (case reply_due mac cfg env ev (handler ev) of None \<Rightarrow> [] | Some body \<Rightarrow> [(rd_ReplyTo d, rd_CorrelationID d, body)])"
proof -
  show "reactor_settled (reactor_answer mac cfg rc env d ev answer herr) = [ReactorAck]"
    by (auto simp: reactor_answer_def split: option.split sum.split)
  show "reactor_handled (reactor_answer mac cfg rc env d ev answer herr) = []"
    by (auto simp: reactor_answer_def split: option.split sum.split)
  show "published (reactor_answer mac cfg rc env d ev answer herr) =
      (case reply_due mac cfg env ev (handler ev) of None \<Rightarrow> [] | Some body \<Rightarrow> [(rd_ReplyTo d, rd_CorrelationID d, body)])"
    using assms
    by (auto simp: reactor_answer_def reply_due_def ReactorModeListen_def
        split: option.split sum.split handler_outcome.splits)
qed

definition accepted_event ::
  "(bytes \<Rightarrow> bytes \<Rightarrow> bytes) \<Rightarrow> ReactorConfig \<Rightarrow> reactorConfig \<Rightarrow> dispatch_env \<Rightarrow> reactor_delivery \<Rightarrow> replayGuard \<Rightarrow>
   reactor_error + ReactorEvent" where
  "accepted_event mac cfg rc env d g =
     fst (decodeReactorEvent mac (cf_SigningKey cfg) (rd_Body d) (cf_TenantID cfg) (de_started env) (rk_skew rc) (Some g))"

lemma dispatch_refused_trace:
  assumes "accepted_event mac cfg rc env d g = Inl err"
  shows "reactor_settled (fst (dispatchReactorDelivery mac cfg rc handler env d g)) = [ReactorNack]"
    "reactor_handled (fst (dispatchReactorDelivery mac cfg rc handler env d g)) = []"
    "published (fst (dispatchReactorDelivery mac cfg rc handler env d g)) = []"
  using assms by (simp_all add: accepted_event_def dispatchReactorDelivery_def case_prod_unfold)

lemma dispatch_accepted_trace:
  assumes "accepted_event mac cfg rc env d g = Inr ev"
  shows "reactor_settled (fst (dispatchReactorDelivery mac cfg rc handler env d g)) = [ReactorAck]"
    "reactor_handled (fst (dispatchReactorDelivery mac cfg rc handler env d g)) = [ev]"
    "published (fst (dispatchReactorDelivery mac cfg rc handler env d g)) =
      (case reply_due mac cfg env ev (handler ev) of None \<Rightarrow> [] | Some body \<Rightarrow> [(rd_ReplyTo d, rd_CorrelationID d, body)])"
proof -
  obtain answer herr where i: "invokeReactorHandler handler ev = (answer, herr)" by force
  have e: "fst (dispatchReactorDelivery mac cfg rc handler env d g) =
      emitReactorTelemetry rc (ReactorReceivedEvent (rv_Event ev) (rv_CorrelationID ev)) @ Handled ev #
      reactor_answer mac cfg rc env d ev answer herr"
    using assms i by (simp add: accepted_event_def dispatchReactorDelivery_def case_prod_unfold del: invokeReactorHandler.simps)
  show "reactor_settled (fst (dispatchReactorDelivery mac cfg rc handler env d g)) = [ReactorAck]"
    "reactor_handled (fst (dispatchReactorDelivery mac cfg rc handler env d g)) = [ev]"
    "published (fst (dispatchReactorDelivery mac cfg rc handler env d g)) =
      (case reply_due mac cfg env ev (handler ev) of None \<Rightarrow> [] | Some body \<Rightarrow> [(rd_ReplyTo d, rd_CorrelationID d, body)])"
    by (simp_all add: e answer_trace [OF i])
qed

section \<open>Runs\<close>

definition event_meta :: "reactorEventCanonical \<Rightarrow> replayMeta" where
  "event_meta r = \<lparr>rm_KeyVersion = rc_KeyVersion r, rm_Nonce = rc_Nonce r, rm_IssuedAt = rc_IssuedAt r\<rparr>"

definition event_fresh :: "(bytes \<Rightarrow> bytes \<Rightarrow> bytes) \<Rightarrow> bytes \<Rightarrow> duration \<Rightarrow> time \<Rightarrow> bytes \<Rightarrow> bool" where
  "event_fresh mac key skew now body \<longleftrightarrow>
     (case raw_event body of None \<Rightarrow> False
      | Some r \<Rightarrow> rc_Payload r \<noteq> None \<and> authentic mac key r \<and> meta_fresh skew now (event_meta r))"

definition event_nonce :: "bytes \<Rightarrow> bytes" where
  "event_nonce body = (case raw_event body of None \<Rightarrow> [] | Some r \<Rightarrow> rc_Nonce r)"

lemma decode_guard:
  fixes mac key body ten now skew g
  defines "claim \<equiv> nonce_claim now (event_nonce body) (now + wrap64 (2 * rg_skew g)) (rg_seen g)"
    and "dec \<equiv> decodeReactorEvent mac key body ten now skew (Some g)"
  shows "snd dec = Some (if event_fresh mac key skew now body then g\<lparr>rg_seen := snd claim\<rparr> else g)"
    and "fst dec = Inr ev \<Longrightarrow> event_fresh mac key skew now body \<and> fst claim"
proof -
  have guard: "claim_event nonce now (Some g) =
      (let (ok, seen) = nonce_claim now nonce (now + wrap64 (2 * rg_skew g)) (rg_seen g) in (ok, Some (g\<lparr>rg_seen := seen\<rparr>)))" for nonce
    by (simp add: claim_event_def claimReactorNonce_claim Let_def split: prod.split)
  show "snd dec = Some (if event_fresh mac key skew now body then g\<lparr>rg_seen := snd claim\<rparr> else g)"
    unfolding dec_def claim_def decodeReactorEvent_def raw_event_def [symmetric]
    by (cases "raw_event body")
      (auto simp: event_fresh_def authentic_def signed_event_def meta_fresh_def event_meta_def event_nonce_def guard Let_def
        case_prod_unfold split: option.split)
  show "event_fresh mac key skew now body \<and> fst claim" if "fst dec = Inr ev"
    using that unfolding dec_def claim_def decode_accepts
    by (auto simp: event_fresh_def meta_fresh_def event_meta_def event_nonce_def guard Let_def case_prod_unfold)
qed

abbreviation deliver_all :: "(dispatch_env \<times> reactor_delivery) list \<Rightarrow> session_event list" where
  "deliver_all \<equiv> map (\<lambda>(env, d). Delivered env d)"

definition event_claim ::
  "(bytes \<Rightarrow> bytes \<Rightarrow> bytes) \<Rightarrow> ReactorConfig \<Rightarrow> duration \<Rightarrow> dispatch_env \<times> reactor_delivery \<Rightarrow> bool \<times> time \<times> bytes \<times> time" where
  "event_claim mac cfg skew x =
     (event_fresh mac (cf_SigningKey cfg) skew (de_started (fst x)) (rd_Body (snd x)), de_started (fst x),
      event_nonce (rd_Body (snd x)), de_started (fst x) + wrap64 (2 * skew))"

lemma session_claims:
  "rg_skew g = rk_skew rc \<Longrightarrow>
   list_all2 (\<lambda>acts ok. reactor_handled acts \<noteq> [] \<longrightarrow> ok)
     (fst (session_loop mac cfg rc handler (deliver_all ds) g))
     (fst (guarded_run nonce_claim (map (event_claim mac cfg (rk_skew rc)) ds) (rg_seen g)))"
proof (induction ds arbitrary: g)
  case (Cons x ds)
  obtain env d where x: "x = (env, d)" by force
  let ?claim = "nonce_claim (de_started env) (event_nonce (rd_Body d)) (de_started env + wrap64 (2 * rg_skew g)) (rg_seen g)"
  let ?fresh = "event_fresh mac (cf_SigningKey cfg) (rk_skew rc) (de_started env) (rd_Body d)"
  define step where "step = dispatchReactorDelivery mac cfg rc handler env d g"
  define g' where "g' = (if ?fresh then g\<lparr>rg_seen := snd ?claim\<rparr> else g)"
  have "snd step = Some g'"
    unfolding step_def g'_def dispatchReactorDelivery_def
    by (simp add: decode_guard(1) case_prod_unfold split: sum.split)
  moreover have "?fresh \<and> fst ?claim" if "reactor_handled (fst step) \<noteq> []"
  proof (cases "accepted_event mac cfg rc env d g")
    case (Inl e)
    then show ?thesis using that dispatch_refused_trace(2) by (simp add: step_def)
  next
    case (Inr ev)
    then show ?thesis by (intro decode_guard(2)) (simp add: accepted_event_def)
  qed
  moreover have "rg_skew g' = rk_skew rc" "rg_seen g' = (if ?fresh then snd ?claim else rg_seen g)"
    using Cons.prems by (simp_all add: g'_def)
  ultimately show ?case using Cons.IH [of g'] Cons.prems
    by (auto simp: x step_def [symmetric] event_claim_def Let_def case_prod_unfold)
qed simp

lemma session_length: "length (fst (session_loop mac cfg rc handler (deliver_all ds) g)) = length ds"
  by (induction ds arbitrary: g) (auto simp: case_prod_unfold Let_def)

lemma session_handled_fresh:
  assumes "rg_skew g = rk_skew rc" "i < length ds"
    and "reactor_handled (fst (session_loop mac cfg rc handler (deliver_all ds) g) ! i) \<noteq> []"
  shows "fst (guarded_run nonce_claim (map (event_claim mac cfg (rk_skew rc)) ds) (rg_seen g)) ! i"
  using session_claims [OF assms(1), of mac cfg handler ds] assms(2,3) nonces.run_length
  by (auto simp: list_all2_conv_all_nth)

section \<open>Reconnection\<close>

lemma reactor_backoff_eq: "reactor_backoff n = backoffFor n"
proof (cases "n \<le> 1")
  case True
  then have "n - 1 = 0" "(if n < 1 then 1 else n) = (1 :: nat)" by auto
  then show ?thesis by (simp add: reactor_backoff_def backoffFor_def reactorReconnectBaseDelay_def
      reactorReconnectMaxDelay_def BaseDelay_def MaxDelay_def Let_def)
next
  case False
  have defs: "reactorReconnectBaseDelay = BaseDelay" "reactorReconnectMaxDelay = MaxDelay"
    by (simp_all add: reactorReconnectBaseDelay_def reactorReconnectMaxDelay_def BaseDelay_def MaxDelay_def)
  show ?thesis
  proof (cases "n < 32")
    case True
    then show ?thesis using False by (auto simp: reactor_backoff_def backoffFor_def defs Let_def)
  next
    case f32: False
    then have "backoffFor n = MaxDelay" using shift_overflow [of "n - 1"] by (auto simp: backoffFor_def Let_def)
    then show ?thesis using False f32 by (simp add: reactor_backoff_def defs)
  qed
qed

interpretation reactor_reconnect: jittered_backoff reactor_backoff reactorReconnectMaxDelay
proof
  show "0 < reactor_backoff n" for n unfolding reactor_backoff_eq by (rule retry_backoff.backoff_pos)
  have "reactorReconnectMaxDelay = MaxDelay" by (simp add: reactorReconnectMaxDelay_def MaxDelay_def)
  then show "reactor_backoff n \<le> reactorReconnectMaxDelay" for n
    unfolding reactor_backoff_eq using retry_backoff.backoff_le by simp
qed

section \<open>Properties\<close>

text \<open>
  (C36) A handler table is built exactly when there is a call of \<open>On\<close>, each with a handler and a hookable
  event, no event twice. Then its events are those of the calls, in order, and an event goes to
  the handler of its call; an event with no binding gets an error, never an answer.
\<close>

theorem mux_bindings:
  "case mux_handler (mux_of calls) of
     Inr f \<Rightarrow> calls \<noteq> [] \<and> list_all bindable calls \<and> distinct (map fst calls) \<and>
       mux_events (mux_of calls) = map fst calls \<and>
       (\<forall>ev. f ev = (case map_of calls (rv_Event ev) of
          Some (Some h) \<Rightarrow> h ev
        | _ \<Rightarrow> HandlerReturned zeroAnswer (Some (ErrReactorNoHandler (rv_Event ev)))))
   | Inl _ \<Rightarrow> \<not> (calls \<noteq> [] \<and> list_all bindable calls \<and> distinct (map fst calls))"
proof -
  let ?m = "mux_of calls"
  have errs: "rm_errs ?m = [] \<longleftrightarrow> list_all bindable calls \<and> distinct (map fst calls)"
    by (simp add: mux_of_def mux_fold_errs NewReactorMux_def)
  show ?thesis
  proof (cases "rm_errs ?m = []")
    case False
    then show ?thesis using errs by (simp add: mux_handler_def)
  next
    case True
    have bound: "rm_order ?m = map fst calls" "map_of (rm_handlers ?m) = (\<lambda>e. case map_of calls e of Some h \<Rightarrow> h | None \<Rightarrow> None)"
      using True errs mux_fold_bound [of calls NewReactorMux] by (simp_all add: mux_of_def NewReactorMux_def cong: option.case_cong)
    have "set (rm_order ?m) = fst ` set (rm_handlers ?m)" using mux_of_ok [of calls] by (simp add: mux_ok_def)
    then have "rm_handlers ?m = [] \<longleftrightarrow> calls = []" by (auto simp: bound(1))
    then show ?thesis using True errs
      by (auto simp: mux_handler_def mux_events_def bound mux_dispatch_def split: option.split)
  qed
qed

text \<open>
  (C22) Every delivery to a reactor is settled exactly once. One refused by the decoder is dropped with
  the handler not called and nothing sent; one accepted is acknowledged, never put back, after one
  call of the handler on its event, and the one thing ever sent is the handler's own answer,
  signed, to the delivery's reply queue: nothing when it failed, panicked, was late, listens only or
  gave an answer that cannot be sent.
\<close>

theorem reactor_settles_once:
  "let acts = fst (dispatchReactorDelivery mac cfg rc handler env d g) in
   case accepted_event mac cfg rc env d g of
     Inl err \<Rightarrow> reactor_settled acts = [ReactorNack] \<and> reactor_handled acts = [] \<and> published acts = []
   | Inr ev \<Rightarrow> reactor_settled acts = [ReactorAck] \<and> reactor_handled acts = [ev] \<and>
       published acts = (case reply_due mac cfg env ev (handler ev) of
         None \<Rightarrow> [] | Some body \<Rightarrow> [(rd_ReplyTo d, rd_CorrelationID d, body)])"
  by (cases "accepted_event mac cfg rc env d g") (simp_all add: Let_def dispatch_refused_trace dispatch_accepted_trace)

text \<open>
  (C8) Over a session, with a clock that does not go back, the handler never runs twice on one signed
  event: two deliveries it ran on whose MACs are over the same bytes are an event issued exactly
  one window ahead, delivered again exactly one window after its issue.
\<close>

theorem reactor_handles_once:
  assumes "rg_skew g = rk_skew rc" "0 < rk_skew rc" "rk_skew rc < 4611686018427387904"
    and "sorted (map (de_started \<circ> fst) ds)" "i < j" "j < length ds"
    and "reactor_handled (fst (session_loop mac cfg rc handler (deliver_all ds) g) ! i) \<noteq> []"
    and "reactor_handled (fst (session_loop mac cfg rc handler (deliver_all ds) g) ! j) \<noteq> []"
    and "raw_event (rd_Body (snd (ds ! i))) = Some r" "raw_event (rd_Body (snd (ds ! j))) = Some r'"
    and "signed_event r = signed_event r'"
  shows "\<exists>t. parse_rfc3339 (rc_IssuedAt r) = Some t \<and>
    t = de_started (fst (ds ! i)) + rk_skew rc \<and> de_started (fst (ds ! j)) = t + rk_skew rc"
proof -
  let ?s = "rk_skew rc" and ?rs = "map (event_claim mac cfg (rk_skew rc)) ds"
  have srt: "sorted (map (fst \<circ> snd) ?rs)" using assms(4) by (simp add: event_claim_def comp_def)
  have ran: "fst (guarded_run nonce_claim ?rs (rg_seen g)) ! i" "fst (guarded_run nonce_claim ?rs (rg_seen g)) ! j"
    using session_handled_fresh [OF assms(1)] assms(5-8) by simp_all
  have "fst (?rs ! i)" "fst (?rs ! j)"
    using nonces.run_guard [OF _ ran(1)] nonces.run_guard [OF _ ran(2)] assms(5,6) by simp_all
  then have f: "meta_fresh ?s (de_started (fst (ds ! i))) (event_meta r)"
      "meta_fresh ?s (de_started (fst (ds ! j))) (event_meta r')" "rc_Payload r \<noteq> None" "rc_Payload r' \<noteq> None"
    using assms(5,6,9,10) by (simp_all add: event_claim_def event_fresh_def)
  have "r\<lparr>rc_HMACSignature := None\<rparr> = r'\<lparr>rc_HMACSignature := None\<rparr>"
    using raw_event_valid assms(9-11) f by (intro signed_event_inject) auto
  then have same: "rc_Nonce r = rc_Nonce r'" "rc_IssuedAt r = rc_IssuedAt r'" by (cases r, cases r', simp)+
  have claims: "?rs ! i = (fst (?rs ! i), de_started (fst (ds ! i)), rc_Nonce r, de_started (fst (ds ! i)) + wrap64 (2 * ?s))"
      "?rs ! j = (fst (?rs ! j), de_started (fst (ds ! j)), rc_Nonce r, de_started (fst (ds ! j)) + wrap64 (2 * ?s))"
    using assms(5,6,9,10) same by (simp_all add: event_claim_def event_nonce_def)
  show ?thesis
    using claims_at_edge [OF srt assms(5) _ ran claims f(1,2)] assms(2,3,6) same by (simp add: event_meta_def)
qed

text \<open>A witness: one event issued one window ahead, delivered, and delivered again one window after.\<close>

lemma dispatch_handles:
  assumes "raw_event (rd_Body d) = Some raw" "authentic mac (cf_SigningKey cfg) raw"
    and "rc_Payload raw \<noteq> None" "meta_fresh (rk_skew rc) (de_started env) (event_meta raw)"
    and "rc_TenantID raw = cf_TenantID cfg" "ReactorEventSpecFor (rc_Event raw) \<noteq> None"
    and "fst (claimReactorNonce (rc_Nonce raw) (de_started env) g)"
  shows "reactor_handled (fst (dispatchReactorDelivery mac cfg rc handler env d g)) \<noteq> []"
    and "snd (dispatchReactorDelivery mac cfg rc handler env d g) = Some (snd (claimReactorNonce (rc_Nonce raw) (de_started env) g))"
proof -
  obtain p where p: "rc_Payload raw = Some p" using assms(3) by blast
  obtain i where i: "parse_rfc3339 (rc_IssuedAt raw) = Some i" "\<not> outside_window (rk_skew rc) (de_started env) i"
      "minKeyVersion \<le> rc_KeyVersion raw"
    using assms(4) by (auto simp: meta_fresh_def event_meta_def split: option.splits)
  have "accepted_event mac cfg rc env d g = Inr (event_of_raw (de_started env) i p raw)"
    unfolding accepted_event_def decode_accepts
    using assms p i by (intro exI [of _ raw] exI [of _ p] exI [of _ i]) (simp add: claim_event_def Let_def case_prod_unfold)
  then show "reactor_handled (fst (dispatchReactorDelivery mac cfg rc handler env d g)) \<noteq> []"
    by (simp add: dispatch_accepted_trace)
  have "event_fresh mac (cf_SigningKey cfg) (rk_skew rc) (de_started env) (rd_Body d)"
    using assms by (simp add: event_fresh_def)
  then show "snd (dispatchReactorDelivery mac cfg rc handler env d g) = Some (snd (claimReactorNonce (rc_Nonce raw) (de_started env) g))"
    unfolding dispatchReactorDelivery_def
    by (simp add: decode_guard(1) claimReactorNonce_claim event_nonce_def assms(1) Let_def case_prod_unfold split: sum.split)
qed

definition ahead_event :: reactorEventCanonical where
  "ahead_event = example_event\<lparr>rc_IssuedAt := ''2023-11-14T22:18:20Z''\<rparr>"

definition example_config :: ReactorConfig where
  "example_config = \<lparr>cf_TenantID = ''t1'', cf_ReactorID = ''r1'', cf_Queue = [], cf_SigningKey = ''key'', cf_Mode = []\<rparr>"

definition env_at :: "time \<Rightarrow> dispatch_env" where
  "env_at t = \<lparr>de_started = t, de_answered = t, de_nonce = ''n2'', de_issued = t, de_ended = t, de_publish = (\<lambda>q c b. True)\<rparr>"

definition ahead_delivery :: reactor_delivery where
  "ahead_delivery = \<lparr>rd_Body = sign_event example_mac ''key'' ahead_event, rd_ReplyTo = ''q'', rd_CorrelationID = ''c''\<rparr>"

theorem reactor_handles_once_witness:
  "\<exists>t. parse_rfc3339 ''2023-11-14T22:18:20Z'' = Some t \<and>
     t = 1700000000000000000 + defaultSkew \<and> 1700000600000000000 = t + defaultSkew"
proof -
  let ?ds = "[(env_at 1700000000000000000, ahead_delivery), (env_at 1700000600000000000, ahead_delivery)]"
  let ?h = "\<lambda>ev. HandlerReturned ReactorAllow None" and ?rc = "reactor_config []" and ?g = "newReplayGuard defaultSkew"
  let ?g' = "snd (claimReactorNonce ''n1'' 1700000000000000000 ?g)"
  have "valid_utf8 ''2023-11-14T22:18:20Z''" by code_simp
  then have v: "valid_event ahead_event" "rc_Payload ahead_event = Some (JObj [])"
      "rc_TimeoutMS ahead_event < 2 ^ 32" "rc_KeyVersion ahead_event < 2 ^ 8"
    using example_event_valid by (simp_all add: valid_event_def ahead_event_def)
  obtain raw where raw: "raw_event (rd_Body ahead_delivery) = Some raw" "authentic example_mac (cf_SigningKey example_config) raw"
      "raw\<lparr>rc_HMACSignature := None\<rparr> = ahead_event\<lparr>rc_HMACSignature := None\<rparr>"
    using sign_event_authentic [OF v, of example_mac "''key''"] by (auto simp: ahead_delivery_def example_config_def)
  have f: "rc_TenantID raw = ''t1''" "rc_Event raw = ''token.pre_issue''" "rc_Payload raw \<noteq> None" "rc_Nonce raw = ''n1''"
      "event_meta raw = \<lparr>rm_KeyVersion = 2, rm_Nonce = ''n1'', rm_IssuedAt = ''2023-11-14T22:18:20Z''\<rparr>"
      "rc_IssuedAt raw = ''2023-11-14T22:18:20Z''"
    using raw(3) by (cases raw, simp add: ahead_event_def example_event_def event_meta_def)+
  have m: "meta_fresh defaultSkew 1700000000000000000 \<lparr>rm_KeyVersion = 2, rm_Nonce = ''n1'', rm_IssuedAt = ''2023-11-14T22:18:20Z''\<rparr>"
      "meta_fresh defaultSkew 1700000600000000000 \<lparr>rm_KeyVersion = 2, rm_Nonce = ''n1'', rm_IssuedAt = ''2023-11-14T22:18:20Z''\<rparr>"
      "fst (claimReactorNonce ''n1'' 1700000000000000000 ?g)" "fst (claimReactorNonce ''n1'' 1700000600000000000 ?g')"
      "ReactorEventSpecFor ''token.pre_issue'' \<noteq> None" "rk_skew ?rc = defaultSkew" "cf_TenantID example_config = ''t1''"
    by code_simp+
  have skew: "rg_skew ?g = defaultSkew" "defaultSkew = 300000000000"
    by (simp_all add: newReplayGuard_def defaultSkew_def Minute_def)
  note step = dispatch_handles [OF raw(1,2), of ?rc, where handler = ?h]
  have one: "reactor_handled (fst (dispatchReactorDelivery example_mac example_config ?rc ?h (env_at 1700000000000000000) ahead_delivery ?g)) \<noteq> []"
      "snd (dispatchReactorDelivery example_mac example_config ?rc ?h (env_at 1700000000000000000) ahead_delivery ?g) = Some ?g'"
      "reactor_handled (fst (dispatchReactorDelivery example_mac example_config ?rc ?h (env_at 1700000600000000000) ahead_delivery ?g')) \<noteq> []"
    using step [of "env_at 1700000000000000000" ?g] step [of "env_at 1700000600000000000" ?g'] m f
    by (simp_all add: env_at_def)
  then have h: "reactor_handled (fst (session_loop example_mac example_config ?rc ?h (deliver_all ?ds) ?g) ! 0) \<noteq> []"
      "reactor_handled (fst (session_loop example_mac example_config ?rc ?h (deliver_all ?ds) ?g) ! 1) \<noteq> []"
    by (simp_all add: case_prod_unfold Let_def)
  show ?thesis
    using reactor_handles_once [of ?g ?rc ?ds 0 1, OF _ _ _ _ _ _ h _ _ refl] raw(1) skew m(6) f(6)
    by (simp add: env_at_def)
qed

text \<open>
  (C29) The waits of the reconnect loop: attempt numbers 1, 2, 3 and so on, one wait per failed session
  and never reset, each between zero and 200 ms doubled per attempt, capped at five seconds,
  whatever the jitter and however far the 64-bit shift overflows.
\<close>

definition reconnects :: "reactor_action list \<Rightarrow> (nat \<times> duration) list" where
  "reconnects acts = List.map_filter (\<lambda>a. case a of Telemetry (ReactorReconnectEvent n d r) \<Rightarrow> Some (n, d) | _ \<Rightarrow> None) acts"

lemma reconnects_simps [simp]:
  "reconnects [] = []" "reconnects (Telemetry (ReactorReconnectEvent n d r) # acts) = (n, d) # reconnects acts"
  by (simp_all add: reconnects_def map_filter_simps)

lemma serve_loop_waits:
  "rk_telemetry rc \<Longrightarrow>
   map fst (reconnects (fst (serve_loop rc n ts))) = map Suc [n..<n + length (reconnects (fst (serve_loop rc n ts)))] \<and>
   list_all (\<lambda>(m, d). 0 \<le> d \<and> d \<le> min (5 * Second) (200 * Millisecond * 2 ^ (m - 1)))
     (reconnects (fst (serve_loop rc n ts)))"
proof (induction ts arbitrary: n)
  case (Cons t ts)
  have d: "0 \<le> reactorReconnectDelay (Suc n) f \<and>
      reactorReconnectDelay (Suc n) f \<le> min (5 * Second) (200 * Millisecond * 2 ^ n)" for f
    using reactor_reconnect.jitter_nonneg [of "Suc n" f] reactor_reconnect.jitter_le_backoff [of "Suc n" f]
    by (simp add: reactorReconnectDelay_def reactor_backoff_eq backoffFor_eq_min MaxDelay_def BaseDelay_def)
  have up: "[n..<Suc (n + k)] = n # [Suc n..<Suc n + k]" for k by (simp add: upt_conv_Cons)
  have one: "[n..<Suc n] = [n]" by simp
  from Cons.IH [of "Suc n"] Cons.prems d show ?case
    by (auto simp: emitReactorTelemetry_def case_prod_unfold Let_def up one simp del: upt_Suc)
qed simp

theorem reconnect_delays:
  "let ws = reconnects (fst (serve_loop (rc\<lparr>rk_telemetry := True\<rparr>) 0 ts)) in
   map fst ws = map Suc [0..<length ws] \<and>
   list_all (\<lambda>(m, d). 0 \<le> d \<and> d \<le> min (5 * Second) (200 * Millisecond * 2 ^ (m - 1))) ws"
  using serve_loop_waits [of "rc\<lparr>rk_telemetry := True\<rparr>" 0 ts] by (simp add: Let_def)

text \<open>
  (C30) The dialer never opens a connection for a URL that is not \<open>amqps\<close>, and every connection it opens
  and does not hand over is closed.
\<close>

theorem dialer_tls_only:
  "let (acts, err) = AMQPSDialer pem_ok connect_err channel_err qos_err url opts in
   (to_lower (take 8 url) = ''amqps://'' \<or> acts = [] \<and> err = Some DialInsecureURL) \<and>
   (CloseConnection \<in> set acts \<longleftrightarrow> OpenChannel \<in> set acts \<and> err \<noteq> None) \<and>
   (CloseChannel \<in> set acts \<longleftrightarrow> (\<exists>n. SetQos n \<in> set acts) \<and> err \<noteq> None)"
proof -
  obtain p where p: "has_prefix (to_lower url) ''amqps://'' = p" by blast
  have len: "length ''amqps://'' = 8" by simp
  have eq: "(to_lower (take 8 url) = ''amqps://'') = p"
    unfolding p [symmetric] has_prefix_take len to_lower_def take_map ..
  show ?thesis unfolding eq AMQPSDialer_def newAMQP091Transport_def Let_def p
    by (cases p) (simp_all split: option.split)
qed

end
