(* ===== verification/Client.thy ===== *)
theory Client
  imports Decision_Memo Refresh_Guard
begin

text \<open>
  \<open>client.go\<close>: the session a client and the handles derived from it share, the acting-tenant gate,
  what is put on an outgoing request, and the one function every request goes through. The
  transport, a \<open>net/http\<close> client with its redirects and TLS, is a function of the request and
  of the cookies it may carry; the cookie jar is kept for the client's own host, as name and
  value. A UUID is its canonical text. The telemetry of \<open>telemetry.go\<close> is the list of events emitted.
\<close>

section \<open>State\<close>

record scopeState =
  sc_known :: bool
  sc_organizationLevel :: bool
  sc_reachableTenantIDs :: "bytes list option"

record clientSession =
  cs_guard :: Guard
  cs_memo :: decisionMemo
  cs_closed :: bool
  cs_csrfToken :: bytes
  cs_resolvedOrg :: "bytes option"
  cs_principalTenant :: "bytes option"
  cs_adoptedToken :: bytes
  cs_scope :: scopeState
  cs_deviceToken :: bytes
  cs_jar :: "(bytes \<times> bytes) list"

datatype orgIdentifier = NoOrg | OrgSlug bytes | OrgID bytes

record Client =
  cl_baseHost :: bytes
  cl_basePath :: bytes
  cl_tenantSlug :: bytes
  cl_org :: orgIdentifier
  cl_hook :: bool
  cl_presentsClientCertificate :: bool
  cl_actingTenant :: "bytes option"

record http_request =
  rq_method :: bytes
  rq_url :: "(bytes \<times> bytes) option"
  rq_query :: bytes
  rq_headers :: http_header
  rq_body :: bytes

text \<open>A response, with the cookies it sets for the client's host; no value removes one.\<close>

record http_reply =
  rs_status :: int
  rs_headers :: http_header
  rs_cookies :: "(bytes \<times> bytes option) list"
  rs_body :: bytes

type_synonym 'w transport = "http_request \<Rightarrow> (bytes \<times> bytes) list \<Rightarrow> 'w \<Rightarrow> (bytes + http_reply) \<times> 'w"

definition unknown_scope :: scopeState where
  "unknown_scope = \<lparr>sc_known = False, sc_organizationLevel = False, sc_reachableTenantIDs = None\<rparr>"

definition newSession :: "duration \<Rightarrow> clientSession" where
  "newSession memoTTL = \<lparr>cs_guard = zero_guard, cs_memo = newDecisionMemo memoTTL, cs_closed = False, cs_csrfToken = [],
     cs_resolvedOrg = None, cs_principalTenant = None, cs_adoptedToken = [], cs_scope = unknown_scope,
     cs_deviceToken = [], cs_jar = []\<rparr>"

section \<open>Options and construction\<close>

record clientConfig =
  cc_customCAPEM :: bytes
  cc_clientCertPEM :: bytes
  cc_clientKeyPEM :: bytes
  cc_requestTimeout :: duration
  cc_org :: orgIdentifier
  cc_retryDisabled :: bool
  cc_decisionMemoTTL :: duration
  cc_telemetryHook :: bool
  cc_actingTenant :: "bytes option"

datatype client_option =
    WithCustomCA bytes
  | WithClientCertificate bytes bytes
  | WithTimeout duration
  | WithOrgSlug bytes
  | WithOrgID bytes
  | WithRetryDisabled
  | WithDecisionMemoTTL duration
  | WithTelemetryHook bool
  | WithActingTenant bytes

definition defaultConfig :: clientConfig where
  "defaultConfig = \<lparr>cc_customCAPEM = [], cc_clientCertPEM = [], cc_clientKeyPEM = [], cc_requestTimeout = 30 * Second,
     cc_org = NoOrg, cc_retryDisabled = False, cc_decisionMemoTTL = 0, cc_telemetryHook = False, cc_actingTenant = None\<rparr>"

fun apply_client_option :: "client_option \<Rightarrow> clientConfig \<Rightarrow> clientConfig" where
  "apply_client_option (WithCustomCA pem) c = c\<lparr>cc_customCAPEM := pem\<rparr>"
| "apply_client_option (WithClientCertificate cert key) c = c\<lparr>cc_clientCertPEM := cert, cc_clientKeyPEM := key\<rparr>"
| "apply_client_option (WithTimeout d) c = c\<lparr>cc_requestTimeout := d\<rparr>"
| "apply_client_option (WithOrgSlug s) c = c\<lparr>cc_org := (if s = [] then NoOrg else OrgSlug s)\<rparr>"
| "apply_client_option (WithOrgID i) c = c\<lparr>cc_org := OrgID i\<rparr>"
| "apply_client_option WithRetryDisabled c = c\<lparr>cc_retryDisabled := True\<rparr>"
| "apply_client_option (WithDecisionMemoTTL t) c = c\<lparr>cc_decisionMemoTTL := t\<rparr>"
| "apply_client_option (WithTelemetryHook h) c = c\<lparr>cc_telemetryHook := h\<rparr>"
| "apply_client_option (WithActingTenant t) c = c\<lparr>cc_actingTenant := Some t\<rparr>"

text \<open>
  The checks of \<open>buildHTTPClient\<close> that can fail; what a certificate pool or key pair accepts is an
  argument.
\<close>

definition tls_config_error :: "(bytes \<Rightarrow> bool) \<Rightarrow> (bytes \<Rightarrow> bytes \<Rightarrow> bool) \<Rightarrow> clientConfig \<Rightarrow> go_error option" where
  "tls_config_error pem_ok pair_ok cfg =
     (if cc_customCAPEM cfg \<noteq> [] \<and> \<not> pem_ok (cc_customCAPEM cfg) then Some (NetworkError ''invalid custom CA PEM'')
      else if (cc_clientCertPEM cfg \<noteq> [] \<or> cc_clientKeyPEM cfg \<noteq> []) \<and> \<not> pair_ok (cc_clientCertPEM cfg) (cc_clientKeyPEM cfg)
      then Some (NetworkError ''invalid client certificate/key PEM'')
      else None)"

datatype telemetry_event =
    RequestStartEvent bytes bytes bytes nat
  | RequestEndEvent bytes bytes bytes nat int bool
  | ConfigClampedEvent duration duration

text \<open>\<open>NewClient\<close>: the base URL is given parsed (host and path), or not at all when \<open>url.Parse\<close> fails.\<close>

definition NewClient ::
  "(bytes \<Rightarrow> bool) \<Rightarrow> (bytes \<Rightarrow> bytes \<Rightarrow> bool) \<Rightarrow> (bytes \<times> bytes) option \<Rightarrow> bytes \<Rightarrow> client_option list \<Rightarrow>
   (go_error + Client \<times> clientSession \<times> bool) \<times> telemetry_event list" where
  "NewClient pem_ok pair_ok baseURL tenantSlug opts =
     (if trim_space tenantSlug = [] then (Inl (AuthError ''tenantSlug is required and must not be blank''), [])
      else case baseURL of
        None \<Rightarrow> (Inl (NetworkError ''invalid baseURL''), [])
      | Some (host, path) \<Rightarrow>
        (let cfg = fold apply_client_option opts defaultConfig in
         case tls_config_error pem_ok pair_ok cfg of
           Some err \<Rightarrow> (Inl err, [])
         | None \<Rightarrow>
           (let session = newSession (cc_decisionMemoTTL cfg) in
            (Inr (\<lparr>cl_baseHost = host, cl_basePath = path, cl_tenantSlug = tenantSlug, cl_org = cc_org cfg,
                   cl_hook = cc_telemetryHook cfg, cl_presentsClientCertificate = (cc_clientCertPEM cfg \<noteq> []),
                   cl_actingTenant = cc_actingTenant cfg\<rparr>, session, \<not> cc_retryDisabled cfg),
             (case reportMemoClamp (cc_decisionMemoTTL cfg) (dm_ttl (cs_memo session)) (cc_telemetryHook cfg) of
                None \<Rightarrow> [] | Some (req, eff) \<Rightarrow> [ConfigClampedEvent req eff])))))"

section \<open>The acting tenant\<close>

definition ensureOpen :: "clientSession \<Rightarrow> go_error option" where
  "ensureOpen s = (if cs_closed s
     then Some (NetworkError ''client is closed: this Client was shut down with Close()'') else None)"

definition checkActingTenantReach :: "bytes \<Rightarrow> clientSession \<Rightarrow> go_error option" where
  "checkActingTenantReach tenantID s =
     (let scope = cs_scope s in
      if \<not> sc_known scope then None
      else if \<not> sc_organizationLevel scope then Some (AuthzError ''acting tenant is meaningful only for an organization-level principal'')
      else case sc_reachableTenantIDs scope of
        None \<Rightarrow> None
      | Some ids \<Rightarrow> if tenantID \<in> set ids then None
                    else Some (AuthzError (''acting tenant '' @ tenantID @ '' is outside this principal's reachable_tenant_ids'')))"

definition ActingTenant :: "bytes \<Rightarrow> Client \<Rightarrow> clientSession \<Rightarrow> go_error + Client" where
  "ActingTenant tenantID c s =
     (case ensureOpen s of Some err \<Rightarrow> Inl err
      | None \<Rightarrow> (case checkActingTenantReach tenantID s of Some err \<Rightarrow> Inl err
        | None \<Rightarrow> Inr (c\<lparr>cl_actingTenant := Some tenantID\<rparr>)))"

definition ClearActingTenant :: "Client \<Rightarrow> Client" where
  "ClearActingTenant c = c\<lparr>cl_actingTenant := None\<rparr>"

definition setScope :: "bool \<Rightarrow> bytes list option \<Rightarrow> clientSession \<Rightarrow> clientSession" where
  "setScope level ids s = s\<lparr>cs_scope := \<lparr>sc_known = True, sc_organizationLevel = level, sc_reachableTenantIDs = ids\<rparr>\<rparr>"

definition resetScopeUnknown :: "clientSession \<Rightarrow> clientSession" where
  "resetScopeUnknown s = s\<lparr>cs_scope := unknown_scope\<rparr>"

definition setPrincipalTenantID :: "bytes option \<Rightarrow> clientSession \<Rightarrow> clientSession" where
  "setPrincipalTenantID i s = (case i of None \<Rightarrow> s | Some v \<Rightarrow> s\<lparr>cs_principalTenant := Some v\<rparr>)"

definition setResolvedOrgID :: "bytes \<Rightarrow> clientSession \<Rightarrow> clientSession" where
  "setResolvedOrgID i s = s\<lparr>cs_resolvedOrg := Some i\<rparr>"

definition resolvedOrgID :: "Client \<Rightarrow> clientSession \<Rightarrow> bytes option" where
  "resolvedOrgID c s = (case cl_org c of OrgID i \<Rightarrow> Some i | _ \<Rightarrow> cs_resolvedOrg s)"

section \<open>Credentials\<close>

definition onCredentialChange :: "clientSession \<Rightarrow> clientSession" where
  "onCredentialChange s = s\<lparr>cs_memo := memo_clear (cs_memo s)\<rparr>"

definition adoptDeviceCredential :: "bytes \<Rightarrow> clientSession \<Rightarrow> clientSession" where
  "adoptDeviceCredential token s = s\<lparr>cs_deviceToken := token\<rparr>"

definition replaceDeviceCredential :: "clientSession \<Rightarrow> clientSession" where
  "replaceDeviceCredential s = adoptDeviceCredential [] s"

definition adoptOidcCredential :: "bytes \<Rightarrow> clientSession \<Rightarrow> clientSession" where
  "adoptOidcCredential token s = s\<lparr>cs_adoptedToken := token\<rparr>"

text \<open>What \<open>LoginClientCredentials\<close> and the other grants do when told to adopt their token.\<close>

definition adopt_credential :: "bytes \<Rightarrow> clientSession \<Rightarrow> clientSession" where
  "adopt_credential token s = adoptOidcCredential token (replaceDeviceCredential (resetScopeUnknown s))"

definition Close :: "clientSession \<Rightarrow> clientSession" where
  "Close s = s\<lparr>cs_closed := True, cs_memo := memo_clear (cs_memo s)\<rparr>"

section \<open>Requests\<close>

definition header_get :: "bytes \<Rightarrow> http_header \<Rightarrow> bytes" where
  "header_get k h = (case map_of h (canonical_key k) of Some (v # vs) \<Rightarrow> v | _ \<Rightarrow> [])"

definition stateChangingMethods :: "bytes list" where
  "stateChangingMethods = [''POST'', ''PUT'', ''PATCH'', ''DELETE'']"

fun has_infix :: "bytes \<Rightarrow> bytes \<Rightarrow> bool" where
  "has_infix [] p = has_prefix [] p"
| "has_infix (c # s) p = (has_prefix (c # s) p \<or> has_infix s p)"

definition isOAuth2Path :: "Client \<Rightarrow> http_request \<Rightarrow> bool" where
  "isOAuth2Path c req =
     (case rq_url req of None \<Rightarrow> False
      | Some (host, p) \<Rightarrow> has_prefix p (trim_right_char CHR ''/'' (cl_basePath c) @ ''/oauth2/'') \<or> has_prefix p ''/oauth2/'')"

definition same_origin :: "Client \<Rightarrow> http_request \<Rightarrow> bool" where
  "same_origin c req = (case rq_url req of None \<Rightarrow> True | Some (host, p) \<Rightarrow> host = [] \<or> host = cl_baseHost c)"

definition set_header :: "bytes \<Rightarrow> bytes \<Rightarrow> http_request \<Rightarrow> http_request" where
  "set_header k v req = req\<lparr>rq_headers := header_set k v (rq_headers req)\<rparr>"

definition adopted_token :: "clientSession \<Rightarrow> bytes" where
  "adopted_token s = (if cs_deviceToken s \<noteq> [] then cs_deviceToken s else cs_adoptedToken s)"

definition decorateRequest :: "Client \<Rightarrow> clientSession \<Rightarrow> http_request \<Rightarrow> http_request" where
  "decorateRequest c s req =
     (let req1 = (if same_origin c req \<or> (case rq_url req of Some (h, p) \<Rightarrow> has_infix p ''/oauth2/'' | None \<Rightarrow> False)
                  then set_header ''X-Tenant-ID'' (cl_tenantSlug c) req else req) in
      if \<not> same_origin c req then req1
      else
        (let req2 = (case cl_actingTenant c of None \<Rightarrow> req1 | Some t \<Rightarrow> set_header ''X-Axiam-Tenant'' t req1);
             req3 = (if map upper (rq_method req) \<in> set stateChangingMethods \<and> \<not> isOAuth2Path c req \<and> cs_csrfToken s \<noteq> []
                     then set_header ''X-CSRF-Token'' (cs_csrfToken s) req2 else req2)
         in if adopted_token s \<noteq> [] \<and> header_get ''Authorization'' (rq_headers req3) = [] \<and> \<not> isOAuth2Path c req
            then set_header ''Authorization'' (''Bearer '' @ adopted_token s) req3 else req3))"

definition captureCSRF :: "http_reply \<Rightarrow> clientSession \<Rightarrow> clientSession" where
  "captureCSRF resp s =
     (let token = header_get ''X-CSRF-Token'' (rs_headers resp) in if token \<noteq> [] then s\<lparr>cs_csrfToken := token\<rparr> else s)"

definition jar_update :: "bytes \<times> bytes option \<Rightarrow> (bytes \<times> bytes) list \<Rightarrow> (bytes \<times> bytes) list" where
  "jar_update ck jar = (case ck of (n, None) \<Rightarrow> AList.delete n jar | (n, Some v) \<Rightarrow> AList.update n v jar)"

definition store_cookies :: "http_reply \<Rightarrow> clientSession \<Rightarrow> clientSession" where
  "store_cookies resp s = s\<lparr>cs_jar := fold jar_update (rs_cookies resp) (cs_jar s)\<rparr>"

text \<open>The cookies of a request: none once a device credential is held or to an OAuth endpoint.\<close>

definition outbound_cookies :: "Client \<Rightarrow> clientSession \<Rightarrow> http_request \<Rightarrow> (bytes \<times> bytes) list" where
  "outbound_cookies c s req =
     (if cs_deviceToken s \<noteq> [] \<or> isOAuth2Path c req then [] else if same_origin c req then cs_jar s else [])"

definition doRequest ::
  "'w transport \<Rightarrow> Client \<Rightarrow> http_request \<Rightarrow> clientSession \<Rightarrow> 'w \<Rightarrow> (go_error + http_reply) \<times> clientSession \<times> 'w" where
  "doRequest send c req s w =
     (let req' = decorateRequest c s req;
          (res, w') = send req' (outbound_cookies c s req') w
      in case res of
           Inl e \<Rightarrow> (Inl (newNetworkError (''request failed: '' @ e) None (Some (EPlain e))), s, w')
         | Inr resp \<Rightarrow>
           (let s' = store_cookies resp s in
            if rq_method req' = ''POST'' \<and> isOAuth2Path c req' \<and> 300 \<le> rs_status resp \<and> rs_status resp < 400
            then (Inl (newNetworkError (''POST answered '' @ show_int (rs_status resp) @ '': an /oauth2/* POST is never redirected'') None None), s', w')
            else (Inr resp, captureCSRF resp s', w')))"

definition url_path :: "Client \<Rightarrow> bytes \<Rightarrow> bytes" where
  "url_path c path = trim_right_char CHR ''/'' (cl_basePath c) @ ''/'' @ dropWhile (\<lambda>x. x = CHR ''/'') path"

text \<open>\<open>newRequest\<close> with a body; the URL is the client's own, so building it does not fail.\<close>

definition newRequest :: "Client \<Rightarrow> bytes \<Rightarrow> bytes \<Rightarrow> bytes option \<Rightarrow> http_request" where
  "newRequest c method path body =
     \<lparr>rq_method = method, rq_url = Some (cl_baseHost c, url_path c path), rq_query = [],
      rq_headers = (case body of None \<Rightarrow> [] | Some _ \<Rightarrow> header_set ''Content-Type'' ''application/json'' []),
      rq_body = (case body of None \<Rightarrow> [] | Some b \<Rightarrow> b)\<rparr>"

text \<open>The redirect hooks of \<open>buildHTTPClient\<close> and \<open>NewClient\<close>: stop, use the response, or follow.\<close>

datatype redirect_decision = TooManyRedirects | UseLastResponse | Follow http_request

definition check_redirect :: "http_request \<Rightarrow> http_request list \<Rightarrow> redirect_decision" where
  "check_redirect req via =
     (if length via \<ge> 10 then TooManyRedirects
      else if via \<noteq> [] \<and> map_option fst (rq_url req) \<noteq> map_option fst (rq_url (hd via))
      then Follow (req\<lparr>rq_headers := filter (\<lambda>(k, v). k \<notin> {canonical_key ''X-Tenant-ID'', canonical_key ''X-CSRF-Token'',
                         canonical_key ''X-Axiam-Tenant''}) (rq_headers req)\<rparr>)
      else Follow req)"

definition client_check_redirect :: "Client \<Rightarrow> http_request \<Rightarrow> http_request list \<Rightarrow> redirect_decision" where
  "client_check_redirect c req via =
     (if via \<noteq> [] \<and> rq_method (hd via) = ''POST'' \<and> isOAuth2Path c (hd via) then UseLastResponse
      else check_redirect req via)"

section \<open>Telemetry of a request\<close>

definition startRequest :: "Client \<Rightarrow> bytes \<Rightarrow> bytes \<Rightarrow> bytes \<Rightarrow> nat \<Rightarrow> telemetry_event list" where
  "startRequest c op method path attempt = (if cl_hook c then [RequestStartEvent op method path attempt] else [])"

definition span_end :: "Client \<Rightarrow> bytes \<Rightarrow> bytes \<Rightarrow> bytes \<Rightarrow> nat \<Rightarrow> int \<Rightarrow> bool \<Rightarrow> telemetry_event list" where
  "span_end c op method path attempt status ok = (if cl_hook c then [RequestEndEvent op method path attempt status ok] else [])"

section \<open>What a request carries\<close>

lemma canonical_names:
  "canonical_key ''X-Tenant-ID'' = ''X-Tenant-Id''" "canonical_key ''X-Axiam-Tenant'' = ''X-Axiam-Tenant''"
  "canonical_key ''X-CSRF-Token'' = ''X-Csrf-Token''" "canonical_key ''Authorization'' = ''Authorization''"
  "canonical_key ''Content-Type'' = ''Content-Type''"
  by code_simp+

lemma header_get_set:
  "header_get k (header_set k' v h) = (if canonical_key k = canonical_key k' then v else header_get k h)"
  by (simp add: header_get_def header_set_def update_conv')

lemma set_header_simps [simp]:
  "rq_method (set_header k v req) = rq_method req" "rq_url (set_header k v req) = rq_url req"
  "rq_query (set_header k v req) = rq_query req"
  "rq_body (set_header k v req) = rq_body req" "rq_headers (set_header k v req) = header_set k v (rq_headers req)"
  by (simp_all add: set_header_def)

lemma decorate_keeps [simp]:
  "rq_method (decorateRequest c s req) = rq_method req" "rq_url (decorateRequest c s req) = rq_url req"
  "rq_query (decorateRequest c s req) = rq_query req" "rq_body (decorateRequest c s req) = rq_body req"
  by (simp_all add: decorateRequest_def Let_def split: option.split)

lemma path_by_url:
  "rq_url req = rq_url req' \<Longrightarrow> isOAuth2Path c req = isOAuth2Path c req'"
  "rq_url req = rq_url req' \<Longrightarrow> same_origin c req = same_origin c req'"
  by (simp_all add: isOAuth2Path_def same_origin_def)

lemma decorate_path [simp]:
  "isOAuth2Path c' (decorateRequest c s req) = isOAuth2Path c' req"
  "same_origin c' (decorateRequest c s req) = same_origin c' req"
  by (simp_all add: path_by_url [where req = "decorateRequest c s req" and req' = req])

text \<open>
  The headers \<open>decorateRequest\<close> may set, one at a time. Each is set under the condition on the right and
  otherwise left as the caller made it.
\<close>

lemma decorate_authorization:
  "header_get ''Authorization'' (rq_headers (decorateRequest c s req)) =
     (if same_origin c req \<and> \<not> isOAuth2Path c req \<and> adopted_token s \<noteq> [] \<and> header_get ''Authorization'' (rq_headers req) = []
      then ''Bearer '' @ adopted_token s else header_get ''Authorization'' (rq_headers req))"
  by (simp add: decorateRequest_def Let_def header_get_set canonical_names split: option.split)

lemma decorate_csrf:
  "header_get ''X-CSRF-Token'' (rq_headers (decorateRequest c s req)) =
     (if same_origin c req \<and> \<not> isOAuth2Path c req \<and> cs_csrfToken s \<noteq> [] \<and> map upper (rq_method req) \<in> set stateChangingMethods
      then cs_csrfToken s else header_get ''X-CSRF-Token'' (rq_headers req))"
  by (simp add: decorateRequest_def Let_def header_get_set canonical_names split: option.split)

lemma decorate_acting:
  "header_get ''X-Axiam-Tenant'' (rq_headers (decorateRequest c s req)) =
     (case cl_actingTenant c of
        Some t \<Rightarrow> if same_origin c req then t else header_get ''X-Axiam-Tenant'' (rq_headers req)
      | None \<Rightarrow> header_get ''X-Axiam-Tenant'' (rq_headers req))"
  by (simp add: decorateRequest_def Let_def header_get_set canonical_names split: option.split)

section \<open>Properties\<close>

text \<open>
  (C3) What leaves the client on a request, whatever the session holds: the adopted credential, the CSRF
  token and the acting tenant only to the client's own host, the first two never to an OAuth
  endpoint, and never over an \<open>Authorization\<close> header the caller set; the cookies only to the own
  host, never to an OAuth endpoint and never beside a device credential. The acting tenant sent
  is the handle's own.
\<close>

theorem credentials_stay_home:
  "let out = rq_headers (decorateRequest c s req);
       home = same_origin c req; oauth = isOAuth2Path c req in
   header_get ''Authorization'' out =
     (if home \<and> \<not> oauth \<and> adopted_token s \<noteq> [] \<and> header_get ''Authorization'' (rq_headers req) = []
      then ''Bearer '' @ adopted_token s else header_get ''Authorization'' (rq_headers req)) \<and>
   header_get ''X-CSRF-Token'' out =
     (if home \<and> \<not> oauth \<and> cs_csrfToken s \<noteq> [] \<and> map upper (rq_method req) \<in> set stateChangingMethods
      then cs_csrfToken s else header_get ''X-CSRF-Token'' (rq_headers req)) \<and>
   header_get ''X-Axiam-Tenant'' out =
     (case cl_actingTenant c of
        Some t \<Rightarrow> if home then t else header_get ''X-Axiam-Tenant'' (rq_headers req)
      | None \<Rightarrow> header_get ''X-Axiam-Tenant'' (rq_headers req)) \<and>
   outbound_cookies c s (decorateRequest c s req) =
     (if home \<and> \<not> oauth \<and> cs_deviceToken s = [] then cs_jar s else [])"
  unfolding Let_def decorate_authorization decorate_csrf decorate_acting outbound_cookies_def by simp

text \<open>
  (C32) The acting-tenant gate: a handle for a tenant is refused exactly when the client is closed, or the
  session knows its principal and that principal is not of the organization's level or has a
  list of reachable tenants without it; otherwise the new handle differs from the old in its
  acting tenant alone, and the old one still acts on its own.
\<close>

theorem acting_tenant_gate:
  "case ActingTenant t c s of
     Inr c' \<Rightarrow> \<not> cs_closed s \<and>
       (if sc_known (cs_scope s)
        then sc_organizationLevel (cs_scope s) \<and>
          (case sc_reachableTenantIDs (cs_scope s) of None \<Rightarrow> True | Some ids \<Rightarrow> t \<in> set ids)
        else True) \<and>
       c' = c\<lparr>cl_actingTenant := Some t\<rparr> \<and> ClearActingTenant c' = ClearActingTenant c
   | Inl err \<Rightarrow> (if cs_closed s then errors_is err ErrNetwork
       else errors_is err ErrAuthz \<and> sc_known (cs_scope s) \<and>
         (sc_organizationLevel (cs_scope s) = False \<or>
          (case sc_reachableTenantIDs (cs_scope s) of None \<Rightarrow> False | Some ids \<Rightarrow> t \<notin> set ids)))"
  by (auto simp: ActingTenant_def ensureOpen_def checkActingTenantReach_def ClearActingTenant_def Let_def
      NetworkError_def AuthzError_def errors_is.simps split: option.split)

end
