(* ===== verification/Go_Base64.thy ===== *)
theory Go_Base64
  imports Go_Strings
begin

text \<open>
  \<open>base64.RawURLEncoding.DecodeString\<close>: the URL alphabet without padding. As Go's decoder does, line
  breaks in the input are skipped and unused trailing bits are not checked.
\<close>

definition b64_value :: "char \<Rightarrow> nat option" where
  "b64_value c =
     (let n = of_char c in
      if 65 \<le> n \<and> n \<le> 90 then Some (n - 65)
      else if 97 \<le> n \<and> n \<le> 122 then Some (n - 71)
      else if 48 \<le> n \<and> n \<le> 57 then Some (n + 4)
      else if n = (45 :: nat) then Some 62 else if n = 95 then Some 63 else None)"

fun b64_decode_quads :: "nat list \<Rightarrow> bytes option" where
  "b64_decode_quads [] = Some []"
| "b64_decode_quads [a] = None"
| "b64_decode_quads [a, b] = Some [char_of (a * 4 + b div 16)]"
| "b64_decode_quads [a, b, c] = Some [char_of (a * 4 + b div 16), char_of ((b mod 16) * 16 + c div 4)]"
| "b64_decode_quads (a # b # c # d # r) =
     map_option (\<lambda>t. char_of (a * 4 + b div 16) # char_of ((b mod 16) * 16 + c div 4)
                      # char_of ((c mod 4) * 64 + d) # t) (b64_decode_quads r)"

definition b64url_decode :: "bytes \<Rightarrow> bytes option" where
  "b64url_decode s = Option.bind (those (map b64_value (filter (\<lambda>c. c \<notin> set [CHR 0x0A, CHR 0x0D]) s))) b64_decode_quads"

end
