(* ===== verification/Session.thy ===== *)
theory Session
  imports Client Json_Fields Go_Base64 "HOL-Library.List_Lexorder"
begin

text \<open>
  \<open>login.go\<close>, \<open>device_auth.go\<close> and the session part of the federation sign-in of \<open>oidc.go\<close>: the calls
  that establish, refresh and end a session. \<open>uuid.Parse\<close> of the third-party UUID package and the
  time until an HTTP date are arguments; the tail of an error text made with \<open>%v\<close> is left out.
\<close>

section \<open>Error responses\<close>

text \<open>The bytes of the section sign in the SDK's messages are left out, as are the contract references.\<close>

definition redacted_body_message :: bytes where
  "redacted_body_message = ''server returned an error response (body redacted; enable WithLogger for details)''"

definition readBodyForError :: "bytes \<Rightarrow> bytes \<times> bytes" where
  "readBodyForError body = (redacted_body_message, take 4096 body)"

definition parseRetryAfter :: "(bytes \<Rightarrow> duration option) \<Rightarrow> bytes \<Rightarrow> duration" where
  "parseRetryAfter until header0 =
     (let header = trim_space header0 in
      if header = [] then 0
      else case parse_int64 header of
        Some secs \<Rightarrow> if secs \<le> 0 then 0 else wrap64 (secs * Second)
      | None \<Rightarrow> (case until header of None \<Rightarrow> 0 | Some d \<Rightarrow> if d > 0 then d else 0))"

definition mapErrorResponse :: "(bytes \<Rightarrow> duration option) \<Rightarrow> http_reply \<Rightarrow> go_error" where
  "mapErrorResponse until resp =
     (let (message, body) = readBodyForError (rs_body resp) in
      case errorFromHTTPStatus (rs_status resp) message
             (Some \<lparr>status_code = rs_status resp, headers = rs_headers resp\<rparr>) None of
        EAuthz e \<Rightarrow> (let (action, resource) = parseAuthzFields body in EAuthz (e\<lparr>az_action := action, az_resource_id := resource\<rparr>))
      | ENetwork m r cause \<Rightarrow> ENetwork m (parseRetryAfter until (header_get ''Retry-After'' (rs_headers resp))) cause
      | err \<Rightarrow> err)"

definition deserErr :: go_error where "deserErr = NetworkError ''failed to parse response body: ''"

section \<open>Wire shapes\<close>

record loginUserInfoWire =
  lu_OrganizationLevel :: bool
  lu_TenantID :: "bytes option"
  lu_PrincipalTenantID :: "bytes option"
  lu_PrincipalTenantSlug :: "bytes option"
  lu_OrgID :: "bytes option"
  lu_ReachableTenantIDs :: "bytes list option"

record loginSuccessResponseWire =
  lw_SessionID :: bytes
  lw_ExpiresIn :: nat
  lw_User :: loginUserInfoWire

record LoginResult =
  lr_MFARequired :: bool
  lr_MFAToken :: bytes
  lr_AvailableMethods :: "bytes list"
  lr_MFASetupRequired :: bool
  lr_SetupToken :: bytes
  lr_SessionID :: bytes
  lr_ExpiresIn :: nat
  lr_OrganizationLevel :: bool
  lr_TenantID :: "bytes option"
  lr_PrincipalTenantID :: "bytes option"
  lr_PrincipalTenantSlug :: "bytes option"
  lr_OrgID :: "bytes option"
  lr_ReachableTenantIDs :: "bytes list option"

definition zero_login :: LoginResult where
  "zero_login = \<lparr>lr_MFARequired = False, lr_MFAToken = [], lr_AvailableMethods = [], lr_MFASetupRequired = False,
     lr_SetupToken = [], lr_SessionID = [], lr_ExpiresIn = 0, lr_OrganizationLevel = False, lr_TenantID = None,
     lr_PrincipalTenantID = None, lr_PrincipalTenantSlug = None, lr_OrgID = None, lr_ReachableTenantIDs = None\<rparr>"

definition zero_uuid :: bytes where "zero_uuid = ''00000000-0000-0000-0000-000000000000''"

definition uuid_value :: "(bytes \<Rightarrow> bytes option) \<Rightarrow> json \<Rightarrow> bytes option" where
  "uuid_value uuid v = dec_text uuid zero_uuid [v]"

definition user_names :: "bytes list" where
  "user_names = [''organization_level'', ''tenant_id'', ''principal_tenant_id'', ''principal_tenant_slug'', ''org_id'', ''reachable_tenant_ids'']"

definition decode_user :: "(bytes \<Rightarrow> bytes option) \<Rightarrow> (bytes \<times> json) list \<Rightarrow> loginUserInfoWire option" where
  "decode_user uuid ms =
     (let f = (\<lambda>n. field_values user_names n ms) in
      Option.bind (dec_bool False (f ''organization_level'')) (\<lambda>level.
      Option.bind (dec_text_ptr uuid None (f ''tenant_id'')) (\<lambda>tenant.
      Option.bind (dec_text_ptr uuid None (f ''principal_tenant_id'')) (\<lambda>ptenant.
      Option.bind (dec_string_ptr None (f ''principal_tenant_slug'')) (\<lambda>pslug.
      Option.bind (dec_text_ptr uuid None (f ''org_id'')) (\<lambda>org.
      Option.bind (dec_slice (uuid_value uuid) None (f ''reachable_tenant_ids'')) (\<lambda>ids.
      Some \<lparr>lu_OrganizationLevel = level, lu_TenantID = tenant, lu_PrincipalTenantID = ptenant,
            lu_PrincipalTenantSlug = pslug, lu_OrgID = org, lu_ReachableTenantIDs = ids\<rparr>)))))))"

definition decode_login_success :: "(bytes \<Rightarrow> bytes option) \<Rightarrow> bytes \<Rightarrow> loginSuccessResponseWire option" where
  "decode_login_success uuid body =
     Option.bind (stream_members body) (\<lambda>ms.
     let f = (\<lambda>n. field_values [''session_id'', ''expires_in'', ''user''] n ms) in
     Option.bind (dec_text uuid zero_uuid (f ''session_id'')) (\<lambda>sid.
     Option.bind (dec_uint 64 0 (f ''expires_in'')) (\<lambda>expires.
     Option.bind (Option.bind (dec_members (f ''user'')) (decode_user uuid)) (\<lambda>user.
     Some \<lparr>lw_SessionID = sid, lw_ExpiresIn = expires, lw_User = user\<rparr>))))"

definition decode_mfa_required :: "bytes \<Rightarrow> (bytes \<times> bytes list) option" where
  "decode_mfa_required body =
     Option.bind (stream_members body) (\<lambda>ms.
     let f = (\<lambda>n. field_values [''challenge_token'', ''available_methods''] n ms) in
     Option.bind (dec_string [] (f ''challenge_token'')) (\<lambda>token.
     Option.bind (dec_strings [] (f ''available_methods'')) (\<lambda>methods. Some (token, methods))))"

definition decode_mfa_setup :: "bytes \<Rightarrow> (bool \<times> bytes) option" where
  "decode_mfa_setup body =
     Option.bind (body_members body) (\<lambda>ms.
     let f = (\<lambda>n. field_values [''mfa_setup_required'', ''setup_token''] n ms) in
     Option.bind (dec_bool False (f ''mfa_setup_required'')) (\<lambda>req.
     Option.bind (dec_string [] (f ''setup_token'')) (\<lambda>token. Some (req, token))))"

definition principalScope :: "loginUserInfoWire \<Rightarrow> LoginResult \<Rightarrow> LoginResult" where
  "principalScope user into = into\<lparr>lr_TenantID := lu_TenantID user,
     lr_PrincipalTenantID := (case lu_PrincipalTenantID user of None \<Rightarrow> lu_TenantID user | Some t \<Rightarrow> Some t),
     lr_PrincipalTenantSlug := lu_PrincipalTenantSlug user, lr_OrgID := lu_OrgID user,
     lr_ReachableTenantIDs := (case lu_ReachableTenantIDs user of Some (t # ts) \<Rightarrow> Some (t # ts) | _ \<Rightarrow> lr_ReachableTenantIDs into)\<rparr>"

section \<open>Claims of the session token\<close>

record unverifiedClaims =
  uc_Sub :: bytes
  uc_TenantID :: bytes
  uc_OrgID :: bytes
  uc_Jti :: bytes
  uc_Exp :: int

text \<open>The loop of \<open>splitJWT\<close>: the segment being read, and the rest.\<close>

fun split_from :: "bytes \<Rightarrow> bytes \<Rightarrow> bytes list" where
  "split_from seg [] = [seg]"
| "split_from seg (c # r) = (if c = CHR ''.'' then seg # split_from [] r else split_from (seg @ [c]) r)"

definition splitJWT :: "bytes \<Rightarrow> bytes list" where
  "splitJWT token = split_from [] token"

definition decode_claims :: "bytes \<Rightarrow> unverifiedClaims option" where
  "decode_claims payload =
     Option.bind (body_members payload) (\<lambda>ms.
     let f = (\<lambda>n. field_values [''sub'', ''tenant_id'', ''org_id'', ''jti'', ''exp''] n ms) in
     Option.bind (dec_string [] (f ''sub'')) (\<lambda>sub.
     Option.bind (dec_string [] (f ''tenant_id'')) (\<lambda>tenant.
     Option.bind (dec_string [] (f ''org_id'')) (\<lambda>org.
     Option.bind (dec_string [] (f ''jti'')) (\<lambda>jti.
     Option.bind (dec_int64 0 (f ''exp'')) (\<lambda>expiry.
     Some \<lparr>uc_Sub = sub, uc_TenantID = tenant, uc_OrgID = org, uc_Jti = jti, uc_Exp = expiry\<rparr>))))))"

definition decodeUnverifiedClaims :: "bytes \<Rightarrow> unverifiedClaims option" where
  "decodeUnverifiedClaims token =
     (let parts = splitJWT token in
      if length parts \<noteq> 3 then None else Option.bind (b64url_decode (parts ! 1)) decode_claims)"

definition accessCookie :: bytes where "accessCookie = ''axiam_access''"
definition refreshCookie :: bytes where "refreshCookie = ''axiam_refresh''"

definition cookieValue :: "bytes \<Rightarrow> clientSession \<Rightarrow> bytes" where
  "cookieValue name s = (case map_of (cs_jar s) name of None \<Rightarrow> [] | Some v \<Rightarrow> v)"

definition absorbSessionCookies :: "(bytes \<Rightarrow> bytes option) \<Rightarrow> clientSession \<Rightarrow> go_error option \<times> clientSession" where
  "absorbSessionCookies uuid s =
     (let access = cookieValue accessCookie s; refresh = cookieValue refreshCookie s in
      if access = [] then (Some (AuthError ''server response did not set the axiam_access cookie''), s)
      else case decodeUnverifiedClaims access of
        None \<Rightarrow> (Some (AuthError ''failed to decode access token claims: ''), s)
      | Some claims \<Rightarrow>
        (let s1 = (if uc_OrgID claims \<noteq> [] then (case uuid (uc_OrgID claims) of None \<Rightarrow> s | Some u \<Rightarrow> setResolvedOrgID u s) else s)
         in (None, s1\<lparr>cs_guard := Seed access refresh (uc_Exp claims) (cs_guard s1)\<rparr>)))"

section \<open>Bodies\<close>

definition workspace_members :: "Client \<Rightarrow> (bytes \<times> json) list" where
  "workspace_members c =
     (case cl_org c of OrgID i \<Rightarrow> [str_member True ''org_id'' i] | _ \<Rightarrow> [])
     @ [str_member True ''tenant_slug'' (cl_tenantSlug c)]
     @ (case cl_org c of OrgSlug s \<Rightarrow> [str_member True ''org_slug'' s] | _ \<Rightarrow> [])"

definition buildLoginBody :: "Client \<Rightarrow> bytes \<Rightarrow> bytes \<Rightarrow> bytes" where
  "buildLoginBody c email password =
     obj_body (workspace_members c @ [str_member True ''username_or_email'' email, str_member True ''password'' password])"

section \<open>Completing a session\<close>

text \<open>What every call that returns a completed \<open>LoginResult\<close> does with its 200 response.\<close>

definition complete_login ::
  "(bytes \<Rightarrow> bytes option) \<Rightarrow> http_reply \<Rightarrow> clientSession \<Rightarrow> (go_error + LoginResult) \<times> clientSession" where
  "complete_login uuid resp s =
     (case decode_login_success uuid (rs_body resp) of
        None \<Rightarrow> (Inl deserErr, s)
      | Some wire \<Rightarrow>
        (case absorbSessionCookies uuid s of
           (Some err, s1) \<Rightarrow> (Inl err, s1)
         | (None, s1) \<Rightarrow>
           (let result = principalScope (lw_User wire) (zero_login\<lparr>lr_SessionID := lw_SessionID wire,
                           lr_ExpiresIn := lw_ExpiresIn wire, lr_OrganizationLevel := lu_OrganizationLevel (lw_User wire)\<rparr>)
            in (Inr result, setScope (lr_OrganizationLevel result) (lr_ReachableTenantIDs result)
                              (setPrincipalTenantID (lr_PrincipalTenantID result) s1)))))"

definition forget_credentials :: "clientSession \<Rightarrow> clientSession" where
  "forget_credentials s = replaceDeviceCredential (resetScopeUnknown (onCredentialChange s))"

text \<open>The \<open>switch\<close> on the status of a login response.\<close>

definition login_response ::
  "(bytes \<Rightarrow> bytes option) \<Rightarrow> (bytes \<Rightarrow> duration option) \<Rightarrow> http_reply \<Rightarrow> clientSession \<Rightarrow>
   (go_error + LoginResult) \<times> clientSession" where
  "login_response uuid until resp s =
     (if rs_status resp = 200 then complete_login uuid resp s
      else if rs_status resp = 202 then
        (case decode_mfa_required (rs_body resp) of
           None \<Rightarrow> (Inl deserErr, s)
         | Some (token, methods) \<Rightarrow>
             (Inr (zero_login\<lparr>lr_MFARequired := True, lr_MFAToken := token, lr_AvailableMethods := methods\<rparr>), s))
      else if rs_status resp = 403 then
        (case decode_mfa_setup (rs_body resp) of
           Some (True, c # token) \<Rightarrow> (Inr (zero_login\<lparr>lr_MFASetupRequired := True, lr_SetupToken := c # token\<rparr>), s)
         | _ \<Rightarrow> (Inl (mapErrorResponse until resp), s))
      else (Inl (mapErrorResponse until resp), s))"

definition Login ::
  "'w transport \<Rightarrow> (bytes \<Rightarrow> bytes option) \<Rightarrow> (bytes \<Rightarrow> duration option) \<Rightarrow> Client \<Rightarrow> bytes \<Rightarrow> bytes \<Rightarrow> clientSession \<Rightarrow> 'w \<Rightarrow>
   (go_error + LoginResult) \<times> clientSession \<times> 'w" where
  "Login send uuid until c email password s w =
     (case ensureOpen s of Some err \<Rightarrow> (Inl err, s, w)
      | None \<Rightarrow>
        (case doRequest send c (newRequest c ''POST'' ''/api/v1/auth/login'' (Some (buildLoginBody c email password)))
                (forget_credentials s) w of
           (Inl err, s1, w1) \<Rightarrow> (Inl err, s1, w1)
         | (Inr resp, s1, w1) \<Rightarrow> (let (r, s2) = login_response uuid until resp s1 in (r, s2, w1))))"

definition VerifyMfa ::
  "'w transport \<Rightarrow> (bytes \<Rightarrow> bytes option) \<Rightarrow> (bytes \<Rightarrow> duration option) \<Rightarrow> Client \<Rightarrow> bytes \<Rightarrow> bytes \<Rightarrow> clientSession \<Rightarrow> 'w \<Rightarrow>
   (go_error + LoginResult) \<times> clientSession \<times> 'w" where
  "VerifyMfa send uuid until c mfaToken code s w =
     (case ensureOpen s of Some err \<Rightarrow> (Inl err, s, w)
      | None \<Rightarrow>
        (case doRequest send c (newRequest c ''POST'' ''/api/v1/auth/mfa/verify''
                  (Some (obj_body [str_member True ''challenge_token'' mfaToken, str_member True ''totp_code'' code])))
                (forget_credentials s) w of
           (Inl err, s1, w1) \<Rightarrow> (Inl err, s1, w1)
         | (Inr resp, s1, w1) \<Rightarrow>
           (let (r, s2) = (if rs_status resp \<noteq> 200 then (Inl (mapErrorResponse until resp), s1) else complete_login uuid resp s1)
            in (r, s2, w1))))"

section \<open>Refresh\<close>

definition resolvedOrgTenantID :: "(bytes \<Rightarrow> bytes option) \<Rightarrow> clientSession \<Rightarrow> bytes option" where
  "resolvedOrgTenantID uuid s =
     (let access = cookieValue accessCookie s in
      if access = [] then None
      else case decodeUnverifiedClaims access of
        None \<Rightarrow> None
      | Some claims \<Rightarrow> if uc_TenantID claims = [] then None else uuid (uc_TenantID claims))"

definition decode_refresh :: "bytes \<Rightarrow> nat option" where
  "decode_refresh body = Option.bind (stream_members body) (\<lambda>ms. dec_uint 64 0 (field_values [''expires_in''] ''expires_in'' ms))"

text \<open>The one refresh call the guard lets through.\<close>

definition refresh_call ::
  "'w transport \<Rightarrow> (bytes \<Rightarrow> duration option) \<Rightarrow> Client \<Rightarrow> bytes \<Rightarrow> bytes \<Rightarrow> clientSession \<times> 'w \<Rightarrow>
   (go_error + RefreshedTokens) \<times> (clientSession \<times> 'w)" where
  "refresh_call send until c tenantID orgID sw =
     (case doRequest send c (newRequest c ''POST'' ''/api/v1/auth/refresh''
               (Some (obj_body [str_member True ''tenant_id'' tenantID, str_member True ''org_id'' orgID]))) (fst sw) (snd sw) of
        (Inl err, s1, w1) \<Rightarrow> (Inl err, (s1, w1))
      | (Inr resp, s1, w1) \<Rightarrow>
        (if rs_status resp \<noteq> 200 then (Inl (mapErrorResponse until resp), (s1, w1))
         else case decode_refresh (rs_body resp) of
           None \<Rightarrow> (Inl deserErr, (s1, w1))
         | Some _ \<Rightarrow>
           (let newAccess = cookieValue accessCookie s1; newRefresh = cookieValue refreshCookie s1 in
            if newAccess = [] then (Inl (AuthError ''refresh response did not set axiam_access''), (s1, w1))
            else case decodeUnverifiedClaims newAccess of
              None \<Rightarrow> (Inl (AuthError ''failed to decode refreshed access token claims: ''), (s1, w1))
            | Some claims \<Rightarrow> (Inr \<lparr>rt_Access = newAccess, rt_Refresh = newRefresh, rt_Exp = uc_Exp claims\<rparr>, (s1, w1)))))"

definition Refresh ::
  "'w transport \<Rightarrow> (bytes \<Rightarrow> bytes option) \<Rightarrow> (bytes \<Rightarrow> duration option) \<Rightarrow> Client \<Rightarrow> clientSession \<Rightarrow> 'w \<Rightarrow>
   go_error option \<times> clientSession \<times> 'w" where
  "Refresh send uuid until c s w =
     (case ensureOpen s of Some err \<Rightarrow> (Some err, s, w)
      | None \<Rightarrow>
        (let s0 = onCredentialChange s; observed = cookieValue accessCookie s0 in
         if observed = [] then (Some (AuthError ''no access token to refresh''), s0, w)
         else case resolvedOrgTenantID uuid s0 of
           None \<Rightarrow> (Some (AuthError ''tenant_id could not be resolved; Login() must succeed before Refresh()''), s0, w)
         | Some tenantID \<Rightarrow>
           (case resolvedOrgID c s0 of
              None \<Rightarrow> (Some (AuthError ''org_id could not be resolved; Login() must succeed before Refresh()''), s0, w)
            | Some orgID \<Rightarrow>
              (case RefreshIfNeeded observed (refresh_call send until c tenantID orgID) (cs_guard s0) (s0, w) of
                 (Inl err, g, (s1, w1)) \<Rightarrow> (Some err, s1\<lparr>cs_guard := g\<rparr>, w1)
               | (Inr _, g, (s1, w1)) \<Rightarrow> (None, s1\<lparr>cs_guard := g\<rparr>, w1)))))"

section \<open>Logout, the device login, the federation sign-in\<close>

definition Logout ::
  "'w transport \<Rightarrow> (bytes \<Rightarrow> bytes option) \<Rightarrow> (bytes \<Rightarrow> duration option) \<Rightarrow> Client \<Rightarrow> clientSession \<Rightarrow> 'w \<Rightarrow>
   go_error option \<times> clientSession \<times> 'w" where
  "Logout send uuid until c s w =
     (case ensureOpen s of Some err \<Rightarrow> (Some err, s, w)
      | None \<Rightarrow>
        (let s0 = forget_credentials s; access = cookieValue accessCookie s0 in
         if access = [] then (Some (AuthError ''no active session to log out''), s0, w)
         else case decodeUnverifiedClaims access of
           None \<Rightarrow> (Some (AuthError ''failed to decode access token claims: ''), s0, w)
         | Some claims \<Rightarrow>
           (case uuid (uc_Jti claims) of
              None \<Rightarrow> (Some (AuthError ''access token has no session id (jti) to log out''), s0, w)
            | Some sid \<Rightarrow>
              (case doRequest send c (newRequest c ''POST'' ''/api/v1/auth/logout''
                      (Some (obj_body [str_member True ''session_id'' sid]))) s0 w of
                 (Inl err, s1, w1) \<Rightarrow> (Some err, s1, w1)
               | (Inr resp, s1, w1) \<Rightarrow>
                 if rs_status resp \<ge> 300 then (Some (mapErrorResponse until resp), s1, w1)
                 else (None, s1\<lparr>cs_guard := zero_guard\<rparr>, w1)))))"

record DeviceToken =
  dt_AccessToken :: bytes
  dt_TokenType :: bytes
  dt_ExpiresIn :: nat

definition decode_device_token :: "bytes \<Rightarrow> DeviceToken option" where
  "decode_device_token body =
     Option.bind (stream_members body) (\<lambda>ms.
     let f = (\<lambda>n. field_values [''access_token'', ''token_type'', ''expires_in''] n ms) in
     Option.bind (dec_string [] (f ''access_token'')) (\<lambda>token.
     Option.bind (dec_string [] (f ''token_type'')) (\<lambda>typ.
     Option.bind (dec_uint 64 0 (f ''expires_in'')) (\<lambda>expires.
     Some \<lparr>dt_AccessToken = token, dt_TokenType = typ, dt_ExpiresIn = expires\<rparr>))))"

text \<open>\<open>deviceAuthPost\<close>: no credential and no cookie, and not through \<open>doRequest\<close>.\<close>

definition deviceAuthPost ::
  "'w transport \<Rightarrow> Client \<Rightarrow> clientSession \<Rightarrow> 'w \<Rightarrow> (go_error + http_reply) \<times> clientSession \<times> 'w" where
  "deviceAuthPost send c s w =
     (let req = set_header ''X-Tenant-ID'' (cl_tenantSlug c) (newRequest c ''POST'' ''/api/v1/auth/device'' None);
          req' = (case cl_actingTenant c of None \<Rightarrow> req | Some t \<Rightarrow> set_header ''X-Axiam-Tenant'' t req);
          (res, w') = send req' [] w
      in case res of
           Inl e \<Rightarrow> (Inl (newNetworkError (''request failed: '' @ e) None (Some (EPlain e))), s, w')
         | Inr resp \<Rightarrow> (Inr resp, captureCSRF resp (store_cookies resp s), w'))"

definition AuthenticateDevice ::
  "'w transport \<Rightarrow> (bytes \<Rightarrow> duration option) \<Rightarrow> Client \<Rightarrow> clientSession \<Rightarrow> 'w \<Rightarrow>
   (go_error + DeviceToken) \<times> clientSession \<times> 'w" where
  "AuthenticateDevice send until c s w =
     (case ensureOpen s of Some err \<Rightarrow> (Inl err, s, w)
      | None \<Rightarrow>
        if \<not> cl_presentsClientCertificate c
        then (Inl (AuthError ''AuthenticateDevice requires a client certificate''), s, w)
        else case deviceAuthPost send c s w of
          (Inl err, s1, w1) \<Rightarrow> (Inl err, s1, w1)
        | (Inr resp, s1, w1) \<Rightarrow>
          (if rs_status resp \<noteq> 200 then (Inl (mapErrorResponse until resp), s1, w1)
           else case decode_device_token (rs_body resp) of
             None \<Rightarrow> (Inl deserErr, s1, w1)
           | Some t \<Rightarrow>
             (Inr t, adoptDeviceCredential (dt_AccessToken t)
                       (forget_credentials (adoptOidcCredential [] (s1\<lparr>cs_guard := zero_guard\<rparr>))), w1)))"

record SsoCompleteResult =
  so_UserID :: bytes
  so_SessionID :: bytes
  so_ExpiresIn :: int
  so_RedirectURI :: bytes

definition decode_sso :: "bytes \<Rightarrow> SsoCompleteResult option" where
  "decode_sso body =
     Option.bind (stream_members body) (\<lambda>ms.
     let f = (\<lambda>n. field_values [''user_id'', ''session_id'', ''expires_in'', ''redirect_uri''] n ms) in
     Option.bind (dec_string [] (f ''user_id'')) (\<lambda>user.
     Option.bind (dec_string [] (f ''session_id'')) (\<lambda>sid.
     Option.bind (dec_int64 0 (f ''expires_in'')) (\<lambda>expires.
     Option.bind (dec_string [] (f ''redirect_uri'')) (\<lambda>uri.
     Some \<lparr>so_UserID = user, so_SessionID = sid, so_ExpiresIn = expires, so_RedirectURI = uri\<rparr>)))))"

text \<open>\<open>completeFederationSession\<close>, and \<open>SsoComplete\<close>, which is the same with its own path and body.\<close>

definition completeFederationSession ::
  "'w transport \<Rightarrow> (bytes \<Rightarrow> bytes option) \<Rightarrow> (bytes \<Rightarrow> duration option) \<Rightarrow> Client \<Rightarrow> bytes \<Rightarrow> (bytes \<times> bytes) list \<Rightarrow>
   clientSession \<Rightarrow> 'w \<Rightarrow> (go_error + SsoCompleteResult) \<times> clientSession \<times> 'w" where
  "completeFederationSession send uuid until c path body s w =
     (case doRequest send c (newRequest c ''POST'' path
             (Some (obj_body (map (\<lambda>(k, v). (escape_from True k, json_string True v)) (sort_key fst body))))) s w of
        (Inl err, s1, w1) \<Rightarrow> (Inl err, s1, w1)
      | (Inr resp, s1, w1) \<Rightarrow>
        (if rs_status resp \<noteq> 200 then (Inl (mapErrorResponse until resp), s1, w1)
         else case decode_sso (rs_body resp) of
           None \<Rightarrow> (Inl deserErr, s1, w1)
         | Some result \<Rightarrow>
           (case absorbSessionCookies uuid s1 of
              (Some err, s2) \<Rightarrow> (Inl err, s2, w1)
            | (None, s2) \<Rightarrow> (Inr result, forget_credentials s2, w1))))"

definition SsoComplete ::
  "'w transport \<Rightarrow> (bytes \<Rightarrow> bytes option) \<Rightarrow> (bytes \<Rightarrow> duration option) \<Rightarrow> Client \<Rightarrow> bytes \<Rightarrow> bytes \<Rightarrow>
   clientSession \<Rightarrow> 'w \<Rightarrow> (go_error + SsoCompleteResult) \<times> clientSession \<times> 'w" where
  "SsoComplete send uuid until c state code s w =
     completeFederationSession send uuid until c ''/api/v1/auth/federation/oidc/callback''
       [(''state'', state), (''code'', code)] s w"

section \<open>What each call leaves alone\<close>

lemma store_cookies_keeps [simp]:
  "cs_guard (store_cookies r s) = cs_guard s" "cs_memo (store_cookies r s) = cs_memo s"
  "cs_closed (store_cookies r s) = cs_closed s" "cs_adoptedToken (store_cookies r s) = cs_adoptedToken s"
  "cs_scope (store_cookies r s) = cs_scope s" "cs_deviceToken (store_cookies r s) = cs_deviceToken s"
  by (simp_all add: store_cookies_def)

lemma captureCSRF_keeps [simp]:
  "cs_guard (captureCSRF r s) = cs_guard s" "cs_memo (captureCSRF r s) = cs_memo s"
  "cs_closed (captureCSRF r s) = cs_closed s" "cs_adoptedToken (captureCSRF r s) = cs_adoptedToken s"
  "cs_scope (captureCSRF r s) = cs_scope s" "cs_deviceToken (captureCSRF r s) = cs_deviceToken s"
  "cs_jar (captureCSRF r s) = cs_jar s"
  by (simp_all add: captureCSRF_def Let_def)

lemma doRequest_keeps:
  assumes "doRequest send c req s w = (r, s', w')"
  shows "cs_guard s' = cs_guard s" "cs_memo s' = cs_memo s" "cs_closed s' = cs_closed s"
    "cs_adoptedToken s' = cs_adoptedToken s" "cs_scope s' = cs_scope s" "cs_deviceToken s' = cs_deviceToken s"
  using assms by (auto simp: doRequest_def Let_def case_prod_unfold split: sum.splits if_splits)

lemma session_updates [simp]:
  "cs_closed (onCredentialChange s) = cs_closed s" "cs_adoptedToken (onCredentialChange s) = cs_adoptedToken s"
  "cs_scope (onCredentialChange s) = cs_scope s" "cs_deviceToken (onCredentialChange s) = cs_deviceToken s"
  "cs_guard (onCredentialChange s) = cs_guard s" "cs_memo (onCredentialChange s) = memo_clear (cs_memo s)"
  "cs_jar (onCredentialChange s) = cs_jar s"
  "cs_closed (forget_credentials s) = cs_closed s" "cs_adoptedToken (forget_credentials s) = cs_adoptedToken s"
  "cs_scope (forget_credentials s) = unknown_scope" "cs_deviceToken (forget_credentials s) = []"
  "cs_guard (forget_credentials s) = cs_guard s" "cs_memo (forget_credentials s) = memo_clear (cs_memo s)"
  "cs_jar (forget_credentials s) = cs_jar s"
  "cs_closed (setScope l i s) = cs_closed s" "cs_adoptedToken (setScope l i s) = cs_adoptedToken s"
  "cs_deviceToken (setScope l i s) = cs_deviceToken s" "cs_memo (setScope l i s) = cs_memo s"
  "cs_scope (setScope l i s) = \<lparr>sc_known = True, sc_organizationLevel = l, sc_reachableTenantIDs = i\<rparr>"
  "cs_closed (setPrincipalTenantID p s) = cs_closed s" "cs_adoptedToken (setPrincipalTenantID p s) = cs_adoptedToken s"
  "cs_deviceToken (setPrincipalTenantID p s) = cs_deviceToken s" "cs_scope (setPrincipalTenantID p s) = cs_scope s"
  "cs_memo (setPrincipalTenantID p s) = cs_memo s"
  by (simp_all add: onCredentialChange_def forget_credentials_def replaceDeviceCredential_def adoptDeviceCredential_def
      resetScopeUnknown_def setScope_def setPrincipalTenantID_def split: option.split)

lemma absorb_keeps:
  assumes "absorbSessionCookies uuid s = (e, s')"
  shows "cs_memo s' = cs_memo s" "cs_closed s' = cs_closed s" "cs_adoptedToken s' = cs_adoptedToken s"
    "cs_scope s' = cs_scope s" "cs_deviceToken s' = cs_deviceToken s"
  using assms
  by (auto simp: absorbSessionCookies_def setResolvedOrgID_def Let_def split: if_splits option.splits)

text \<open>A login flow gives up the device credential and learns a scope exactly when it completes.\<close>

definition completed :: "go_error + LoginResult \<Rightarrow> bool" where
  "completed r = (case r of Inl _ \<Rightarrow> False | Inr l \<Rightarrow> \<not> lr_MFARequired l \<and> \<not> lr_MFASetupRequired l)"

lemma complete_login_effect:
  assumes "complete_login uuid resp s = (r, s')"
  shows "cs_closed s' = cs_closed s" "cs_adoptedToken s' = cs_adoptedToken s" "cs_deviceToken s' = cs_deviceToken s"
    "cs_memo s' = cs_memo s" "completed r = (case r of Inl _ \<Rightarrow> False | Inr _ \<Rightarrow> True)"
    "case r of Inl _ \<Rightarrow> cs_scope s' = cs_scope s
       | Inr l \<Rightarrow> cs_scope s' = \<lparr>sc_known = True, sc_organizationLevel = lr_OrganizationLevel l, sc_reachableTenantIDs = lr_ReachableTenantIDs l\<rparr>"
proof -
  have flags: "\<not> lr_MFARequired (principalScope u l) \<and> \<not> lr_MFASetupRequired (principalScope u l)"
    if "\<not> lr_MFARequired l" "\<not> lr_MFASetupRequired l" for u l
    using that by (simp add: principalScope_def)
  show "cs_closed s' = cs_closed s" "cs_adoptedToken s' = cs_adoptedToken s" "cs_deviceToken s' = cs_deviceToken s"
    "cs_memo s' = cs_memo s" "completed r = (case r of Inl _ \<Rightarrow> False | Inr _ \<Rightarrow> True)"
    "case r of Inl _ \<Rightarrow> cs_scope s' = cs_scope s
       | Inr l \<Rightarrow> cs_scope s' = \<lparr>sc_known = True, sc_organizationLevel = lr_OrganizationLevel l, sc_reachableTenantIDs = lr_ReachableTenantIDs l\<rparr>"
    using assms absorb_keeps flags
    by (auto simp: complete_login_def completed_def zero_login_def Let_def split: option.splits prod.splits)
qed

lemma login_response_cases:
  assumes "login_response uuid until resp s = (r, s')"
  shows "complete_login uuid resp s = (r, s') \<or> s' = s \<and> \<not> completed r"
  using assms by (auto simp: login_response_def completed_def zero_login_def
      split: if_splits option.splits prod.splits list.splits bool.splits)

lemma login_response_effect:
  assumes "login_response uuid until resp s = (r, s')"
  shows "cs_closed s' = cs_closed s" "cs_adoptedToken s' = cs_adoptedToken s" "cs_deviceToken s' = cs_deviceToken s"
    "cs_memo s' = cs_memo s" "if completed r then sc_known (cs_scope s') else cs_scope s' = cs_scope s"
  using login_response_cases [OF assms] complete_login_effect [of uuid resp s r s']
  by (auto split: sum.splits)

lemma Login_effect:
  assumes "Login send uuid until c email password s w = (r, s', w')" "\<not> cs_closed s"
  shows "\<not> cs_closed s'" "cs_adoptedToken s' = cs_adoptedToken s" "cs_deviceToken s' = []" "sc_known (cs_scope s') = completed r"
    "cs_memo s' = memo_clear (cs_memo s)"
proof -
  obtain r1 s1 w1 where d: "doRequest send c (newRequest c ''POST'' ''/api/v1/auth/login'' (Some (buildLoginBody c email password)))
      (forget_credentials s) w = (r1, s1, w1)" using prod_cases3 by blast
  note k = doRequest_keeps [OF d]
  show "\<not> cs_closed s'" "cs_adoptedToken s' = cs_adoptedToken s" "cs_deviceToken s' = []" "sc_known (cs_scope s') = completed r"
    "cs_memo s' = memo_clear (cs_memo s)"
    using assms k d login_response_effect [of uuid until _ s1 r s']
    by (auto simp: Login_def ensureOpen_def Let_def completed_def unknown_scope_def split: sum.splits prod.splits if_splits)
qed

lemma VerifyMfa_effect:
  assumes "VerifyMfa send uuid until c token code s w = (r, s', w')" "\<not> cs_closed s"
  shows "\<not> cs_closed s'" "cs_adoptedToken s' = cs_adoptedToken s" "cs_deviceToken s' = []" "sc_known (cs_scope s') = completed r"
    "cs_memo s' = memo_clear (cs_memo s)"
proof -
  obtain r1 s1 w1 where d: "doRequest send c (newRequest c ''POST'' ''/api/v1/auth/mfa/verify''
      (Some (obj_body [str_member True ''challenge_token'' token, str_member True ''totp_code'' code])))
      (forget_credentials s) w = (r1, s1, w1)" using prod_cases3 by blast
  note k = doRequest_keeps [OF d]
  show "\<not> cs_closed s'" "cs_adoptedToken s' = cs_adoptedToken s" "cs_deviceToken s' = []" "sc_known (cs_scope s') = completed r"
    "cs_memo s' = memo_clear (cs_memo s)"
    using assms k d complete_login_effect [of uuid _ s1 r s']
    by (auto simp: VerifyMfa_def ensureOpen_def Let_def completed_def unknown_scope_def split: sum.splits prod.splits if_splits)
qed

lemma refresh_call_keeps:
  assumes "refresh_call send until c t org sw = (r, sw')"
  shows "cs_closed (fst sw') = cs_closed (fst sw)" "cs_adoptedToken (fst sw') = cs_adoptedToken (fst sw)"
    "cs_deviceToken (fst sw') = cs_deviceToken (fst sw)" "cs_scope (fst sw') = cs_scope (fst sw)"
    "cs_memo (fst sw') = cs_memo (fst sw)" "cs_guard (fst sw') = cs_guard (fst sw)"
proof -
  obtain r1 s1 w1 where d: "doRequest send c (newRequest c ''POST'' ''/api/v1/auth/refresh''
      (Some (obj_body [str_member True ''tenant_id'' t, str_member True ''org_id'' org]))) (fst sw) (snd sw) = (r1, s1, w1)"
    using prod_cases3 by blast
  have "fst sw' = s1" using assms
    by (auto simp: refresh_call_def d Let_def split: sum.splits option.splits if_splits)
  with doRequest_keeps [OF d]
  show "cs_closed (fst sw') = cs_closed (fst sw)" "cs_adoptedToken (fst sw') = cs_adoptedToken (fst sw)"
    "cs_deviceToken (fst sw') = cs_deviceToken (fst sw)" "cs_scope (fst sw') = cs_scope (fst sw)"
    "cs_memo (fst sw') = cs_memo (fst sw)" "cs_guard (fst sw') = cs_guard (fst sw)"
    by simp_all
qed

lemma Refresh_keeps:
  assumes "Refresh send uuid until c s w = (r, s', w')"
  shows "cs_closed s' = cs_closed s" "cs_adoptedToken s' = cs_adoptedToken s" "cs_deviceToken s' = cs_deviceToken s"
    "cs_scope s' = cs_scope s"
proof -
  have k: "cs_closed s1 = cs_closed s0 \<and> cs_adoptedToken s1 = cs_adoptedToken s0 \<and>
      cs_deviceToken s1 = cs_deviceToken s0 \<and> cs_scope s1 = cs_scope s0"
    if "RefreshIfNeeded obs (refresh_call send until c t org) g (s0, w0) = (r', g', (s1, w1))" for obs t org g s0 w0 r' g' s1 w1
    using that refresh_call_keeps [of send until c t org "(s0, w0)"]
    by (auto simp: RefreshIfNeeded_def Let_def split: if_splits prod.splits sum.splits)
  show "cs_closed s' = cs_closed s" "cs_adoptedToken s' = cs_adoptedToken s" "cs_deviceToken s' = cs_deviceToken s"
    "cs_scope s' = cs_scope s"
    using assms k
    by (auto simp: Refresh_def ensureOpen_def Let_def split: if_splits option.splits prod.splits sum.splits)
qed

lemma Logout_effect:
  assumes "Logout send uuid until c s w = (r, s', w')" "\<not> cs_closed s"
  shows "\<not> cs_closed s'" "cs_adoptedToken s' = cs_adoptedToken s" "cs_deviceToken s' = []" "cs_scope s' = unknown_scope"
proof -
  have k: "\<not> cs_closed s1 \<and> cs_adoptedToken s1 = cs_adoptedToken s \<and> cs_deviceToken s1 = [] \<and> cs_scope s1 = unknown_scope"
    if "doRequest send c req (forget_credentials s) w = (r1, s1, w1)" for req r1 s1 w1
    using doRequest_keeps [OF that] assms(2) by simp
  show "\<not> cs_closed s'" "cs_adoptedToken s' = cs_adoptedToken s" "cs_deviceToken s' = []" "cs_scope s' = unknown_scope"
    using assms k
    by (auto simp: Logout_def ensureOpen_def Let_def split: if_splits option.splits prod.splits sum.splits)
qed

lemma device_effect:
  assumes "AuthenticateDevice send until c s w = (r, s', w')"
  shows "cs_closed s' = cs_closed s"
    "case r of Inl _ \<Rightarrow> cs_adoptedToken s' = cs_adoptedToken s \<and> cs_deviceToken s' = cs_deviceToken s \<and> cs_scope s' = cs_scope s
     | Inr t \<Rightarrow> cs_adoptedToken s' = [] \<and> cs_deviceToken s' = dt_AccessToken t \<and> cs_scope s' = unknown_scope"
  using assms
  by (auto simp: AuthenticateDevice_def deviceAuthPost_def ensureOpen_def Let_def adoptDeviceCredential_def adoptOidcCredential_def
      forget_credentials_def replaceDeviceCredential_def resetScopeUnknown_def onCredentialChange_def
      split: if_splits option.splits prod.splits sum.splits)

lemma federation_effect:
  assumes "completeFederationSession send uuid until c path body s w = (r, s', w')"
  shows "cs_closed s' = cs_closed s" "cs_adoptedToken s' = cs_adoptedToken s"
    "case r of Inl _ \<Rightarrow> cs_deviceToken s' = cs_deviceToken s \<and> cs_scope s' = cs_scope s \<and> cs_memo s' = cs_memo s
     | Inr _ \<Rightarrow> cs_deviceToken s' = [] \<and> cs_scope s' = unknown_scope"
proof -
  obtain r1 s1 w1 where d: "doRequest send c (newRequest c ''POST'' path
      (Some (obj_body (map (\<lambda>(k, v). (escape_from True k, json_string True v)) (sort_key fst body))))) s w = (r1, s1, w1)"
    using prod_cases3 by blast
  note k = doRequest_keeps [OF d]
  show "cs_closed s' = cs_closed s" "cs_adoptedToken s' = cs_adoptedToken s"
    "case r of Inl _ \<Rightarrow> cs_deviceToken s' = cs_deviceToken s \<and> cs_scope s' = cs_scope s \<and> cs_memo s' = cs_memo s
     | Inr _ \<Rightarrow> cs_deviceToken s' = [] \<and> cs_scope s' = unknown_scope"
    using assms k absorb_keeps
    by (auto simp: completeFederationSession_def d split: sum.splits option.splits prod.splits if_splits)
qed

section \<open>Sessions over time\<close>

text \<open>One call on some handle of the session, or a request or memo operation of some other part of the SDK.\<close>

inductive session_step ::
  "'w transport \<Rightarrow> (bytes \<Rightarrow> bytes option) \<Rightarrow> (bytes \<Rightarrow> duration option) \<Rightarrow> clientSession \<Rightarrow> clientSession \<Rightarrow> bool"
  for send uuid until where
  login: "Login send uuid until c email password s w = (r, s', w') \<Longrightarrow> session_step send uuid until s s'"
| verify: "VerifyMfa send uuid until c token code s w = (r', s', w') \<Longrightarrow> session_step send uuid until s s'"
| refresh: "Refresh send uuid until c s w = (e, s', w') \<Longrightarrow> session_step send uuid until s s'"
| logout: "Logout send uuid until c s w = (e', s', w') \<Longrightarrow> session_step send uuid until s s'"
| device: "AuthenticateDevice send until c s w = (d, s', w') \<Longrightarrow> session_step send uuid until s s'"
| federation: "completeFederationSession send uuid until c path body s w = (f, s', w') \<Longrightarrow> session_step send uuid until s s'"
| adopt: "session_step send uuid until s (adopt_credential bearer s)"
| request: "doRequest send c req s w = (p, s', w') \<Longrightarrow> session_step send uuid until s s'"
| memo: "session_step send uuid until s (s\<lparr>cs_memo := m\<rparr>)"
| close: "session_step send uuid until s (Close s)"

inductive session_reachable ::
  "'w transport \<Rightarrow> (bytes \<Rightarrow> bytes option) \<Rightarrow> (bytes \<Rightarrow> duration option) \<Rightarrow> clientSession \<Rightarrow> bool"
  for send uuid until where
  start: "session_reachable send uuid until (newSession ttl)"
| step: "session_reachable send uuid until s \<Longrightarrow> session_step send uuid until s s' \<Longrightarrow> session_reachable send uuid until s'"

definition credentials_inv :: "clientSession \<Rightarrow> bool" where
  "credentials_inv s \<longleftrightarrow> (cs_deviceToken s = [] \<or> cs_adoptedToken s = []) \<and> (sc_known (cs_scope s) \<longrightarrow> cs_deviceToken s = [])"

lemma closed_calls:
  assumes "cs_closed s"
  shows "Login send uuid until c email password s w = (Inl (NetworkError ''client is closed: this Client was shut down with Close()''), s, w)"
    and "VerifyMfa send uuid until c token code s w = (Inl (NetworkError ''client is closed: this Client was shut down with Close()''), s, w)"
    and "Logout send uuid until c s w = (Some (NetworkError ''client is closed: this Client was shut down with Close()''), s, w)"
  using assms by (simp_all add: Login_def VerifyMfa_def Logout_def ensureOpen_def)

lemma credentials_step: "session_step send uuid until s s' \<Longrightarrow> credentials_inv s \<Longrightarrow> credentials_inv s'"
proof (induction rule: session_step.induct)
  case (login c email password s w r s' w')
  then show ?case using Login_effect [OF login.hyps] closed_calls(1) [of s send uuid until c email password w]
    by (cases "cs_closed s") (auto simp: credentials_inv_def)
next
  case (verify c token code s w r s' w')
  then show ?case using VerifyMfa_effect [OF verify.hyps] closed_calls(2) [of s send uuid until c token code w]
    by (cases "cs_closed s") (auto simp: credentials_inv_def)
next
  case (logout c s w e s' w')
  then show ?case using Logout_effect [OF logout.hyps] closed_calls(3) [of s send uuid until c w]
    by (cases "cs_closed s") (auto simp: credentials_inv_def unknown_scope_def)
next
  case (device c s w d s' w')
  then show ?case using device_effect [OF device.hyps] by (cases d) (auto simp: credentials_inv_def unknown_scope_def)
next
  case (federation c path body s w f s' w')
  then show ?case using federation_effect [OF federation.hyps] by (cases f) (auto simp: credentials_inv_def unknown_scope_def)
qed (auto simp: credentials_inv_def Refresh_keeps doRequest_keeps adopt_credential_def adoptOidcCredential_def
    replaceDeviceCredential_def adoptDeviceCredential_def resetScopeUnknown_def unknown_scope_def Close_def)

lemma credentials_reachable: "session_reachable send uuid until s \<Longrightarrow> credentials_inv s"
  by (induction rule: session_reachable.induct)
    (auto simp: credentials_step, simp add: credentials_inv_def newSession_def unknown_scope_def)

section \<open>Properties\<close>

text \<open>
  (C2) Through every sequence of logins, refreshes, logouts, device and federation sign-ins, adopted
  tokens, requests and closes, a session holds at most one bearer credential, so the one a request
  carries is the only one; and while it knows its principal's reach it holds no device credential.
\<close>

theorem one_bearer_credential:
  assumes "session_reachable send uuid until s"
  shows "(cs_deviceToken s = [] \<or> cs_adoptedToken s = []) \<and>
    adopted_token s = (if cs_adoptedToken s = [] then cs_deviceToken s else cs_adoptedToken s) \<and>
    (if sc_known (cs_scope s) then cs_deviceToken s = [] else True)"
  using credentials_reachable [OF assms] by (auto simp: credentials_inv_def adopted_token_def)

definition example_transport :: "unit transport" where
  "example_transport req cookies w =
     (Inr \<lparr>rs_status = 200, rs_headers = [], rs_cookies = [], rs_body = ''{\"access_token\":\"dev\"}''\<rparr>, w)"

definition acme_client :: Client where
  "acme_client = \<lparr>cl_baseHost = ''axiam.example'', cl_basePath = [], cl_tenantSlug = ''acme'', cl_org = NoOrg,
     cl_hook = False, cl_presentsClientCertificate = True, cl_actingTenant = None\<rparr>"

theorem one_bearer_credential_witness:
  "\<exists>s. session_reachable example_transport Some (\<lambda>_. None) s \<and> cs_deviceToken s = ''dev'' \<and> cs_adoptedToken s = [] \<and>
     adopted_token s = ''dev''"
proof -
  let ?s0 = "adopt_credential ''tok'' (newSession 0)"
  let ?r = "AuthenticateDevice example_transport (\<lambda>_. None) acme_client ?s0 ()"
  have "session_reachable example_transport Some (\<lambda>_. None) ?s0"
    by (rule session_reachable.step [OF session_reachable.start session_step.adopt])
  moreover obtain d s' w' where "?r = (d, s', w')" using prod_cases3 by blast
  ultimately have r: "session_reachable example_transport Some (\<lambda>_. None) (fst (snd ?r))"
    using session_reachable.step session_step.device by (metis fst_conv snd_conv)
  have d: "cs_deviceToken (fst (snd ?r)) = ''dev''" by code_simp
  show ?thesis using one_bearer_credential [OF r] r d by (intro exI [of _ "fst (snd ?r)"]) auto
qed

text \<open>
  (C37) A login and an MFA verification start by forgetting: whatever the answer, the memo is empty and the
  device credential gone, and the session knows a principal's reach afterwards exactly when the
  call returned a completed session, so no gate judges by an earlier principal's report. On a
  closed client nothing is sent and nothing changes.
\<close>

theorem login_forgets_principal:
  "case Login send uuid until c email password s w of (r, s', w') \<Rightarrow>
     (case VerifyMfa send uuid until c token code s w of (v, s'', w'') \<Rightarrow>
       if cs_closed s then s' = s \<and> w' = w \<and> s'' = s \<and> w'' = w \<and> \<not> completed r \<and> \<not> completed v
       else cs_memo s' = memo_clear (cs_memo s) \<and> cs_deviceToken s' = [] \<and> sc_known (cs_scope s') = completed r \<and>
         cs_memo s'' = memo_clear (cs_memo s) \<and> cs_deviceToken s'' = [] \<and> sc_known (cs_scope s'') = completed v)"
proof -
  obtain r s' w' where l: "Login send uuid until c email password s w = (r, s', w')" using prod_cases3 by blast
  obtain v s'' w'' where m: "VerifyMfa send uuid until c token code s w = (v, s'', w'')" using prod_cases3 by blast
  show ?thesis
  proof (cases "cs_closed s")
    case True
    then show ?thesis by (simp add: closed_calls completed_def)
  next
    case False
    with Login_effect [OF l] VerifyMfa_effect [OF m] show ?thesis by (simp add: l m)
  qed
qed

text \<open>
  (C38) \<open>Logout\<close> drops the device credential but not a token adopted from an OAuth grant: after it, whatever
  the server answered, the next request of the client still carries that token as its bearer.
\<close>

theorem logout_keeps_adopted_token:
  "case Logout send uuid until c s w of (e, s', w') \<Rightarrow>
     cs_adoptedToken s' = cs_adoptedToken s \<and>
     (if cs_closed s then s' = s
      else header_get ''Authorization'' (rq_headers (decorateRequest c s' (newRequest c method path body))) =
        (if cs_adoptedToken s = [] \<or> isOAuth2Path c (newRequest c method path body) then []
         else ''Bearer '' @ cs_adoptedToken s))"
proof -
  obtain e s' w' where l: "Logout send uuid until c s w = (e, s', w')" using prod_cases3 by blast
  show ?thesis
  proof (cases "cs_closed s")
    case True
    then show ?thesis by (simp add: closed_calls)
  next
    case False
    have h: "header_get ''Authorization'' (rq_headers (newRequest c method path body)) = []"
      by (cases body) (simp_all add: newRequest_def header_get_def header_set_def canonical_names)
    have o: "same_origin c (newRequest c method path body)" by (simp add: newRequest_def same_origin_def)
    show ?thesis using Logout_effect [OF l False] False h o
      by (simp add: l decorate_authorization adopted_token_def)
  qed
qed

text \<open>
  (C36) A closed client refuses a login without touching the network, but not a federation sign-in:
  \<open>SsoComplete\<close> does on a closed client exactly what it does on an open one, the request, the cookies
  and the session it establishes included.
\<close>

lemma doRequest_closed:
  "doRequest send c req (s\<lparr>cs_closed := b\<rparr>) w = (case doRequest send c req s w of (r, s', w') \<Rightarrow> (r, s'\<lparr>cs_closed := b\<rparr>, w'))"
proof -
  have a: "adopted_token (s\<lparr>cs_closed := b\<rparr>) = adopted_token s" by (simp add: adopted_token_def)
  have "decorateRequest c (s\<lparr>cs_closed := b\<rparr>) req = decorateRequest c s req"
      "outbound_cookies c (s\<lparr>cs_closed := b\<rparr>) req' = outbound_cookies c s req'" for req'
    by (simp_all add: decorateRequest_def a Let_def outbound_cookies_def)
  then show ?thesis
    by (auto simp: doRequest_def Let_def case_prod_unfold captureCSRF_def store_cookies_def split: sum.split)
qed

lemma absorb_closed:
  "absorbSessionCookies uuid (s\<lparr>cs_closed := b\<rparr>) = (case absorbSessionCookies uuid s of (e, s') \<Rightarrow> (e, s'\<lparr>cs_closed := b\<rparr>))"
  by (auto simp: absorbSessionCookies_def cookieValue_def setResolvedOrgID_def Let_def split: option.split)

lemma forget_closed: "forget_credentials (s\<lparr>cs_closed := b\<rparr>) = (forget_credentials s)\<lparr>cs_closed := b\<rparr>"
  by (simp add: forget_credentials_def replaceDeviceCredential_def adoptDeviceCredential_def resetScopeUnknown_def onCredentialChange_def)

theorem closed_client_signs_in:
  "Login send uuid until c email password (Close s) w =
     (Inl (NetworkError ''client is closed: this Client was shut down with Close()''), Close s, w) \<and>
   SsoComplete send uuid until c state code (s\<lparr>cs_closed := True\<rparr>) w =
     (case SsoComplete send uuid until c state code (s\<lparr>cs_closed := False\<rparr>) w of
        (r, s', w') \<Rightarrow> (r, s'\<lparr>cs_closed := True\<rparr>, w'))"
proof -
  have "completeFederationSession send uuid until c path body (s\<lparr>cs_closed := b\<rparr>) w =
      (case completeFederationSession send uuid until c path body s w of (r, s', w') \<Rightarrow> (r, s'\<lparr>cs_closed := b\<rparr>, w'))" for path body b
    unfolding completeFederationSession_def doRequest_closed
    by (auto simp: absorb_closed forget_closed split: sum.split option.split prod.split)
  then have "SsoComplete send uuid until c state code (s\<lparr>cs_closed := b\<rparr>) w =
      (case SsoComplete send uuid until c state code s w of (r, s', w') \<Rightarrow> (r, s'\<lparr>cs_closed := b\<rparr>, w'))" for b
    by (simp add: SsoComplete_def)
  then show ?thesis by (simp add: closed_calls Close_def case_prod_unfold)
qed

text \<open>
  (C37) The duration read from a \<open>Retry-After\<close> header of seconds is the 64-bit product, not a bounded one: a
  nine-digit number of seconds stands for three centuries, and one past the range comes out as
  a fraction of a second.
\<close>

theorem retry_after_unbounded:
  "parseRetryAfter until '' 7'' = 7 * Second \<and> parseRetryAfter until ''-7'' = 0 \<and>
   parseRetryAfter until ''9000000000'' = 9000000000 * Second \<and>
   parseRetryAfter until ''18446744074'' = 290448384"
proof -
  have "trim_space '' 7'' = ''7''" "trim_space ''-7'' = ''-7''" "trim_space ''9000000000'' = ''9000000000''"
      "trim_space ''18446744074'' = ''18446744074''" "parse_int64 ''7'' = Some 7" "parse_int64 ''-7'' = Some (-7)"
      "parse_int64 ''9000000000'' = Some 9000000000" "parse_int64 ''18446744074'' = Some 18446744074"
    by code_simp+
  then show ?thesis by (simp add: parseRetryAfter_def Second_def wrap64_eq)
qed

end
