(* ===== verification/Authz.thy ===== *)
theory Authz
  imports Session Retry
begin

text \<open>
  \<open>authz.go\<close>: the authorization checks of a client, single and batched: the request, its retries
  (\<open>Retry\<close>), the decision memo in front of it (\<open>Decision_Memo\<close>) and the session it runs on (\<open>Session\<close>).
  A call returns its result, the session and the world after it, the telemetry it emitted and what the
  retry loop did. The clock is read off the world.
\<close>

section \<open>Wire\<close>

definition check_members :: "AccessCheck \<Rightarrow> (bytes \<times> json) list" where
  "check_members r =
     [str_member True ''action'' (ac_Action r), str_member True ''resource_id'' (ac_ResourceID r)]
     @ omit_string ''scope'' (ac_Scope r) @ omit_string ''subject_id'' (ac_SubjectID r)"

text \<open>A nil slice of checks is \<open>null\<close>.\<close>

definition batch_members :: "AccessCheck list option \<Rightarrow> (bytes \<times> json) list" where
  "batch_members reqs =
     [(''checks'', (case reqs of None \<Rightarrow> JNull | Some rs \<Rightarrow> JArr (map (\<lambda>r. JObj (check_members r)) rs)))]"

definition zero_result :: AccessResult where
  "zero_result = \<lparr>ar_Allowed = False, ar_Reason = [], ar_ReasonCode = []\<rparr>"

definition result_of_members :: "(bytes \<times> json) list \<Rightarrow> AccessResult option" where
  "result_of_members ms =
     (let f = (\<lambda>n. field_values [''allowed'', ''reason'', ''reason_code''] n ms) in
      Option.bind (dec_bool False (f ''allowed'')) (\<lambda>allowed.
      Option.bind (dec_string [] (f ''reason'')) (\<lambda>reason.
      Option.bind (dec_string [] (f ''reason_code'')) (\<lambda>code.
      Some \<lparr>ar_Allowed = allowed, ar_Reason = reason, ar_ReasonCode = code\<rparr>))))"

definition decode_result :: "bytes \<Rightarrow> AccessResult option" where
  "decode_result body = Option.bind (stream_members body) result_of_members"

definition decode_batch :: "bytes \<Rightarrow> AccessResult list option option" where
  "decode_batch body =
     Option.bind (stream_members body) (\<lambda>ms.
     dec_slice (\<lambda>v. Option.bind (struct_members v) result_of_members) None (field_values [''results''] ''results'' ms))"

section \<open>One request\<close>

definition sendAuthzPostInto ::
  "'w transport \<Rightarrow> (bytes \<Rightarrow> duration option) \<Rightarrow> Client \<Rightarrow> bytes \<Rightarrow> bytes \<Rightarrow> (bytes \<Rightarrow> 'a option) \<Rightarrow> bytes \<Rightarrow> nat \<Rightarrow>
   clientSession \<Rightarrow> 'w \<Rightarrow> (go_error + 'a) \<times> clientSession \<times> telemetry_event list \<times> 'w" where
  "sendAuthzPostInto send until c path payload decode operation attempt s w =
     (let start = startRequest c operation ''POST'' path attempt;
          finish = (\<lambda>status ok. span_end c operation ''POST'' path attempt status ok) in
      case doRequest send c (newRequest c ''POST'' path (Some payload)) s w of
        (Inl err, s1, w1) \<Rightarrow> (Inl err, s1, start @ finish 0 False, w1)
      | (Inr resp, s1, w1) \<Rightarrow>
        (if rs_status resp < 200 \<or> rs_status resp \<ge> 300
         then (Inl (mapErrorResponse until resp), s1, start @ finish (rs_status resp) False, w1)
         else case decode (rs_body resp) of
           None \<Rightarrow> (Inl deserErr, s1, start @ finish (rs_status resp) False, w1)
         | Some a \<Rightarrow> (Inr a, s1, start @ finish (rs_status resp) True, w1)))"

text \<open>
  The closure the retry loop calls: on a world with the session, the telemetry so far and the captured
  result variable beside it.
\<close>

definition authz_op ::
  "'w transport \<Rightarrow> (bytes \<Rightarrow> duration option) \<Rightarrow> Client \<Rightarrow> bytes \<Rightarrow> bytes \<Rightarrow> (bytes \<Rightarrow> 'a option) \<Rightarrow> bytes \<Rightarrow> nat \<Rightarrow>
   (clientSession \<times> telemetry_event list \<times> 'a) \<times> 'w \<Rightarrow> go_error option \<times> ((clientSession \<times> telemetry_event list \<times> 'a) \<times> 'w)" where
  "authz_op send until c path payload decode operation attempt xw =
     (case xw of ((s, evs, res), w) \<Rightarrow>
      (case sendAuthzPostInto send until c path payload decode operation attempt s w of
         (Inl err, s1, ev, w1) \<Rightarrow> (Some err, ((s1, evs @ ev, res), w1))
       | (Inr a, s1, ev, w1) \<Rightarrow> (None, ((s1, evs @ ev, a), w1))))"

definition lift_client :: "'w retry_client \<Rightarrow> ('x \<times> 'w) retry_client" where
  "lift_client rc =
     \<lparr>rc_enabled = rc_enabled rc,
      rc_jitter = (\<lambda>(x, w). let (f, w') = rc_jitter rc w in (f, (x, w'))),
      rc_wait = (\<lambda>d (x, w). let (e, w') = rc_wait rc d w in (e, (x, w')))\<rparr>"

section \<open>The checks\<close>

definition checkAccessWithRetry ::
  "'w transport \<Rightarrow> (bytes \<Rightarrow> duration option) \<Rightarrow> ('w \<Rightarrow> time) \<Rightarrow> 'w retry_client \<Rightarrow> Client \<Rightarrow> AccessCheck \<Rightarrow> clientSession \<Rightarrow> 'w \<Rightarrow>
   (go_error + AccessResult) \<times> clientSession \<times> telemetry_event list \<times> retry_action list \<times> 'w" where
  "checkAccessWithRetry send until clock rc c req s w =
     (case ensureOpen s of Some err \<Rightarrow> (Inl err, s, [], [], w)
      | None \<Rightarrow>
        (let key = memoKey req (cl_actingTenant c);
             (hit, m) = memo_get (clock w) key (cs_memo s); s0 = s\<lparr>cs_memo := m\<rparr> in
         case hit of Some r \<Rightarrow> (Inr r, s0, [], [], w)
         | None \<Rightarrow>
           (case retryReadOnly (lift_client rc) ''CheckAccess''
                   (authz_op send until c ''/api/v1/authz/check'' (obj_body (check_members req)) decode_result ''CheckAccess'')
                   ((s0, [], zero_result), w) of
              ((Some err, ((s1, evs, _), w1)), acts) \<Rightarrow> (Inl err, s1, evs, acts, w1)
            | ((None, ((s1, evs, result), w1)), acts) \<Rightarrow>
                (Inr result, s1\<lparr>cs_memo := memo_set (clock w1) key result (cs_memo s1)\<rparr>, evs, acts, w1))))"

definition BatchCheck ::
  "'w transport \<Rightarrow> (bytes \<Rightarrow> duration option) \<Rightarrow> 'w retry_client \<Rightarrow> Client \<Rightarrow> AccessCheck list option \<Rightarrow> clientSession \<Rightarrow> 'w \<Rightarrow>
   (go_error + AccessResult list option) \<times> clientSession \<times> telemetry_event list \<times> retry_action list \<times> 'w" where
  "BatchCheck send until rc c reqs s w =
     (case retryReadOnly (lift_client rc) ''BatchCheck''
             (authz_op send until c ''/api/v1/authz/check/batch'' (obj_body (batch_members reqs)) decode_batch ''BatchCheck'')
             ((s, [], None), w) of
        ((Some err, ((s1, evs, _), w1)), acts) \<Rightarrow> (Inl err, s1, evs, acts, w1)
      | ((None, ((s1, evs, results), w1)), acts) \<Rightarrow> (Inr results, s1, evs, acts, w1))"

definition access_check :: "bytes \<Rightarrow> bytes \<Rightarrow> bytes \<Rightarrow> bytes list \<Rightarrow> AccessCheck" where
  "access_check subjectID action resourceID scope =
     \<lparr>ac_Action = action, ac_ResourceID = resourceID, ac_Scope = (case scope of [] \<Rightarrow> [] | x # _ \<Rightarrow> x), ac_SubjectID = subjectID\<rparr>"

definition CheckAccessDecision where
  "CheckAccessDecision send until clock rc c subjectID action resourceID scope s w =
     checkAccessWithRetry send until clock rc c (access_check subjectID action resourceID scope) s w"

text \<open>The pair of the decision and its reason; an error is never an allow.\<close>

definition decision :: "go_error + AccessResult \<Rightarrow> bool \<times> bytes \<times> go_error option" where
  "decision r = (case r of Inl err \<Rightarrow> (False, [], Some err) | Inr x \<Rightarrow> (ar_Allowed x, ar_Reason x, None))"

definition CheckAccess where
  "CheckAccess send until clock rc c action resourceID scope s w =
     (case checkAccessWithRetry send until clock rc c (access_check [] action resourceID scope) s w of
        (r, rest) \<Rightarrow> (decision r, rest))"

definition CheckAccessAs where
  "CheckAccessAs send until clock rc c subjectID action resourceID scope s w =
     (case checkAccessWithRetry send until clock rc c (access_check subjectID action resourceID scope) s w of
        (r, rest) \<Rightarrow> (decision r, rest))"

definition Can where
  "Can send until clock rc c action resourceID scope s w =
     (case CheckAccess send until clock rc c action resourceID scope s w of
        ((allowed, reason, err), rest) \<Rightarrow> ((allowed, err), rest))"

section \<open>What the loop leaves alone\<close>

lemma retry_loop_invariant:
  assumes "\<And>n w. I w \<Longrightarrow> I (snd (op n w))" "\<And>w. I w \<Longrightarrow> I (snd (rc_jitter c w))" "\<And>d w. I w \<Longrightarrow> I (snd (rc_wait c d w))"
    and "I w"
  shows "I (snd (fst (retry_loop c operation None op N attempt w)))"
proof -
  have served: "serve_wait c None wait dl w2 = ((e, w3), acts) \<Longrightarrow> w3 = snd (rc_wait c wait w2)" for wait dl w2 e w3 acts
    by (auto simp: serve_wait_def)
  have "I w \<longrightarrow> I (snd (fst (retry_loop c operation None op N attempt w)))"
    by (rule retry_loop_induct [where P = "\<lambda>_ w r. I w \<longrightarrow> I (snd (fst r))"])
      (use assms(1-3) served in \<open>metis fst_conv snd_conv\<close>)+
  then show ?thesis using assms(4) by blast
qed

lemma authz_op_memo:
  "cs_memo (fst (fst (snd (authz_op send until c path payload decode operation n xw)))) = cs_memo (fst (fst xw))"
  "cs_closed (fst (fst (snd (authz_op send until c path payload decode operation n xw)))) = cs_closed (fst (fst xw))"
proof -
  obtain s evs res w where xw: "xw = ((s, evs, res), w)" by (metis surj_pair)
  obtain r1 s1 w1 where d: "doRequest send c (newRequest c ''POST'' path (Some payload)) s w = (r1, s1, w1)"
    using prod_cases3 by blast
  show "cs_memo (fst (fst (snd (authz_op send until c path payload decode operation n xw)))) = cs_memo (fst (fst xw))"
    "cs_closed (fst (fst (snd (authz_op send until c path payload decode operation n xw)))) = cs_closed (fst (fst xw))"
    using doRequest_keeps [OF d]
    by (auto simp: authz_op_def sendAuthzPostInto_def xw d Let_def split: sum.split option.split)
qed

lemma retry_keeps_memo:
  "cs_memo (fst (fst (snd (fst (retryReadOnly (lift_client rc) operation
     (authz_op send until c path payload decode operation) xw))))) = cs_memo (fst (fst xw))"
  unfolding retryReadOnly_def retryReadOnlyUntil_def
  by (rule retry_loop_invariant [where I = "\<lambda>x. cs_memo (fst (fst x)) = cs_memo (fst (fst xw))"])
    (auto simp: authz_op_memo lift_client_def Let_def split: prod.split)

lemma retry_call_numbers:
  "calls_of (snd (retryReadOnly (lift_client rc) operation op xw)) \<in> {[1], [1, 2], [1, 2, 3]}"
proof -
  define N where "N = (if rc_enabled rc then MaxAttempts else 1)"
  have "1 \<le> N" "N \<le> 3" by (simp_all add: N_def MaxAttempts_def)
  let ?ns = "calls_of (snd (retry_loop (lift_client rc) operation None op N 1 xw))"
  have ns: "?ns \<noteq> []" "?ns = [1..<1 + length ?ns]" "1 + length ?ns \<le> Suc N"
    using retry_loop_calls [OF \<open>1 \<le> N\<close>, of "lift_client rc" operation None op xw] by (simp_all add: Let_def)
  have enabled: "rc_enabled (lift_client rc :: ('a \<times> 'b) retry_client) = rc_enabled rc" by (simp add: lift_client_def)
  have up: "ns \<in> {[1], [1, 2], [1, 2, 3]}" if "ns \<noteq> []" "ns = [1..<1 + length ns]" "length ns \<le> 3" for ns :: "nat list"
  proof -
    have "0 < length ns" using that(1) by simp
    then have "length ns = 1 \<or> length ns = 2 \<or> length ns = 3" using that(3) by presburger
    then show ?thesis using that(2) by (elim disjE) (simp_all add: upt_rec)
  qed
  have "length ?ns \<le> 3" using ns(3) \<open>N \<le> 3\<close> by linarith
  then have "?ns \<in> {[1], [1, 2], [1, 2, 3]}" using ns(1,2) up by blast
  then show ?thesis by (simp only: retryReadOnly_def retryReadOnlyUntil_def N_def enabled)
qed

section \<open>Properties\<close>

text \<open>
  (C17) A check on a closed client sends nothing and fails. On an open one a fresh memoized decision for the
  same question and acting tenant is the answer, with nothing sent. Otherwise there are one to
  three calls, and the memo changes only by storing the decision returned: an allow and a deny
  alike, a failure never.
\<close>

theorem check_access_memoized:
  "case checkAccessWithRetry send until clock rc c req s w of (r, s', evs, acts, w') \<Rightarrow>
     (let key = memoKey req (cl_actingTenant c) in
      if cs_closed s then acts = [] \<and> evs = [] \<and> w' = w \<and> s' = s \<and> (case r of Inl e \<Rightarrow> errors_is e ErrNetwork | Inr _ \<Rightarrow> False)
      else (case memo_get (clock w) key (cs_memo s) of
          (Some x, m) \<Rightarrow> r = Inr x \<and> acts = [] \<and> evs = [] \<and> w' = w \<and> s' = s\<lparr>cs_memo := m\<rparr>
        | (None, m) \<Rightarrow> calls_of acts \<in> {[1], [1, 2], [1, 2, 3]} \<and>
            cs_memo s' = (case r of Inl _ \<Rightarrow> m | Inr x \<Rightarrow> memo_set (clock w') key x m)))"
proof -
  let ?key = "memoKey req (cl_actingTenant c)"
  obtain hit m where g: "memo_get (clock w) ?key (cs_memo s) = (hit, m)" by force
  let ?run = "retryReadOnly (lift_client rc) ''CheckAccess''
     (authz_op send until c ''/api/v1/authz/check'' (obj_body (check_members req)) decode_result ''CheckAccess'')
     ((s\<lparr>cs_memo := m\<rparr>, [], zero_result), w)"
  obtain err s1 evs1 res w1 acts1 where run: "?run = ((err, ((s1, evs1, res), w1)), acts1)" by (metis surj_pair)
  have memo: "cs_memo s1 = m"
    using retry_keeps_memo [of rc "''CheckAccess''" send until c "''/api/v1/authz/check''" "obj_body (check_members req)"
        decode_result "((s\<lparr>cs_memo := m\<rparr>, [], zero_result), w)"] by (simp add: run)
  have calls: "calls_of acts1 \<in> {[1], [1, 2], [1, 2, 3]}"
    using retry_call_numbers [of rc "''CheckAccess''"
        "authz_op send until c ''/api/v1/authz/check'' (obj_body (check_members req)) decode_result ''CheckAccess''"
        "((s\<lparr>cs_memo := m\<rparr>, [], zero_result), w)"] unfolding run snd_conv .
  show ?thesis
  proof (cases "cs_closed s")
    case True
    then show ?thesis by (simp add: checkAccessWithRetry_def ensureOpen_def NetworkError_def errors_is.simps)
  next
    case False
    then have e: "ensureOpen s = None" by (simp add: ensureOpen_def)
    show ?thesis
    proof (cases hit)
      case (Some x)
      then show ?thesis using False by (simp add: checkAccessWithRetry_def e g Let_def)
    next
      case None
      show ?thesis
      proof (cases err)
        case None
        then show ?thesis using False \<open>hit = None\<close> memo calls
          by (simp only: checkAccessWithRetry_def e g Let_def option.case prod.case run if_False) simp
      next
        case (Some err')
        then show ?thesis using False \<open>hit = None\<close> memo calls
          by (simp only: checkAccessWithRetry_def e g Let_def option.case prod.case run if_False) simp
      qed
    qed
  qed
qed

text \<open>
  (C39) Adopting the token of an OAuth grant changes the principal but not the memo: a decision memoized for
  the principal before answers the same check of the new one, with no request sent; after a login
  the same check is asked of the server.
\<close>

theorem adopted_principal_inherits_decisions:
  assumes "\<not> cs_closed s" "fst (memo_get (clock w) (memoKey req (cl_actingTenant c)) (cs_memo s)) = Some x"
  shows "(case checkAccessWithRetry send until clock rc c req (adopt_credential bearer s) w of
      (r, s', evs, acts, w') \<Rightarrow> r = Inr x \<and> acts = [] \<and> w' = w \<and> adopted_token s' = bearer) \<and>
    (case checkAccessWithRetry send until clock rc c req (forget_credentials s) w of
      (r, s', evs, acts, w') \<Rightarrow> calls_of acts \<noteq> [])"
proof
  obtain m where g: "memo_get (clock w) (memoKey req (cl_actingTenant c)) (cs_memo s) = (Some x, m)"
    using assms(2) by (metis prod.collapse)
  have a: "cs_memo (adopt_credential bearer s) = cs_memo s" "ensureOpen (adopt_credential bearer s) = None"
      "cs_deviceToken (adopt_credential bearer s) = []" "cs_adoptedToken (adopt_credential bearer s) = bearer"
    using assms(1) by (simp_all add: adopt_credential_def adoptOidcCredential_def replaceDeviceCredential_def
        adoptDeviceCredential_def resetScopeUnknown_def ensureOpen_def)
  show "case checkAccessWithRetry send until clock rc c req (adopt_credential bearer s) w of
      (r, s', evs, acts, w') \<Rightarrow> r = Inr x \<and> acts = [] \<and> w' = w \<and> adopted_token s' = bearer"
    by (simp add: checkAccessWithRetry_def a g Let_def adopted_token_def)
  let ?s = "forget_credentials s"
  have e: "ensureOpen ?s = None" using assms(1) by (simp add: ensureOpen_def)
  have miss: "fst (memo_get (clock w) (memoKey req (cl_actingTenant c)) (cs_memo ?s)) = None"
    by (simp add: memo_get_def memo_clear_def)
  obtain m' where g': "memo_get (clock w) (memoKey req (cl_actingTenant c)) (cs_memo ?s) = (None, m')"
    using miss by (metis prod.collapse)
  let ?run = "retryReadOnly (lift_client rc) ''CheckAccess''
     (authz_op send until c ''/api/v1/authz/check'' (obj_body (check_members req)) decode_result ''CheckAccess'')
     ((?s\<lparr>cs_memo := m'\<rparr>, [], zero_result), w)"
  obtain err s1 evs1 res w1 acts1 where run: "?run = ((err, ((s1, evs1, res), w1)), acts1)" by (metis surj_pair)
  have "calls_of acts1 \<noteq> []"
    using retry_call_numbers [of rc "''CheckAccess''"
        "authz_op send until c ''/api/v1/authz/check'' (obj_body (check_members req)) decode_result ''CheckAccess''"
        "((?s\<lparr>cs_memo := m'\<rparr>, [], zero_result), w)"] unfolding run snd_conv by auto
  then show "case checkAccessWithRetry send until clock rc c req ?s w of (r, s', evs, acts, w') \<Rightarrow> calls_of acts \<noteq> []"
    by (cases err) (simp_all only: checkAccessWithRetry_def e g' Let_def option.case prod.case run simp_thms)
qed

theorem adopted_principal_inherits_decisions_witness:
  "\<exists>s. case checkAccessWithRetry (\<lambda>_ _ (w :: time). (Inl ''offline'', w)) (\<lambda>_. None) id
       \<lparr>rc_enabled = False, rc_jitter = (\<lambda>w. (0, w)), rc_wait = (\<lambda>d w. (None, w))\<rparr> acme_client
       (access_check [] ''read'' ''doc'' []) (adopt_credential ''other'' s) 1 of
     (r, s', evs, acts, w') \<Rightarrow> r = Inr (zero_result\<lparr>ar_Allowed := True\<rparr>) \<and> adopted_token s' = ''other''"
proof -
  let ?key = "memoKey (access_check [] ''read'' ''doc'' []) (cl_actingTenant acme_client)"
  let ?s = "(newSession Second)\<lparr>cs_memo := memo_set 0 ?key (zero_result\<lparr>ar_Allowed := True\<rparr>) (newDecisionMemo Second)\<rparr>"
  have "fst (memo_get (id 1) ?key (cs_memo ?s)) = Some (zero_result\<lparr>ar_Allowed := True\<rparr>)" by code_simp
  moreover have "\<not> cs_closed ?s" by (simp add: newSession_def)
  ultimately show ?thesis
    using adopted_principal_inherits_decisions [where s = ?s and clock = id and w = 1 and req = "access_check [] ''read'' ''doc'' []"
        and c = acme_client and bearer = "''other''"
        and send = "\<lambda>_ _ w. (Inl ''offline'', w)" and until = "\<lambda>_. None"
        and rc = "\<lparr>rc_enabled = False, rc_jitter = (\<lambda>w. (0, w)), rc_wait = (\<lambda>d w. (None, w))\<rparr>"]
    by (intro exI [of _ ?s]) (auto split: prod.splits)
qed

end
