(* ===== verification/Go_Float.thy ===== *)
theory Go_Float
  imports Json_Fields
begin

text \<open>
  \<open>strconv.ParseFloat\<close> of a JSON number as a \<open>float64\<close>, exactly: the decimal's value, rounded half to
  even to 53 bits (subnormal below \<open>2 ^ -1022\<close>), an error when it overflows; and the conversion
  \<open>int64(f)\<close>, which truncates and whose result outside the range is the platform's, an argument.
\<close>

definition digits_nat :: "bytes \<Rightarrow> nat" where
  "digits_nat ds = nat (digits_value ds)"

definition signed_digits :: "bytes \<Rightarrow> int" where
  "signed_digits s = (case s of [] \<Rightarrow> 0 | c # r \<Rightarrow>
     if c = CHR ''-'' then - digits_value r else if c = CHR ''+'' then digits_value r else digits_value s)"

definition pow10 :: "int \<Rightarrow> rat" where
  "pow10 e = (if e \<ge> 0 then 10 ^ nat e else 1 / 10 ^ nat (- e))"

definition literal_value :: "bytes \<Rightarrow> rat" where
  "literal_value n =
     (let (neg, s) = (case n of [] \<Rightarrow> (False, []) | c # r \<Rightarrow> if c = CHR ''-'' then (True, r) else (False, n));
          ip = takeWhile is_digit s; r1 = dropWhile is_digit s;
          (fp, r2) = (case r1 of [] \<Rightarrow> ([], []) | c # r \<Rightarrow>
             if c = CHR ''.'' then (takeWhile is_digit r, dropWhile is_digit r) else ([], r1));
          e = (case r2 of [] \<Rightarrow> 0 | c # r \<Rightarrow> signed_digits r);
          v = rat_of_int (digits_value (ip @ fp)) * pow10 (e - int (length fp))
      in if neg then - v else v)"

fun bit_count :: "nat \<Rightarrow> nat" where
  "bit_count n = (if n = 0 then 0 else Suc (bit_count (n div 2)))"

declare bit_count.simps [simp del]

definition pow2 :: "int \<Rightarrow> rat" where
  "pow2 e = (if e \<ge> 0 then 2 ^ nat e else 1 / 2 ^ nat (- e))"

text \<open>The exponent of the leading bit of a positive rational.\<close>

definition leading_bit :: "rat \<Rightarrow> int" where
  "leading_bit x =
     (let (n, d) = quotient_of x; k = int (bit_count (nat n)) - int (bit_count (nat d))
      in if pow2 k \<le> x then k else k - 1)"

definition round_half_even :: "rat \<Rightarrow> int" where
  "round_half_even x =
     (let f = \<lfloor>x\<rfloor>; d = x - rat_of_int f
      in if d < 1 / 2 then f else if 1 / 2 < d then f + 1 else if even f then f else f + 1)"

definition float64_of :: "rat \<Rightarrow> rat option" where
  "float64_of x =
     (if x = 0 then Some 0
      else let e = max (- 1074) (leading_bit \<bar>x\<bar> - 52);
               v = rat_of_int (round_half_even (x / pow2 e)) * pow2 e
           in if \<bar>v\<bar> \<ge> pow2 1024 then None else Some v)"

definition truncate :: "rat \<Rightarrow> int" where
  "truncate x = (if x < 0 then - \<lfloor>- x\<rfloor> else \<lfloor>x\<rfloor>)"

definition int64_of_float :: "(rat \<Rightarrow> int) \<Rightarrow> rat \<Rightarrow> int" where
  "int64_of_float wild f = (let t = truncate f in if in_int64 t then t else wild f)"

text \<open>\<open>json.Unmarshal\<close> into a \<open>float64\<close> variable whose value is zero.\<close>

definition float_value :: "json \<Rightarrow> rat option" where
  "float_value v = (case v of JNull \<Rightarrow> Some 0 | JNum n \<Rightarrow> float64_of (literal_value n) | _ \<Rightarrow> None)"

section \<open>Values of type \<open>any\<close>, and a pointer to an \<open>int64\<close>\<close>

text \<open>A lookup in a decoded \<open>map[string]any\<close>, and its assertion to a string.\<close>

definition any_member :: "bytes \<Rightarrow> (bytes \<times> json) list \<Rightarrow> json option" where
  "any_member k ms = map_of (rev ms) k"

definition any_string :: "bytes \<Rightarrow> (bytes \<times> json) list \<Rightarrow> bytes" where
  "any_string k ms = (case any_member k ms of Some (JStr s) \<Rightarrow> unquote s | _ \<Rightarrow> [])"

text \<open>\<open>json.Unmarshal\<close> into an \<open>any\<close>: every number has to fit a \<open>float64\<close>.\<close>

fun any_ok :: "json \<Rightarrow> bool" where
  "any_ok (JNum n) = (float64_of (literal_value n) \<noteq> None)"
| "any_ok (JArr vs) = list_all any_ok vs"
| "any_ok (JObj ms) = list_all (\<lambda>(k, v). any_ok v) ms"
| "any_ok v = True"

definition any_map :: "bytes \<Rightarrow> (bytes \<times> json) list option" where
  "any_map body = Option.bind (parse_json body) (\<lambda>j. if any_ok j then struct_members j else None)"

fun dec_int64_ptr :: "int option \<Rightarrow> json list \<Rightarrow> int option option" where
  "dec_int64_ptr cur [] = Some cur"
| "dec_int64_ptr cur (JNull # vs) = dec_int64_ptr None vs"
| "dec_int64_ptr cur (JNum n # vs) = (case parse_int64 n of None \<Rightarrow> None | Some v \<Rightarrow> dec_int64_ptr (Some v) vs)"
| "dec_int64_ptr cur (v # vs) = None"

section \<open>Small integers are exact\<close>

lemma bit_count_bounds: "0 < n \<Longrightarrow> 2 ^ (bit_count n - 1) \<le> n \<and> n < 2 ^ bit_count n \<and> 0 < bit_count n"
proof (induction n rule: bit_count.induct)
  case (1 n)
  show ?case
  proof (cases "n div 2 = 0")
    case True
    then have "n = 1" using 1(2) by linarith
    then show ?thesis by (simp add: bit_count.simps)
  next
    case False
    then have IH: "2 ^ (bit_count (n div 2) - 1) \<le> n div 2" "n div 2 < 2 ^ bit_count (n div 2)" "0 < bit_count (n div 2)"
      using 1 by auto
    moreover have "bit_count n = Suc (bit_count (n div 2))" using 1(2) by (subst bit_count.simps) simp
    moreover have "2 ^ bit_count (n div 2) = (2 :: nat) * 2 ^ (bit_count (n div 2) - 1)"
      using IH(3) by (cases "bit_count (n div 2)") auto
    ultimately show ?thesis by simp linarith
  qed
qed

lemma leading_bit_int:
  assumes "0 < n"
  shows "leading_bit (rat_of_int n) = int (bit_count (nat n)) - 1"
proof -
  have one: "bit_count 1 = 1" by (simp add: bit_count.simps)
  have "pow2 (int (bit_count (nat n)) - 1) = 2 ^ (bit_count (nat n) - 1)"
    using bit_count_bounds [of "nat n"] assms by (simp add: pow2_def nat_diff_distrib)
  moreover have "rat_of_nat (2 ^ (bit_count (nat n) - 1)) \<le> rat_of_nat (nat n)"
    using bit_count_bounds [of "nat n"] assms by (simp only: of_nat_le_iff)
  moreover have "rat_of_nat (nat n) = rat_of_int n" using assms by simp
  ultimately have "pow2 (int (bit_count (nat n)) - 1) \<le> rat_of_int n" by (simp only: of_nat_power of_nat_numeral)
  then show ?thesis using one by (simp add: leading_bit_def quotient_of_int Let_def)
qed

lemma round_int [simp]: "round_half_even (rat_of_int n) = n"
  by (simp add: round_half_even_def)

lemma bit_count_le: "n < 2 ^ k \<Longrightarrow> bit_count n \<le> k"
proof (cases "n = 0")
  case False
  assume "n < 2 ^ k"
  moreover have "2 ^ (bit_count n - 1) \<le> n" "0 < bit_count n" using bit_count_bounds [of n] False by auto
  ultimately have "(2 :: nat) ^ (bit_count n - 1) < 2 ^ k" by linarith
  then show ?thesis using \<open>0 < bit_count n\<close> by simp
qed (simp add: bit_count.simps)

lemma float64_int:
  assumes "\<bar>n\<bar> < 2 ^ 53"
  shows "float64_of (rat_of_int n) = Some (rat_of_int n)"
proof (cases "n = 0")
  case False
  define e where "e = leading_bit \<bar>rat_of_int n\<bar> - 52"
  have abs: "\<bar>rat_of_int n\<bar> = rat_of_int \<bar>n\<bar>" by simp
  have "bit_count (nat \<bar>n\<bar>) \<le> 53" using assms by (intro bit_count_le) (simp add: nat_less_iff)
  then have e: "- 1074 \<le> e" "e \<le> 0"
    using leading_bit_int [of "\<bar>n\<bar>"] bit_count_bounds [of "nat \<bar>n\<bar>"] False unfolding e_def abs by auto
  then have scaled: "rat_of_int n / pow2 e = rat_of_int (n * 2 ^ nat (- e))"
    by (cases "e = 0") (auto simp: pow2_def)
  have v: "rat_of_int (round_half_even (rat_of_int n / pow2 e)) * pow2 e = rat_of_int n"
    unfolding scaled round_int using e by (cases "e = 0") (auto simp: pow2_def)
  have "\<bar>rat_of_int n\<bar> < rat_of_int (2 ^ 53)" unfolding abs of_int_less_iff by (rule assms)
  also have "\<dots> \<le> pow2 1024" by (simp add: pow2_def)
  finally have "\<bar>rat_of_int n\<bar> < pow2 1024" .
  moreover have "max (- 1074) e = e" using e by simp
  ultimately show ?thesis using False v unfolding float64_of_def e_def by (simp add: Let_def)
qed (simp add: float64_of_def)

lemma literal_show_nat: "literal_value (show_nat n) = rat_of_nat n"
proof -
  have d: "list_all is_digit (show_nat n)" "digits_value (show_nat n) = int n" "show_nat n \<noteq> []"
    using show_nat_digits [of n] by auto
  obtain c r where s: "show_nat n = c # r" using d(3) by (cases "show_nat n") auto
  have "c \<noteq> CHR ''-''" using d(1) s by (auto simp: is_digit_def)
  moreover have "takeWhile is_digit (show_nat n) = show_nat n" "dropWhile is_digit (show_nat n) = []"
    using d(1) by (simp_all add: takeWhile_eq_all_conv dropWhile_eq_Nil_conv list_all_iff)
  ultimately show ?thesis using d(2) s by (simp add: literal_value_def pow10_def)
qed

lemma float_value_nat: "n < 2 ^ 53 \<Longrightarrow> float_value (JNum (show_nat n)) = Some (rat_of_nat n)"
  using float64_int [of "int n"] by (simp add: float_value_def literal_show_nat)

lemma int64_of_float_nat: "n < 2 ^ 53 \<Longrightarrow> int64_of_float wild (rat_of_nat n) = int n"
  by (simp add: int64_of_float_def truncate_def in_int64_def min_int64_def max_int64_def)

end
