(* ===== verification/Dpop.thy ===== *)
theory Dpop
  imports Single_Use Go_Float Go_Base64 "HOL-Library.DAList"
begin

text \<open>
  \<open>internal/dpop/dpop.go\<close>: verification of a DPoP proof and the store of the proof ids it has seen. The
  members of the proof's header are those of its JSON object, the last of a repeated name counting, as in
  a \<open>map[string]any\<close>. SHA-256, \<open>strconv.Quote\<close>, the key made of a JWK and the signature check of the JOSE
  library are arguments, and so are the clock's readings.
\<close>

section \<open>The store of proof ids\<close>

type_synonym InMemoryJtiStore = "(bytes, time) alist"

definition Claim :: "time \<Rightarrow> bytes \<Rightarrow> time \<Rightarrow> InMemoryJtiStore \<Rightarrow> bool \<times> InMemoryJtiStore" where
  "Claim now jti expiresAt seen =
     (let seen1 = (if length (DAList.impl_of seen) > 128 then DAList.filter (\<lambda>(k, v). v > now) seen else seen)
      in if (case DAList.lookup seen1 jti of None \<Rightarrow> False | Some existing \<Rightarrow> existing > now) then (False, seen1)
         else (True, DAList.update jti expiresAt seen1))"

section \<open>Keys\<close>

datatype dpop_error =
    ErrMalformedProof | ErrWrongTyp | ErrUnsupportedKey | ErrPrivateKeyInJWK | ErrBadSignature
  | ErrHTMMismatch | ErrHTUMismatch | ErrStaleProof | ErrReplayedProof | ErrATHMismatch | ErrThumbprintNoMatch

definition IatLeeway :: duration where "IatLeeway = 60 * Second"

definition privateJWKMembers :: "bytes list" where
  "privateJWKMembers = [''d'', ''p'', ''q'', ''dp'', ''dq'', ''qi'', ''oth'', ''k'']"

definition thumbprint_member :: "bytes \<Rightarrow> (bytes \<times> json) list \<Rightarrow> dpop_error + bytes" where
  "thumbprint_member member raw =
     (let v = any_string member raw in if v = [] then Inl ErrUnsupportedKey else Inr v)"

definition thumbprint_input :: "(bytes \<Rightarrow> bytes) \<Rightarrow> (bytes \<times> json) list \<Rightarrow> dpop_error + bytes" where
  "thumbprint_input quote raw =
     (let get = (\<lambda>m. thumbprint_member m raw); kty = any_string ''kty'' raw in
      if kty = ''RSA'' then
        rbind (get ''e'') (\<lambda>e. rbind (get ''n'') (\<lambda>n.
        Inr (''{\"e\":'' @ quote e @ '',\"kty\":\"RSA\",\"n\":'' @ quote n @ ''}'')))
      else if kty = ''EC'' then
        rbind (get ''crv'') (\<lambda>crv. rbind (get ''x'') (\<lambda>x. rbind (get ''y'') (\<lambda>y.
        Inr (''{\"crv\":'' @ quote crv @ '',\"kty\":\"EC\",\"x\":'' @ quote x @ '',\"y\":'' @ quote y @ ''}''))))
      else if kty = ''OKP'' then
        rbind (get ''crv'') (\<lambda>crv. rbind (get ''x'') (\<lambda>x.
        Inr (''{\"crv\":'' @ quote crv @ '',\"kty\":\"OKP\",\"x\":'' @ quote x @ ''}'')))
      else Inl ErrUnsupportedKey)"

definition ThumbprintS256 :: "(bytes \<Rightarrow> bytes) \<Rightarrow> (bytes \<Rightarrow> bytes) \<Rightarrow> (bytes \<times> json) list \<Rightarrow> dpop_error + bytes" where
  "ThumbprintS256 sha quote raw = rbind (thumbprint_input quote raw) (\<lambda>canonical. Inr (b64url_encode (sha canonical)))"

definition AccessTokenHash :: "(bytes \<Rightarrow> bytes) \<Rightarrow> bytes \<Rightarrow> bytes" where
  "AccessTokenHash sha accessToken = b64url_encode (sha accessToken)"

definition CanonicalHTU :: "bytes \<Rightarrow> bytes" where
  "CanonicalHTU uri = takeWhile (\<lambda>c. c \<noteq> CHR ''?'') (takeWhile (\<lambda>c. c \<noteq> CHR ''#'') uri)"

definition expectedAlg :: "(bytes \<times> json) list \<Rightarrow> dpop_error + bytes" where
  "expectedAlg raw =
     (let kty = any_string ''kty'' raw; crv = any_string ''crv'' raw in
      if kty = ''RSA'' then Inr ''PS256''
      else if kty = ''EC'' \<and> crv = ''P-256'' then Inr ''ES256''
      else if kty = ''OKP'' \<and> crv = ''Ed25519'' then Inr ''EdDSA''
      else Inl ErrUnsupportedKey)"

section \<open>The proof\<close>

record Request =
  dr_Method :: bytes
  dr_URI :: bytes
  dr_AccessToken :: bytes
  dr_ExpectedJkt :: bytes
  dr_Leeway :: duration
  dr_Now :: time

record proofClaims =
  pc_HTM :: bytes
  pc_HTU :: bytes
  pc_IAT :: "int option"
  pc_JTI :: bytes
  pc_ATH :: bytes

definition decode_proof :: "bytes \<Rightarrow> proofClaims option" where
  "decode_proof payload =
     Option.bind (body_members payload) (\<lambda>ms.
     let f = (\<lambda>n. field_values [''htm'', ''htu'', ''iat'', ''jti'', ''ath''] n ms) in
     Option.bind (dec_string [] (f ''htm'')) (\<lambda>htm.
     Option.bind (dec_string [] (f ''htu'')) (\<lambda>htu.
     Option.bind (dec_int64_ptr None (f ''iat'')) (\<lambda>iat.
     Option.bind (dec_string [] (f ''jti'')) (\<lambda>jti.
     Option.bind (dec_string [] (f ''ath'')) (\<lambda>ath.
     Some \<lparr>pc_HTM = htm, pc_HTU = htu, pc_IAT = iat, pc_JTI = jti, pc_ATH = ath\<rparr>))))))"

text \<open>What the verifier calls: the hash, the quoting, a key made of a JWK, and the check of a signature.\<close>

record 'key dpop_lib =
  dl_sha :: "bytes \<Rightarrow> bytes"
  dl_quote :: "bytes \<Rightarrow> bytes"
  dl_parse_key :: "(bytes \<times> json) list \<Rightarrow> 'key option"
  dl_verify :: "bytes \<Rightarrow> 'key \<Rightarrow> bytes \<Rightarrow> bytes option"

text \<open>Steps 1 to 5: the shape of the proof, its header, its key, its signature.\<close>

definition proof_header :: "bytes \<Rightarrow> dpop_error + (bytes \<times> json) list" where
  "proof_header prf =
     (let segments = split_on CHR ''.'' prf in
      if prf = [] then Inl ErrMalformedProof
      else if list_ex (\<lambda>c. c \<in> {CHR '','', CHR '' '', CHR 9, CHR 13, CHR 10}) (trim_space prf) then Inl ErrMalformedProof
      else if length segments \<noteq> 3 then Inl ErrMalformedProof
      else case Option.bind (b64url_decode (segments ! 0)) any_map of
        None \<Rightarrow> Inl ErrMalformedProof
      | Some header \<Rightarrow> if equal_fold (any_string ''typ'' header) ''dpop+jwt'' then Inr header else Inl ErrWrongTyp)"

definition proof_jwk :: "(bytes \<times> json) list \<Rightarrow> dpop_error + (bytes \<times> json) list" where
  "proof_jwk header =
     (case any_member ''jwk'' header of
        Some (JObj raw) \<Rightarrow>
          (let ms = map (\<lambda>(k, v). (unquote k, v)) raw in
           if list_ex (\<lambda>m. any_member m ms \<noteq> None) privateJWKMembers then Inl ErrPrivateKeyInJWK else Inr ms)
      | _ \<Rightarrow> Inl ErrMalformedProof)"

definition proof_payload :: "'key dpop_lib \<Rightarrow> bytes \<Rightarrow> (bytes \<times> json) list \<Rightarrow> dpop_error + proofClaims" where
  "proof_payload lib prf jwk =
     rbind (expectedAlg jwk) (\<lambda>alg.
     case dl_parse_key lib jwk of
       None \<Rightarrow> Inl ErrMalformedProof
     | Some key \<Rightarrow>
       (case dl_verify lib alg key prf of
          None \<Rightarrow> Inl ErrBadSignature
        | Some payload \<Rightarrow> (case decode_proof payload of None \<Rightarrow> Inl ErrMalformedProof | Some c \<Rightarrow> Inr c)))"

definition stale :: "duration \<Rightarrow> time \<Rightarrow> time \<Rightarrow> bool" where
  "stale leeway now iat = (let delta = time_sub now iat in delta > leeway \<or> delta < wrap64 (- leeway))"

definition effective_leeway :: "Request \<Rightarrow> duration" where
  "effective_leeway req = (if dr_Leeway req = 0 then IatLeeway else dr_Leeway req)"

definition effective_now :: "Request \<Rightarrow> time \<Rightarrow> time" where
  "effective_now req now = (if dr_Now req = zero_time then now else dr_Now req)"

text \<open>Steps 6 to 11: the claims against the request; the result is the thumbprint and the issue time.\<close>

definition check_proof_claims ::
  "'key dpop_lib \<Rightarrow> Request \<Rightarrow> time \<Rightarrow> (bytes \<times> json) list \<Rightarrow> proofClaims \<Rightarrow> dpop_error + bytes \<times> time" where
  "check_proof_claims lib req now jwk claims =
     (if pc_HTM claims \<noteq> dr_Method req then Inl ErrHTMMismatch
      else if CanonicalHTU (pc_HTU claims) \<noteq> CanonicalHTU (dr_URI req) then Inl ErrHTUMismatch
      else case pc_IAT claims of
        None \<Rightarrow> Inl ErrMalformedProof
      | Some secs \<Rightarrow>
        (let iat = time_unix secs in
         if stale (effective_leeway req) (effective_now req now) iat then Inl ErrStaleProof
         else if pc_ATH claims = [] then Inl ErrMalformedProof
         else if pc_ATH claims \<noteq> AccessTokenHash (dl_sha lib) (dr_AccessToken req) then Inl ErrATHMismatch
         else rbind (ThumbprintS256 (dl_sha lib) (dl_quote lib) jwk) (\<lambda>jkt.
           if dr_ExpectedJkt req \<noteq> [] \<and> jkt \<noteq> dr_ExpectedJkt req then Inl ErrThumbprintNoMatch
           else if pc_JTI claims = [] then Inl ErrMalformedProof
           else Inr (jkt, iat))))"

text \<open>Everything before the claim of the id: the thumbprint, the id, and the expiry it is claimed for.\<close>

definition examine :: "'key dpop_lib \<Rightarrow> bytes \<Rightarrow> Request \<Rightarrow> time \<Rightarrow> dpop_error + bytes \<times> bytes \<times> time" where
  "examine lib prf req now =
     rbind (proof_header prf) (\<lambda>header.
     rbind (proof_jwk header) (\<lambda>jwk.
     rbind (proof_payload lib prf jwk) (\<lambda>claims.
     rbind (check_proof_claims lib req now jwk claims) (\<lambda>(jkt, iat).
     Inr (jkt, pc_JTI claims, iat + effective_leeway req)))))"

definition VerifyProof ::
  "'key dpop_lib \<Rightarrow> bytes \<Rightarrow> Request \<Rightarrow> time \<Rightarrow> (bytes \<Rightarrow> time \<Rightarrow> 's \<Rightarrow> bool \<times> 's) \<Rightarrow> 's \<Rightarrow> (dpop_error + bytes) \<times> 's" where
  "VerifyProof lib prf req now claim store =
     (case examine lib prf req now of
        Inl e \<Rightarrow> (Inl e, store)
      | Inr (jkt, jti, expiresAt) \<Rightarrow>
        (let (ok, store') = claim jti expiresAt store in (if ok then Inr jkt else Inl ErrReplayedProof, store')))"

section \<open>The in-memory store is a single-use store\<close>

definition jti_live :: "InMemoryJtiStore \<Rightarrow> bytes \<Rightarrow> time \<Rightarrow> bool" where
  "jti_live seen jti t \<longleftrightarrow> (case DAList.lookup seen jti of None \<Rightarrow> False | Some e \<Rightarrow> t < e)"

lemma lookup_filter: "DAList.lookup (DAList.filter P m) k =
    (case DAList.lookup m k of None \<Rightarrow> None | Some v \<Rightarrow> if P (k, v) then Some v else None)"
  by transfer (simp add: map_of_filter_distinct)

lemma Claim_fst: "fst (Claim now jti e seen) \<longleftrightarrow> \<not> jti_live seen jti now"
  by (auto simp: Claim_def jti_live_def lookup_filter Let_def split: option.split)

lemma Claim_live: "now \<le> t \<Longrightarrow> jti_live (snd (Claim now jti e seen)) k t \<longleftrightarrow>
    (if k = jti \<and> fst (Claim now jti e seen) then t < e else jti_live seen k t)"
  by (auto simp: Claim_def jti_live_def lookup_filter lookup_update Let_def split: option.split)

lemma Claim_records: "fst (Claim now jti e seen) \<Longrightarrow> jti_live (snd (Claim now jti e seen)) jti t \<longleftrightarrow> t < e"
  by (auto simp: Claim_def jti_live_def Let_def split: option.splits if_splits)

interpretation jtis: single_use_store Claim jti_live
proof
  show "jti_live s k t \<Longrightarrow> now \<le> t \<Longrightarrow> jti_live (snd (Claim now k' e s)) k t" for s k t now k' e
    unfolding Claim_live using Claim_fst by (auto simp: jti_live_def split: option.splits)
qed (simp_all add: Claim_fst Claim_records)

section \<open>Runs\<close>

text \<open>
  Requests one store judges, in order, each with its proof, the clock when the proof is examined and the
  clock when its id is claimed: the verdicts.
\<close>

fun verify_run :: "'key dpop_lib \<Rightarrow> (bytes \<times> Request \<times> time \<times> time) list \<Rightarrow> InMemoryJtiStore \<Rightarrow> (dpop_error + bytes) list" where
  "verify_run lib [] store = []"
| "verify_run lib ((prf, req, now, now') # rs) store =
     (let (r, store') = VerifyProof lib prf req now (Claim now') store in r # verify_run lib rs store')"

definition jti_claim :: "'key dpop_lib \<Rightarrow> bytes \<times> Request \<times> time \<times> time \<Rightarrow> bool \<times> time \<times> bytes \<times> time" where
  "jti_claim lib r = (case r of (prf, req, now, now') \<Rightarrow>
     (case examine lib prf req now of Inl e \<Rightarrow> (False, now', [], 0) | Inr (jkt, jti, expiry) \<Rightarrow> (True, now', jti, expiry)))"

lemma jti_claim_time: "fst (snd (jti_claim lib (prf, req, now, now'))) = now'"
  by (auto simp: jti_claim_def split: sum.split prod.split)

lemma VerifyProof_claim:
  "VerifyProof lib prf req now (Claim now') store =
     (case jti_claim lib (prf, req, now, now') of (ok, n, jti, expiry) \<Rightarrow>
        (if \<not> ok then (Inl (projl (examine lib prf req now)), store)
         else (if fst (Claim n jti expiry store) then Inr (fst (projr (examine lib prf req now))) else Inl ErrReplayedProof,
               snd (Claim n jti expiry store))))"
  by (auto simp: VerifyProof_def jti_claim_def Let_def split: sum.split prod.splits)

lemma verify_run_claims:
  "map isl (verify_run lib rs store) = map Not (fst (guarded_run Claim (map (jti_claim lib) rs) store))"
proof (induction rs arbitrary: store)
  case (Cons r rs)
  obtain p req t t' where r: "r = (p, req, t, t')" by (cases r)
  obtain ok n jti e where c: "jti_claim lib r = (ok, n, jti, e)" by (cases "jti_claim lib r")
  show ?case using Cons [of "if ok then snd (Claim n jti e store) else store"] c
    by (auto simp: r VerifyProof_claim Let_def split: prod.split)
qed simp

lemma verify_run_length [simp]: "length (verify_run lib rs store) = length rs"
  by (induction lib rs store rule: verify_run.induct) (auto simp: Let_def split: prod.split)

lemma verify_run_nth:
  assumes "j < length rs"
  shows "isl (verify_run lib rs store ! j) \<longleftrightarrow> \<not> fst (guarded_run Claim (map (jti_claim lib) rs) store) ! j"
  using arg_cong [OF verify_run_claims [of lib rs store], of "\<lambda>l. l ! j"] assms
  by (simp add: jtis.run_length)

lemma payload_checks:
  "proof_payload lib prf jwk = Inr claims \<longleftrightarrow>
     (\<exists>alg key payload. expectedAlg jwk = Inr alg \<and> dl_parse_key lib jwk = Some key \<and>
        dl_verify lib alg key prf = Some payload \<and> decode_proof payload = Some claims)"
  by (cases "expectedAlg jwk") (auto simp: proof_payload_def split: option.split)

lemma claim_checks:
  "check_proof_claims lib req now jwk claims = Inr (jkt, iat) \<longleftrightarrow>
     (\<exists>secs. pc_IAT claims = Some secs \<and> iat = time_unix secs \<and>
        pc_HTM claims = dr_Method req \<and> CanonicalHTU (pc_HTU claims) = CanonicalHTU (dr_URI req) \<and>
        \<not> stale (effective_leeway req) (effective_now req now) (time_unix secs) \<and>
        pc_ATH claims \<noteq> [] \<and> pc_ATH claims = AccessTokenHash (dl_sha lib) (dr_AccessToken req) \<and>
        ThumbprintS256 (dl_sha lib) (dl_quote lib) jwk = Inr jkt \<and> dr_ExpectedJkt req \<in> {[], jkt} \<and> pc_JTI claims \<noteq> [])"
  by (auto simp: check_proof_claims_def rbind_Inr_iff Let_def split: option.split)

lemma examine_checks:
  assumes "examine lib prf req now = Inr (jkt, jti, expiry)"
  obtains header jwk key alg payload claims secs where
    "proof_header prf = Inr header" "proof_jwk header = Inr jwk" "expectedAlg jwk = Inr alg" "dl_parse_key lib jwk = Some key"
    "dl_verify lib alg key prf = Some payload" "decode_proof payload = Some claims" "pc_IAT claims = Some secs"
    "pc_HTM claims = dr_Method req" "CanonicalHTU (pc_HTU claims) = CanonicalHTU (dr_URI req)"
    "\<not> stale (effective_leeway req) (effective_now req now) (time_unix secs)"
    "pc_ATH claims = AccessTokenHash (dl_sha lib) (dr_AccessToken req)"
    "ThumbprintS256 (dl_sha lib) (dl_quote lib) jwk = Inr jkt" "dr_ExpectedJkt req \<in> {[], jkt}"
    "pc_JTI claims = jti" "jti \<noteq> []" "expiry = time_unix secs + effective_leeway req"
  using assms unfolding examine_def rbind_Inr_iff payload_checks
  by (auto simp: claim_checks)

lemma fresh_until_expiry:
  assumes "examine lib prf req now = Inr (jkt, jti, expiry)" "in_int64 (effective_leeway req)" "effective_leeway req < max_int64"
  shows "effective_now req now \<le> expiry"
proof -
  obtain secs where e: "expiry = time_unix secs + effective_leeway req"
    and f: "\<not> stale (effective_leeway req) (effective_now req now) (time_unix secs)"
    using examine_checks [OF assms(1)] by blast
  from f have "time_sub (effective_now req now) (time_unix secs) \<le> effective_leeway req" by (simp add: stale_def Let_def)
  then have "effective_now req now - time_unix secs \<le> effective_leeway req"
    using assms(2,3) by (simp add: time_sub_def sat64_le_iff in_int64_def)
  then show ?thesis using e by simp
qed

section \<open>Properties\<close>

text \<open>
  (C4) A proof is accepted only if it is signed, under the one algorithm of its key's type, by the public key it
  carries, for this method, this URI (query and fragment aside) and this access token, with an issue time
  within the leeway and an id that had not been claimed; the thumbprint returned is that key's and, where
  one was expected, the one expected.
\<close>

theorem accepted_proof:
  "case VerifyProof lib prf req now claim store of
     (Inl e, store') \<Rightarrow> True
   | (Inr jkt, store') \<Rightarrow>
       \<exists>header jwk key alg payload claims secs.
         proof_header prf = Inr header \<and> proof_jwk header = Inr jwk \<and> expectedAlg jwk = Inr alg \<and>
         dl_parse_key lib jwk = Some key \<and> dl_verify lib alg key prf = Some payload \<and> decode_proof payload = Some claims \<and>
         list_all (\<lambda>m. any_member m jwk = None) privateJWKMembers \<and>
         pc_HTM claims = dr_Method req \<and> CanonicalHTU (pc_HTU claims) = CanonicalHTU (dr_URI req) \<and>
         pc_ATH claims = AccessTokenHash (dl_sha lib) (dr_AccessToken req) \<and>
         pc_IAT claims = Some secs \<and> \<not> stale (effective_leeway req) (effective_now req now) (time_unix secs) \<and>
         ThumbprintS256 (dl_sha lib) (dl_quote lib) jwk = Inr jkt \<and> dr_ExpectedJkt req \<in> {[], jkt} \<and>
         claim (pc_JTI claims) (time_unix secs + effective_leeway req) store = (True, store')"
proof (cases "VerifyProof lib prf req now claim store")
  case result: (Pair r store')
  show ?thesis
  proof (cases r)
    case (Inr jkt)
    obtain jti expiry where ex: "examine lib prf req now = Inr (jkt, jti, expiry)" and cl: "claim jti expiry store = (True, store')"
      using result Inr by (auto simp: VerifyProof_def Let_def split: sum.splits prod.splits if_splits)
    have public: "proof_jwk header = Inr jwk \<Longrightarrow> list_all (\<lambda>m. any_member m jwk = None) privateJWKMembers" for header jwk
      by (auto simp: proof_jwk_def Let_def list_ex_iff list_all_iff split: option.splits json.splits if_splits)
    show ?thesis
      using examine_checks [OF ex] public cl unfolding result Inr prod.case sum.case by metis
  qed (simp add: result)
qed


definition demo_proof :: bytes where
  "demo_proof = ''eyJ0eXAiOiJkcG9wK2p3dCIsImp3ayI6eyJrdHkiOiJPS1AiLCJjcnYiOiJFZDI1NTE5IiwieCI6IkEifX0.eyJodG0iOiJHRVQiLCJodHUiOiIvIiwiaWF0IjoxNzAwMDAwMDAwLCJqdGkiOiJqIiwiYXRoIjoiZEEifQ.s''"

definition demo_lib :: "unit dpop_lib" where
  "demo_lib = \<lparr>dl_sha = take (Suc 0), dl_quote = id, dl_parse_key = (\<lambda>_. Some ()),
     dl_verify = (\<lambda>alg key p. b64url_decode (split_on CHR ''.'' p ! 1))\<rparr>"

definition demo_request :: Request where
  "demo_request = \<lparr>dr_Method = ''GET'', dr_URI = ''/'', dr_AccessToken = ''t'', dr_ExpectedJkt = [], dr_Leeway = 0, dr_Now = zero_time\<rparr>"

lemma demo_header: "proof_header demo_proof = Inr [(''typ'', JStr ''dpop+jwt''),
    (''jwk'', JObj [(''kty'', JStr ''OKP''), (''crv'', JStr ''Ed25519''), (''x'', JStr ''A'')])]"
  by code_simp

lemma demo_jwk: "proof_jwk [(''typ'', JStr ''dpop+jwt''), (''jwk'', JObj [(''kty'', JStr ''OKP''), (''crv'', JStr ''Ed25519''), (''x'', JStr ''A'')])] =
    Inr [(''kty'', JStr ''OKP''), (''crv'', JStr ''Ed25519''), (''x'', JStr ''A'')]"
  by code_simp

definition demo_claims :: proofClaims where
  "demo_claims = \<lparr>pc_HTM = ''GET'', pc_HTU = ''/'', pc_IAT = Some 1700000000, pc_JTI = ''j'', pc_ATH = ''dA''\<rparr>"

lemma demo_segment: "b64url_decode (split_on CHR ''.'' demo_proof ! Suc 0) =
    Some ''{\"htm\":\"GET\",\"htu\":\"/\",\"iat\":1700000000,\"jti\":\"j\",\"ath\":\"dA\"}''"
  by code_simp

lemma demo_decode: "decode_proof ''{\"htm\":\"GET\",\"htu\":\"/\",\"iat\":1700000000,\"jti\":\"j\",\"ath\":\"dA\"}'' = Some demo_claims"
  by code_simp

lemma demo_thumbprint: "ThumbprintS256 (take (Suc 0)) id [(''kty'', JStr ''OKP''), (''crv'', JStr ''Ed25519''), (''x'', JStr ''A'')] =
    Inr ''ew''"
  and demo_hash: "AccessTokenHash (take (Suc 0)) ''t'' = ''dA''"
  by code_simp+

lemma demo_alg: "expectedAlg [(''kty'', JStr ''OKP''), (''crv'', JStr ''Ed25519''), (''x'', JStr ''A'')] = Inr ''EdDSA''"
  by code_simp

lemma demo_lib_simps [simp]:
  "dl_sha demo_lib = take (Suc 0)" "dl_quote demo_lib = id" "dl_parse_key demo_lib jwk = Some ()"
  "dl_verify demo_lib alg key p = b64url_decode (split_on CHR ''.'' p ! 1)"
  by (simp_all add: demo_lib_def)

lemma demo_leeway: "effective_leeway demo_request = 60000000000" "effective_now demo_request t = t"
  by (simp_all add: effective_leeway_def effective_now_def demo_request_def IatLeeway_def Second_def)

lemma demo_examine:
  assumes "t \<in> {1700000000000000000, 1700000060000000000}"
  shows "examine demo_lib demo_proof demo_request t =
    Inr (''ew'', ''j'', 1700000060000000000)"
proof -
  have "\<not> stale 60000000000 t (time_unix 1700000000)"
    using assms by (auto simp: stale_def time_sub_def time_unix_def in_int64_def max_int64_def min_int64_def)
  then have "check_proof_claims demo_lib demo_request t [(''kty'', JStr ''OKP''), (''crv'', JStr ''Ed25519''), (''x'', JStr ''A'')] demo_claims =
      Inr (''ew'', 1700000000000000000)"
    by (simp add: check_proof_claims_def demo_leeway demo_claims_def demo_hash demo_thumbprint)
       (simp add: demo_request_def demo_hash demo_thumbprint CanonicalHTU_def time_unix_def)
  then show ?thesis
    by (simp add: examine_def demo_header demo_jwk proof_payload_def demo_alg demo_leeway demo_segment demo_decode)
       (simp add: demo_claims_def)
qed


end
