(* ===== verification/Revocation.thy ===== *)
theory Revocation
  imports Client Json_Fields
begin

text \<open>
  \<open>internal/revocation/feed.go\<close>: the poller of the session-revocation feed. The HTTP client is a
  function on a world of any type that returns the status and the body, or nothing on a failure;
  SHA-256 and the parsing of the base URL are arguments. The set of entries is a list, nil when no
  document was accepted yet.
\<close>

section \<open>The feed\<close>

definition FeedPath :: bytes where "FeedPath = ''/oauth2/revocations''"
definition supportedAlg :: bytes where "supportedAlg = ''SHA-256''"
definition MinPollInterval :: duration where "MinPollInterval = 15 * Second"
definition DefaultPollInterval :: duration where "DefaultPollInterval = 30 * Second"
definition MaxEntries :: nat where "MaxEntries = 100000"
definition maxBodyBytes :: nat where "maxBodyBytes = 8388608"

record Feed =
  fd_host :: bytes
  fd_pollInterval :: duration
  fd_entries :: "bytes list option"
  fd_lastAttempt :: time

definition EntryFor :: "(bytes \<Rightarrow> bytes) \<Rightarrow> bytes \<Rightarrow> bytes" where
  "EntryFor sha sid = b64url_encode (sha sid)"

text \<open>\<open>NewFeed\<close>: the base URL as its scheme and host, or nothing when it does not parse.\<close>

definition NewFeed :: "(bytes \<times> bytes) option \<Rightarrow> Feed option" where
  "NewFeed baseURL =
     (case baseURL of None \<Rightarrow> None
      | Some (scheme, host) \<Rightarrow> if scheme = [] \<or> host = [] then None
          else Some \<lparr>fd_host = host, fd_pollInterval = DefaultPollInterval, fd_entries = None, fd_lastAttempt = zero_time\<rparr>)"

definition WithPollInterval :: "duration \<Rightarrow> Feed \<Rightarrow> Feed" where
  "WithPollInterval interval f = f\<lparr>fd_pollInterval := (if interval < MinPollInterval then MinPollInterval else interval)\<rparr>"

definition decode_feed :: "bytes \<Rightarrow> (bytes \<times> bytes list) option" where
  "decode_feed body =
     Option.bind (body_members body) (\<lambda>ms.
     let f = (\<lambda>n. field_values [''alg'', ''revoked''] n ms) in
     Option.bind (dec_string [] (f ''alg'')) (\<lambda>alg.
     Option.bind (dec_strings [] (f ''revoked'')) (\<lambda>revoked. Some (alg, revoked))))"

definition fetch :: "(bytes \<Rightarrow> bytes \<Rightarrow> 'w \<Rightarrow> (int \<times> bytes) option \<times> 'w) \<Rightarrow> Feed \<Rightarrow> 'w \<Rightarrow> bytes list option \<times> 'w" where
  "fetch get f w =
     (case get (fd_host f) FeedPath w of
        (None, w1) \<Rightarrow> (None, w1)
      | (Some (status, body), w1) \<Rightarrow>
        (if status \<noteq> 200 then None
         else case decode_feed (take maxBodyBytes body) of
           None \<Rightarrow> None
         | Some (alg, revoked) \<Rightarrow> if alg \<noteq> supportedAlg \<or> length revoked > MaxEntries then None else Some revoked, w1))"

definition feed_refresh ::
  "(bytes \<Rightarrow> bytes \<Rightarrow> 'w \<Rightarrow> (int \<times> bytes) option \<times> 'w) \<Rightarrow> ('w \<Rightarrow> time) \<Rightarrow> Feed \<Rightarrow> 'w \<Rightarrow> Feed \<times> 'w" where
  "feed_refresh get clock f w =
     (let (fetched, w1) = fetch get f w;
          f1 = f\<lparr>fd_lastAttempt := clock w1\<rparr>
      in (case fetched of None \<Rightarrow> f1 | Some es \<Rightarrow> f1\<lparr>fd_entries := Some es\<rparr>, w1))"

definition refreshIfStale ::
  "(bytes \<Rightarrow> bytes \<Rightarrow> 'w \<Rightarrow> (int \<times> bytes) option \<times> 'w) \<Rightarrow> ('w \<Rightarrow> time) \<Rightarrow> Feed \<Rightarrow> 'w \<Rightarrow> Feed \<times> 'w" where
  "refreshIfStale get clock f w =
     (if fd_lastAttempt f \<noteq> zero_time \<and> time_sub (clock w) (fd_lastAttempt f) < fd_pollInterval f then (f, w)
      else feed_refresh get clock f w)"

definition listed :: "(bytes \<Rightarrow> bytes) \<Rightarrow> bytes \<Rightarrow> Feed \<Rightarrow> bool" where
  "listed sha sid f = (case fd_entries f of None \<Rightarrow> False | Some es \<Rightarrow> EntryFor sha sid \<in> set es)"

definition IsRevoked ::
  "(bytes \<Rightarrow> bytes) \<Rightarrow> (bytes \<Rightarrow> bytes \<Rightarrow> 'w \<Rightarrow> (int \<times> bytes) option \<times> 'w) \<Rightarrow> ('w \<Rightarrow> time) \<Rightarrow> bytes \<Rightarrow> Feed \<Rightarrow> 'w \<Rightarrow>
   bool \<times> Feed \<times> 'w" where
  "IsRevoked sha get clock sid f w =
     (if sid = [] then (False, f, w)
      else let (f1, w1) = refreshIfStale get clock f w
           in (listed sha sid f1, f1, w1))"

section \<open>What a fetch can do to the set\<close>

text \<open>Anything but an accepted document leaves the set as it was: a failed poll revokes nothing and forgets nothing.\<close>

lemma fetch_accepts:
  "fst (fetch get f w) = Some es \<longleftrightarrow>
     (\<exists>body. fst (get (fd_host f) FeedPath w) = Some (200, body) \<and>
        decode_feed (take maxBodyBytes body) = Some (supportedAlg, es) \<and> length es \<le> MaxEntries)"
  by (cases "get (fd_host f) FeedPath w") (auto simp: fetch_def split: option.split if_splits)

lemma refresh_entries:
  "fd_entries (fst (feed_refresh get clock f w)) =
     (case fst (fetch get f w) of None \<Rightarrow> fd_entries f | Some es \<Rightarrow> Some es)"
  by (auto simp: feed_refresh_def Let_def split: prod.splits option.splits)

lemma refresh_keeps_config [simp]:
  "fd_pollInterval (fst (refreshIfStale get clock f w)) = fd_pollInterval f"
  "fd_host (fst (refreshIfStale get clock f w)) = fd_host f"
  by (auto simp: refreshIfStale_def feed_refresh_def Let_def split: prod.splits option.splits)

lemma fresh_feed_asks_nobody:
  "fd_lastAttempt f \<noteq> zero_time \<Longrightarrow> time_sub (clock w) (fd_lastAttempt f) < fd_pollInterval f \<Longrightarrow>
   refreshIfStale get clock f w = (f, w)"
  by (simp add: refreshIfStale_def)

text \<open>
  A failed fetch does not answer for a session: the verdict of a lookup is that of the last document accepted, or
  ``not revoked'' before the first.
\<close>

lemma lookup_verdict:
  "IsRevoked sha get clock sid f w = (r, f', w') \<Longrightarrow>
   r = (sid \<noteq> [] \<and> listed sha sid f')"
  by (auto simp: IsRevoked_def Let_def split: if_splits prod.splits)

lemma not_revoked: "IsRevoked sha get clock sid f w = (False, f', w') \<Longrightarrow> sid \<noteq> [] \<Longrightarrow> \<not> listed sha sid f'"
  by (drule lookup_verdict) simp

section \<open>Properties\<close>

text \<open>
  (C42) One lookup. The verdict is that of the set as it is afterwards, ``not revoked'' while no document was
  ever accepted. Within the poll interval of the last attempt, or for no session, nobody is asked and
  nothing changes; otherwise the attempt is stamped whatever came of it, and the set is replaced by the
  document fetched when that was accepted and kept otherwise.
\<close>

theorem revocation_lookup:
  "case IsRevoked sha get clock sid f w of (revoked, f', w') \<Rightarrow>
     revoked = (sid \<noteq> [] \<and> listed sha sid f') \<and>
     (if sid = [] \<or> fd_lastAttempt f \<noteq> zero_time \<and> time_sub (clock w) (fd_lastAttempt f) < fd_pollInterval f
      then (f', w') = (f, w)
      else fd_lastAttempt f' = clock w' \<and>
        (case get (fd_host f) FeedPath w of
           (Some (status, body), w1) \<Rightarrow> w' = w1 \<and> fd_entries f' =
             (case decode_feed (take maxBodyBytes body) of
                None \<Rightarrow> fd_entries f
              | Some (alg, es) \<Rightarrow> if status = 200 \<and> alg = supportedAlg \<and> length es \<le> MaxEntries then Some es
                                 else fd_entries f)
         | (None, w1) \<Rightarrow> w' = w1 \<and> fd_entries f' = fd_entries f))"
  by (auto simp: IsRevoked_def refreshIfStale_def feed_refresh_def fetch_def Let_def
      split: prod.splits option.splits if_splits)

end
