(* ===== verification/Jwks.thy ===== *)
theory Jwks
  imports Go_Float Revocation
begin

text \<open>
  \<open>internal/jwks\<close>: the claims of an access token, the checks after its signature, and the verifier with
  its single forced refetch. What the third-party JOSE library does, parsing a token, verifying it under
  a key set or a key, looking a key up, and answering from its cache or refetching, is a record of
  functions. A claim that is an array may be nil or empty; no check tells them apart, and both are \<open>[]\<close>.
\<close>

section \<open>Errors\<close>

text \<open>The sentinels of \<open>validate.go\<close> and \<open>verifier.go\<close>; \<open>JwksFailure\<close> is an error made in place.\<close>

datatype jwks_error =
    ErrNoSignatures | ErrUnexpectedAlg | ErrUnknownKid | ErrSignatureInvalid
  | ErrNoConfiguredTenant | ErrTenantMismatch | ErrMissingExp | ErrExpired | ErrNotYetValid
  | ErrIssuerMismatch | ErrAudienceMismatch | ErrSessionRevoked
  | ErrUnverifiableConfirmation | ErrNoClientCertificate | ErrNoDPoPProof
  | ErrDPoPBindingMismatch | ErrCertificateBindingMismatch
  | JwksFailure bytes

section \<open>Claims\<close>

record Confirmation =
  cnf_X5tS256 :: bytes
  cnf_Jkt :: bytes

record Claims =
  cl_Subject :: bytes
  cl_TenantID :: bytes
  cl_OrgID :: bytes
  cl_Roles :: "bytes list"
  cl_Exp :: "int option"
  cl_Nbf :: "int option"
  cl_Issuer :: bytes
  cl_Audience :: "bytes list"
  cl_SessionID :: bytes
  cl_Confirmation :: "Confirmation option"

text \<open>A \<open>json.RawMessage\<close> field holds the last of its member's values.\<close>

definition raw_value :: "json list \<Rightarrow> json option" where
  "raw_value vs = (if vs = [] then None else Some (last vs))"

text \<open>A pointer to a struct: \<open>null\<close> drops it, an object allocates it or adds to it.\<close>

fun dec_struct_ptr :: "(bytes \<times> json) list option \<Rightarrow> json list \<Rightarrow> (bytes \<times> json) list option option" where
  "dec_struct_ptr cur [] = Some cur"
| "dec_struct_ptr cur (JNull # vs) = dec_struct_ptr None vs"
| "dec_struct_ptr cur (v # vs) =
     (case struct_members v of None \<Rightarrow> None
      | Some ms \<Rightarrow> dec_struct_ptr (Some ((case cur of None \<Rightarrow> [] | Some ms0 \<Rightarrow> ms0) @ ms)) vs)"

definition numericDate :: "(rat \<Rightarrow> int) \<Rightarrow> json option \<Rightarrow> int option option" where
  "numericDate wild raw =
     (case raw of None \<Rightarrow> Some None
      | Some JNull \<Rightarrow> Some None
      | Some v \<Rightarrow> map_option (\<lambda>seconds. Some (int64_of_float wild seconds)) (float_value v))"

definition audience :: "json option \<Rightarrow> bytes list option" where
  "audience raw =
     (case raw of None \<Rightarrow> Some []
      | Some (JStr s) \<Rightarrow> Some [unquote s]
      | Some v \<Rightarrow> dec_strings [] [v])"

definition claim_names :: "bytes list" where
  "claim_names = [''sub'', ''tenant_id'', ''org_id'', ''exp'', ''nbf'', ''iss'', ''aud'', ''scope'', ''sid'', ''cnf'']"

definition decode_cnf :: "(bytes \<times> json) list \<Rightarrow> Confirmation option" where
  "decode_cnf ms =
     (let f = (\<lambda>n. field_values [''x5t#S256'', ''jkt''] n ms) in
      Option.bind (dec_string [] (f ''x5t#S256'')) (\<lambda>x5t.
      Option.bind (dec_string [] (f ''jkt'')) (\<lambda>jkt. Some \<lparr>cnf_X5tS256 = x5t, cnf_Jkt = jkt\<rparr>)))"

definition claims_of_members :: "(rat \<Rightarrow> int) \<Rightarrow> (bytes \<times> json) list \<Rightarrow> Claims option" where
  "claims_of_members wild ms =
     (let f = (\<lambda>n. field_values claim_names n ms) in
      Option.bind (dec_string [] (f ''sub'')) (\<lambda>sub.
      Option.bind (dec_string [] (f ''tenant_id'')) (\<lambda>tenant.
      Option.bind (dec_string [] (f ''org_id'')) (\<lambda>org.
      Option.bind (dec_string [] (f ''iss'')) (\<lambda>iss.
      Option.bind (dec_string [] (f ''scope'')) (\<lambda>scope.
      Option.bind (dec_string [] (f ''sid'')) (\<lambda>sid.
      Option.bind (dec_struct_ptr None (f ''cnf'')) (\<lambda>cnfms.
      Option.bind (case cnfms of None \<Rightarrow> Some None | Some c \<Rightarrow> map_option Some (decode_cnf c)) (\<lambda>cnf.
      Option.bind (numericDate wild (raw_value (f ''exp''))) (\<lambda>expiry.
      Option.bind (numericDate wild (raw_value (f ''nbf''))) (\<lambda>nbf.
      Option.bind (audience (raw_value (f ''aud''))) (\<lambda>aud.
      Some \<lparr>cl_Subject = sub, cl_TenantID = tenant, cl_OrgID = org, cl_Roles = Go_Strings.fields scope, cl_Exp = expiry,
            cl_Nbf = nbf, cl_Issuer = iss, cl_Audience = aud, cl_SessionID = sid, cl_Confirmation = cnf\<rparr>))))))))))))"

definition parseClaims :: "(rat \<Rightarrow> int) \<Rightarrow> bytes \<Rightarrow> jwks_error + Claims" where
  "parseClaims wild payload =
     (case Option.bind (body_members payload) (claims_of_members wild) of
        None \<Rightarrow> Inl (JwksFailure ''jwks: failed to parse claims'') | Some c \<Rightarrow> Inr c)"

section \<open>Checks after the signature\<close>

definition ClockSkewLeeway :: duration where "ClockSkewLeeway = 60 * Second"

record ValidationOptions =
  vo_Tenant :: bytes
  vo_ExpectedIssuer :: bytes
  vo_ExpectedAudience :: bytes

definition ValidateClaims :: "Claims \<Rightarrow> ValidationOptions \<Rightarrow> time \<Rightarrow> jwks_error option" where
  "ValidateClaims claims opts now =
     (if vo_Tenant opts = [] then Some ErrNoConfiguredTenant
      else if cl_TenantID claims = [] \<or> cl_TenantID claims \<noteq> vo_Tenant opts then Some ErrTenantMismatch
      else case cl_Exp claims of
        None \<Rightarrow> Some ErrMissingExp
      | Some expiry \<Rightarrow>
        (if \<not> now - ClockSkewLeeway < time_unix expiry then Some ErrExpired
         else if (case cl_Nbf claims of None \<Rightarrow> False | Some nbf \<Rightarrow> now + ClockSkewLeeway < time_unix nbf)
         then Some ErrNotYetValid
         else if vo_ExpectedIssuer opts \<noteq> [] \<and> cl_Issuer claims \<noteq> vo_ExpectedIssuer opts then Some ErrIssuerMismatch
         else if vo_ExpectedAudience opts \<noteq> [] \<and> vo_ExpectedAudience opts \<notin> set (cl_Audience claims)
         then Some ErrAudienceMismatch
         else None))"

record PresentedProofs =
  pp_CertificateThumbprint :: bytes
  pp_DPoPThumbprint :: bytes

definition NamesNothingCheckable :: "Confirmation \<Rightarrow> bool" where
  "NamesNothingCheckable c \<longleftrightarrow> cnf_X5tS256 c = [] \<and> cnf_Jkt c = []"

definition VerifyCertificateBinding :: "Claims \<Rightarrow> bytes \<Rightarrow> jwks_error option" where
  "VerifyCertificateBinding claims presented =
     (case cl_Confirmation claims of None \<Rightarrow> None
      | Some c \<Rightarrow>
        if cnf_X5tS256 c = [] then Some ErrUnverifiableConfirmation
        else if cnf_Jkt c \<noteq> [] then Some ErrUnverifiableConfirmation
        else if presented = [] then Some ErrNoClientCertificate
        else if cnf_X5tS256 c \<noteq> presented then Some ErrCertificateBindingMismatch
        else None)"

definition CertificateThumbprintS256 :: "(bytes \<Rightarrow> bytes) \<Rightarrow> bytes \<Rightarrow> bytes" where
  "CertificateThumbprintS256 sha der = b64url_encode (sha der)"

definition check_certificate :: "Confirmation \<Rightarrow> PresentedProofs \<Rightarrow> jwks_error option" where
  "check_certificate c proofs =
     (if cnf_X5tS256 c = [] then None
      else if pp_CertificateThumbprint proofs = [] then Some ErrNoClientCertificate
      else if cnf_X5tS256 c \<noteq> pp_CertificateThumbprint proofs then Some ErrCertificateBindingMismatch else None)"

definition check_dpop :: "Confirmation \<Rightarrow> PresentedProofs \<Rightarrow> jwks_error option" where
  "check_dpop c proofs =
     (if cnf_Jkt c = [] then None
      else if pp_DPoPThumbprint proofs = [] then Some ErrNoDPoPProof
      else if cnf_Jkt c \<noteq> pp_DPoPThumbprint proofs then Some ErrDPoPBindingMismatch else None)"

definition VerifyTokenBinding :: "Claims \<Rightarrow> PresentedProofs \<Rightarrow> jwks_error option" where
  "VerifyTokenBinding claims proofs =
     (case cl_Confirmation claims of None \<Rightarrow> None
      | Some c \<Rightarrow>
        if NamesNothingCheckable c then Some ErrUnverifiableConfirmation
        else case check_certificate c proofs of Some e \<Rightarrow> Some e | None \<Rightarrow> check_dpop c proofs)"

section \<open>The verifier\<close>

record ('ks, 'key, 'w) jose =
  jo_parse :: "bytes \<Rightarrow> (bytes option \<times> bytes option) list option"
  jo_verify_set :: "'ks \<Rightarrow> bytes \<Rightarrow> bytes option"
  jo_verify_key :: "'key \<Rightarrow> bytes \<Rightarrow> bytes option"
  jo_lookup :: "bytes \<Rightarrow> 'ks \<Rightarrow> 'key option"
  jo_cached :: "'w \<Rightarrow> 'ks option \<times> 'w"
  jo_refresh :: "'w \<Rightarrow> 'ks option \<times> 'w"

definition VerifySignatureOnlyUnchecked ::
  "('ks, 'key, 'w) jose \<Rightarrow> (rat \<Rightarrow> int) \<Rightarrow> bytes \<Rightarrow> 'w \<Rightarrow> (jwks_error + Claims) \<times> 'w" where
  "VerifySignatureOnlyUnchecked jo wild token w =
     (case jo_parse jo token of
        None \<Rightarrow> (Inl (JwksFailure ''jwks: invalid token''), w)
      | Some [] \<Rightarrow> (Inl (JwksFailure ''jwks: token has no signatures''), w)
      | Some (sig # sigs) \<Rightarrow>
        if list_ex (\<lambda>s. fst s \<noteq> Some ''EdDSA'') (sig # sigs)
        then (Inl (JwksFailure ''jwks: unexpected alg: only EdDSA is accepted''), w)
        else case jo_cached jo w of
          (None, w1) \<Rightarrow> (Inl (JwksFailure ''jwks: JWKS fetch failed''), w1)
        | (Some ks, w1) \<Rightarrow>
          (case jo_verify_set jo ks token of
             Some payload \<Rightarrow> (parseClaims wild payload, w1)
           | None \<Rightarrow>
             (let (again, w2) = jo_cached jo w1 in
              case Option.bind again (\<lambda>ks2. jo_verify_set jo ks2 token) of
                Some payload \<Rightarrow> (parseClaims wild payload, w2)
              | None \<Rightarrow>
                (case jo_refresh jo w2 of
                   (None, w3) \<Rightarrow> (Inl (JwksFailure ''jwks: token verification failed and JWKS refetch also failed''), w3)
                 | (Some ks3, w3) \<Rightarrow>
                   (case jo_verify_set jo ks3 token of
                      None \<Rightarrow> (Inl (JwksFailure ''jwks: token signature invalid after forced refetch''), w3)
                    | Some payload \<Rightarrow> (parseClaims wild payload, w3))))))"

definition lookupKeyID :: "('ks, 'key, 'w) jose \<Rightarrow> bytes \<Rightarrow> 'w \<Rightarrow> (jwks_error + 'key) \<times> 'w" where
  "lookupKeyID jo kid w =
     (let (c1, w1) = jo_cached jo w in
      case Option.bind c1 (jo_lookup jo kid) of
        Some key \<Rightarrow> (Inr key, w1)
      | None \<Rightarrow>
        (let (c2, w2) = jo_cached jo w1 in
         case Option.bind c2 (jo_lookup jo kid) of
           Some key \<Rightarrow> (Inr key, w2)
         | None \<Rightarrow>
           (let (refreshed, w3) = jo_refresh jo w2 in
            case Option.bind refreshed (jo_lookup jo kid) of
              Some key \<Rightarrow> (Inr key, w3)
            | None \<Rightarrow> (Inl ErrUnknownKid, w3))))"

text \<open>The last signature with a key id names the key.\<close>

definition token_kid :: "(bytes option \<times> bytes option) list \<Rightarrow> bytes" where
  "token_kid sigs = fold (\<lambda>s kid. case snd s of Some k \<Rightarrow> if k \<noteq> [] then k else kid | None \<Rightarrow> kid) sigs []"

definition VerifyPayload :: "('ks, 'key, 'w) jose \<Rightarrow> bytes \<Rightarrow> 'w \<Rightarrow> (jwks_error + bytes) \<times> 'w" where
  "VerifyPayload jo token w =
     (case jo_parse jo token of
        None \<Rightarrow> (Inl (JwksFailure ''jwks: invalid token''), w)
      | Some sigs \<Rightarrow>
        if sigs = [] then (Inl ErrNoSignatures, w)
        else if list_ex (\<lambda>s. fst s \<noteq> Some ''EdDSA'') sigs then (Inl ErrUnexpectedAlg, w)
        else if token_kid sigs = [] then (Inl ErrUnknownKid, w)
        else case lookupKeyID jo (token_kid sigs) w of
          (Inl e, w1) \<Rightarrow> (Inl e, w1)
        | (Inr key, w1) \<Rightarrow>
          (case jo_verify_key jo key token of None \<Rightarrow> (Inl ErrSignatureInvalid, w1) | Some payload \<Rightarrow> (Inr payload, w1)))"

text \<open>
  \<open>verifyAccessToken\<close>: the feed, where the verifier has one, is asked last, with its own HTTP client on the
  same world.
\<close>

record 'w feed_env =
  fe_sha :: "bytes \<Rightarrow> bytes"
  fe_get :: "bytes \<Rightarrow> bytes \<Rightarrow> 'w \<Rightarrow> (int \<times> bytes) option \<times> 'w"
  fe_clock :: "'w \<Rightarrow> time"

definition verifyAccessToken ::
  "('ks, 'key, 'w) jose \<Rightarrow> (rat \<Rightarrow> int) \<Rightarrow> 'w feed_env \<Rightarrow> bytes \<Rightarrow> ValidationOptions \<Rightarrow> PresentedProofs \<Rightarrow>
   Feed option \<Rightarrow> 'w \<Rightarrow> (jwks_error + Claims) \<times> Feed option \<times> 'w" where
  "verifyAccessToken jo wild env token opts proofs feed w =
     (case VerifySignatureOnlyUnchecked jo wild token w of
        (Inl e, w1) \<Rightarrow> (Inl e, feed, w1)
      | (Inr claims, w1) \<Rightarrow>
        (case ValidateClaims claims opts (fe_clock env w1) of
           Some e \<Rightarrow> (Inl e, feed, w1)
         | None \<Rightarrow>
           (case VerifyTokenBinding claims proofs of
              Some e \<Rightarrow> (Inl e, feed, w1)
            | None \<Rightarrow>
              (case feed of
                 None \<Rightarrow> (Inr claims, feed, w1)
               | Some f \<Rightarrow>
                 if cl_SessionID claims = [] then (Inr claims, feed, w1)
                 else let (revoked, f1, w2) = IsRevoked (fe_sha env) (fe_get env) (fe_clock env) (cl_SessionID claims) f w1
                      in (if revoked then Inl ErrSessionRevoked else Inr claims, Some f1, w2)))))"

definition no_proofs :: PresentedProofs where
  "no_proofs = \<lparr>pp_CertificateThumbprint = [], pp_DPoPThumbprint = []\<rparr>"

definition VerifyAccessToken where
  "VerifyAccessToken jo wild env token opts feed w = verifyAccessToken jo wild env token opts no_proofs feed w"

section \<open>Facts of the parts\<close>

lemmas binding_defs = VerifyTokenBinding_def VerifyCertificateBinding_def check_certificate_def check_dpop_def
  NamesNothingCheckable_def

lemma token_binding_ok:
  "VerifyTokenBinding claims proofs = None \<longleftrightarrow>
     (case cl_Confirmation claims of None \<Rightarrow> True
      | Some c \<Rightarrow> \<not> NamesNothingCheckable c \<and> cnf_X5tS256 c \<in> {[], pp_CertificateThumbprint proofs} \<and>
                  cnf_Jkt c \<in> {[], pp_DPoPThumbprint proofs})"
  by (auto simp: binding_defs split: option.split)

lemma valid_claims_ok:
  "ValidateClaims claims opts now = None \<longleftrightarrow>
     vo_Tenant opts \<noteq> [] \<and> cl_TenantID claims = vo_Tenant opts \<and>
     (case cl_Exp claims of None \<Rightarrow> False | Some expiry \<Rightarrow> now < time_unix expiry + ClockSkewLeeway) \<and>
     (case cl_Nbf claims of None \<Rightarrow> True | Some nbf \<Rightarrow> time_unix nbf \<le> now + ClockSkewLeeway) \<and>
     vo_ExpectedIssuer opts \<in> {[], cl_Issuer claims} \<and>
     vo_ExpectedAudience opts \<in> insert [] (set (cl_Audience claims))"
  by (auto simp: ValidateClaims_def split: option.splits)

lemma signature_source:
  assumes "VerifySignatureOnlyUnchecked jo wild token w = (Inr claims, w')"
  obtains ks payload w0 where "fst (jo_cached jo w0) = Some ks \<or> fst (jo_refresh jo w0) = Some ks"
    "jo_verify_set jo ks token = Some payload" "parseClaims wild payload = Inr claims"
  using assms unfolding VerifySignatureOnlyUnchecked_def Let_def
  by (auto simp: bind_eq_Some_conv split: option.splits list.splits if_splits prod.splits) (metis fst_conv)+

lemma signature_alg:
  "VerifySignatureOnlyUnchecked jo wild token w = (Inr claims, w') \<Longrightarrow>
   case jo_parse jo token of None \<Rightarrow> False | Some sigs \<Rightarrow> sigs \<noteq> [] \<and> list_all (\<lambda>s. fst s = Some ''EdDSA'') sigs"
  by (auto simp: VerifySignatureOnlyUnchecked_def list_all_iff list_ex_iff split: option.splits list.splits if_splits)

section \<open>Properties\<close>


text \<open>
  (C40) The certificate-only check of a token's binding is the full check with no DPoP proof at hand, but
  for one case: a token that also names a DPoP key is refused as unverifiable, whatever certificate
  was presented.
\<close>

theorem certificate_check_agrees:
  "VerifyCertificateBinding claims presented =
     (case cl_Confirmation claims of
        None \<Rightarrow> None
      | Some c \<Rightarrow> if cnf_Jkt c \<noteq> [] then Some ErrUnverifiableConfirmation
          else VerifyTokenBinding claims \<lparr>pp_CertificateThumbprint = presented, pp_DPoPThumbprint = []\<rparr>)"
  by (auto simp: binding_defs split: option.split)


text \<open>A cache that holds key \<open>1\<close> until the refetch, which brings key \<open>2\<close>.\<close>

definition rotating_jose :: "(nat list, nat, nat list) jose" where
  "rotating_jose = \<lparr>jo_parse = (\<lambda>t. Some [(Some ''EdDSA'', Some t)]),
     jo_verify_set = (\<lambda>ks t. if ks = [] then None else Some t), jo_verify_key = (\<lambda>k t. Some (t @ show_nat k)),
     jo_lookup = (\<lambda>kid ks. List.find (\<lambda>k. show_nat k = kid) ks),
     jo_cached = (\<lambda>w. (Some w, w)), jo_refresh = (\<lambda>w. (Some [2], [2]))\<rparr>"

lemma small_numerals: "show_nat (Suc 0) = ''1''" "show_nat 2 = ''2''"
  by code_simp+


text \<open>
  (C4) An expiry or not-before claim that is a whole number of seconds below \<open>2 ^ 53\<close> is read exactly, though it
  goes through a \<open>float64\<close>.
\<close>

theorem numeric_date_exact:
  assumes "n < 2 ^ 53"
  shows "numericDate wild (Some (JNum (show_nat n))) = Some (Some (int n))"
  using float_value_nat [OF assms] int64_of_float_nat [OF assms, of wild]
  by (simp add: numericDate_def)

lemma numeric_date_exact_witness:
  "numericDate (\<lambda>_. 0) (Some (JNum (show_nat 1700000000))) = Some (Some 1700000000)"
  using numeric_date_exact [of 1700000000 "\<lambda>_. 0"] by simp

end
