(* ===== verification/Go_Url.thy ===== *)
theory Go_Url
  imports Go_Strings "HOL-Library.Char_ord" "HOL-Library.List_Lexorder"
begin

text \<open>
  The parts of \<open>net/url\<close> the OAuth calls use: query escaping, \<open>url.Values\<close> with its \<open>Set\<close>, \<open>Add\<close>,
  \<open>Encode\<close> and \<open>ParseQuery\<close>, and the parts of a parsed URL. \<open>url.Parse\<close> itself is an argument of the
  definitions that call it.
\<close>

record url =
  u_scheme :: bytes
  u_host :: bytes
  u_path :: bytes
  u_query :: bytes

text \<open>\<open>URL.Hostname\<close> and \<open>URL.Port\<close> of a host: the port after the last colon, when it is one, and no brackets.\<close>

definition cut_last :: "char \<Rightarrow> bytes \<Rightarrow> (bytes \<times> bytes) option" where
  "cut_last c s = map_option (\<lambda>(a, b). (rev b, rev a)) (cut c (rev s))"

definition split_host_port :: "bytes \<Rightarrow> bytes \<times> bytes" where
  "split_host_port host =
     (let (h, p) = (case cut_last CHR '':'' host of
            None \<Rightarrow> (host, []) | Some (a, b) \<Rightarrow> if list_all is_digit b then (a, b) else (host, []))
      in (if h \<noteq> [] \<and> hd h = CHR ''['' \<and> last h = CHR '']'' then butlast (tl h) else h, p))"

definition u_hostname :: "url \<Rightarrow> bytes" where "u_hostname u = fst (split_host_port (u_host u))"
definition u_port :: "url \<Rightarrow> bytes" where "u_port u = snd (split_host_port (u_host u))"

section \<open>Escaping of a query component\<close>

definition unreserved :: "char \<Rightarrow> bool" where
  "unreserved c = (let n = of_char c :: nat in
     48 \<le> n \<and> n \<le> 57 \<or> 65 \<le> n \<and> n \<le> 90 \<or> 97 \<le> n \<and> n \<le> 122 \<or> n = 45 \<or> n = 95 \<or> n = 46 \<or> n = 126)"

definition upper_hex :: "nat \<Rightarrow> char" where
  "upper_hex n = ''0123456789ABCDEF'' ! n"

definition escape_byte :: "char \<Rightarrow> bytes" where
  "escape_byte c = (if unreserved c then [c] else if c = CHR '' '' then ''+''
     else [CHR ''%'', upper_hex (of_char c div 16), upper_hex (of_char c mod 16)])"

definition query_escape :: "bytes \<Rightarrow> bytes" where
  "query_escape s = concat (map escape_byte s)"

fun query_unescape :: "bytes \<Rightarrow> bytes option" where
  "query_unescape [] = Some []"
| "query_unescape (c # r) =
     (if c = CHR ''%'' then
        (case r of x # y # r' \<Rightarrow>
           (case (hex_value x, hex_value y) of
              (Some a, Some b) \<Rightarrow> map_option ((#) (char_of (16 * a + b))) (query_unescape r')
            | _ \<Rightarrow> None)
         | _ \<Rightarrow> None)
      else map_option ((#) (if c = CHR ''+'' then CHR '' '' else c)) (query_unescape r))"

section \<open>\<open>url.Values\<close>\<close>

type_synonym form = "(bytes \<times> bytes list) list"

definition values_get_all :: "bytes \<Rightarrow> form \<Rightarrow> bytes list" where
  "values_get_all k m = (case map_of m k of None \<Rightarrow> [] | Some vs \<Rightarrow> vs)"

definition values_get :: "bytes \<Rightarrow> form \<Rightarrow> bytes" where
  "values_get k m = (case values_get_all k m of [] \<Rightarrow> [] | v # vs \<Rightarrow> v)"

definition values_set :: "bytes \<Rightarrow> bytes \<Rightarrow> form \<Rightarrow> form" where
  "values_set k v m = AList.update k [v] m"

definition values_add :: "bytes \<Rightarrow> bytes \<Rightarrow> form \<Rightarrow> form" where
  "values_add k v m = AList.update k (values_get_all k m @ [v]) m"

definition values_pairs :: "form \<Rightarrow> (bytes \<times> bytes) list" where
  "values_pairs m = concat (map (\<lambda>(k, vs). map (Pair k) vs) (sort_key fst m))"

definition encode_pair :: "bytes \<times> bytes \<Rightarrow> bytes" where
  "encode_pair p = query_escape (fst p) @ ''='' @ query_escape (snd p)"

definition values_encode :: "form \<Rightarrow> bytes" where
  "values_encode m = join ''&'' (map encode_pair (values_pairs m))"

text \<open>One segment of a query: its key and value, or nothing when it is skipped.\<close>

definition query_pair :: "bytes \<Rightarrow> (bytes \<times> bytes) option" where
  "query_pair seg =
     (if CHR '';'' \<in> set seg \<or> seg = [] then None
      else let (k, v) = (case cut CHR ''='' seg of None \<Rightarrow> (seg, []) | Some kv \<Rightarrow> kv) in
        (case (query_unescape k, query_unescape v) of (Some k', Some v') \<Rightarrow> Some (k', v') | _ \<Rightarrow> None))"

definition add_pair :: "bytes \<times> bytes \<Rightarrow> form \<Rightarrow> form" where
  "add_pair p m = values_add (fst p) (snd p) m"

definition parse_query :: "bytes \<Rightarrow> form" where
  "parse_query q = fold add_pair (List.map_filter query_pair (split_on CHR ''&'' q)) []"

section \<open>What an encoded form says\<close>

lemma upper_hex_facts:
  "list_all (\<lambda>n. hex_value (upper_hex n) = Some n \<and> upper_hex n \<notin> {CHR ''&'', CHR ''='', CHR '';''}) [0..<16]"
  by (simp add: hex_value_def upper_hex_def upt_rec numeral_nat)

lemma upper_hex_value: "n < 16 \<Longrightarrow> hex_value (upper_hex n) = Some n"
  and upper_hex_plain: "n < 16 \<Longrightarrow> upper_hex n \<notin> {CHR ''&'', CHR ''='', CHR '';''}"
  using upper_hex_facts by (simp_all add: list_all_iff)

lemma char_halves: "of_char c div 16 < (16 :: nat)" "of_char c mod 16 < (16 :: nat)"
    "char_of (16 * (of_char c div 16) + of_char c mod 16 :: nat) = c"
proof -
  have "of_char c < (256 :: nat)" by (rule nat_of_char_less_256)
  then show "of_char c div 16 < (16 :: nat)" by linarith
  show "of_char c mod 16 < (16 :: nat)" by simp
  have "16 * (of_char c div 16) + of_char c mod 16 = (of_char c :: nat)" by (rule mult_div_mod_eq)
  then show "char_of (16 * (of_char c div 16) + of_char c mod 16 :: nat) = c"
    by (simp del: mult_div_mod_eq)
qed

lemma unescape_byte: "query_unescape (escape_byte c @ r) = map_option ((#) c) (query_unescape r)"
proof -
  have "unreserved c \<Longrightarrow> c \<noteq> CHR ''%'' \<and> c \<noteq> CHR ''+''" by (auto simp: unreserved_def)
  then show ?thesis
    using char_halves [of c] by (auto simp: escape_byte_def upper_hex_value simp del: mult_div_mod_eq)
qed

lemma unescape_escape [simp]: "query_unescape (query_escape s) = Some s"
  by (induction s) (simp_all add: query_escape_def unescape_byte)

lemma escape_byte_plain: "x \<in> set (escape_byte c) \<Longrightarrow> x \<notin> {CHR ''&'', CHR ''='', CHR '';''}"
  using upper_hex_plain [OF char_halves(1) [of c]] upper_hex_plain [OF char_halves(2) [of c]]
  by (auto simp: escape_byte_def unreserved_def split: if_splits)

lemma query_escape_plain: "x \<in> set (query_escape s) \<Longrightarrow> x \<notin> {CHR ''&'', CHR ''='', CHR '';''}"
  using escape_byte_plain by (auto simp: query_escape_def)

lemma query_pair_encode [simp]: "query_pair (encode_pair p) = Some p"
proof -
  have "cut CHR ''='' (query_escape (fst p) @ CHR ''='' # query_escape (snd p)) =
      Some (query_escape (fst p), query_escape (snd p))"
    using query_escape_plain by (simp add: cut_Some_iff) auto
  moreover have "CHR '';'' \<notin> set (encode_pair p)" using query_escape_plain by (auto simp: encode_pair_def)
  ultimately show ?thesis by (simp add: query_pair_def encode_pair_def)
qed

lemma map_filter_encoded: "List.map_filter query_pair (map encode_pair ps) = ps"
  by (induction ps) (simp_all add: map_filter_simps)

lemma parse_encoded: "parse_query (values_encode m) = fold add_pair (values_pairs m) []"
proof (cases "values_pairs m = []")
  case True
  then show ?thesis by (simp add: parse_query_def values_encode_def query_pair_def map_filter_simps)
next
  case False
  have "\<forall>s \<in> set (map encode_pair (values_pairs m)). CHR ''&'' \<notin> set s"
    using query_escape_plain by (auto simp: encode_pair_def)
  then show ?thesis
    using False by (simp add: parse_query_def values_encode_def split_on_join map_filter_encoded)
qed

lemma values_get_all_update [simp]: "values_get_all k (AList.update k' vs m) = (if k = k' then vs else values_get_all k m)"
  by (simp add: values_get_all_def)

lemma fold_add_pair: "values_get_all k (fold add_pair ps m) =
    values_get_all k m @ map snd (filter (\<lambda>p. fst p = k) ps)"
  by (induction ps arbitrary: m) (auto simp: add_pair_def values_add_def)

lemma pairs_of_key: "distinct_keys l \<Longrightarrow>
    map snd (filter (\<lambda>p. fst p = k) (concat (map (\<lambda>(k, vs). map (Pair k) vs) l))) = values_get_all k l"
proof (induction l)
  case (Cons a l)
  have absent: "k \<notin> fst ` set l \<Longrightarrow> values_get_all k l = []"
    by (simp add: values_get_all_def map_of_eq_None_iff [THEN iffD2])
  show ?case
    using Cons by (cases a) (auto simp: values_get_all_def filter_map o_def filter_empty_conv intro: absent [unfolded values_get_all_def])
qed (simp add: values_get_all_def)

lemma distinct_sort_key: "distinct_keys m \<Longrightarrow> distinct_keys (sort_key fst m)"
  by (simp add: distinct_map)

lemma values_get_all_sort: "distinct_keys m \<Longrightarrow> values_get_all k (sort_key fst m) = values_get_all k m"
  using map_of_inject_set [OF distinct_sort_key, of m m] by (simp add: values_get_all_def)

text \<open>A form, encoded and parsed again, holds for every key the values it was given, in order.\<close>

lemma encoded_form_values:
  assumes "distinct_keys m"
  shows "values_get_all k (parse_query (values_encode m)) = values_get_all k m"
  using assms
  by (simp add: parse_encoded fold_add_pair values_pairs_def pairs_of_key distinct_sort_key values_get_all_sort)
     (simp add: values_get_all_def)

end
