(* ===== verification/Oidc_Wire.thy ===== *)
theory Oidc_Wire
  imports Session Jwks Go_Url
begin

text \<open>
  \<open>oidc_wire.go\<close>, \<open>oidc_idtoken.go\<close> and the shapes of \<open>oidc_types.go\<close> they use: what every OAuth and OIDC call
  shares. The world of a call is a record: the session, the discovery document and the verifiers held, and
  the rest, of any type. An operation is a function from the world to its result and the next world
  (\<open>act\<close>), sequenced with \<open>act_bind\<close>, which stops at the first error as the code's \<open>if err != nil\<close> does.
\<close>

section \<open>Operations\<close>

type_synonym ('x, 'a) act = "'x \<Rightarrow> (go_error + 'a) \<times> 'x"

definition act_lift :: "go_error + 'a \<Rightarrow> ('x, 'a) act" where
  "act_lift r x = (r, x)"

definition act_bind :: "('x, 'a) act \<Rightarrow> ('a \<Rightarrow> ('x, 'b) act) \<Rightarrow> ('x, 'b) act" where
  "act_bind m f x = (case m x of (Inl e, x1) \<Rightarrow> (Inl e, x1) | (Inr a, x1) \<Rightarrow> f a x1)"

text \<open>An operation that reads the world.\<close>

definition act_get :: "('x \<Rightarrow> go_error + 'a) \<Rightarrow> ('x, 'a) act" where
  "act_get f x = (f x, x)"

definition act_put :: "('x \<Rightarrow> 'x) \<Rightarrow> ('x, unit) act" where
  "act_put f x = (Inr (), f x)"

lemma act_bind_Inr: "act_bind m f x = (Inr b, x2) \<longleftrightarrow> (\<exists>a x1. m x = (Inr a, x1) \<and> f a x1 = (Inr b, x2))"
  by (auto simp: act_bind_def split: prod.split sum.split)

lemma act_bind_Inl: "act_bind m f x = (Inl e, x2) \<longleftrightarrow>
    m x = (Inl e, x2) \<or> (\<exists>a x1. m x = (Inr a, x1) \<and> f a x1 = (Inl e, x2))"
  by (auto simp: act_bind_def split: prod.split sum.split)

lemma act_unit [simp]: "act_lift r x = (r, x)" "act_get g x = (g x, x)" "act_put h x = (Inr (), h x)"
  by (simp_all add: act_lift_def act_get_def act_put_def)

lemmas act_simps = act_bind_Inr act_bind_Inl

section \<open>Discovery document\<close>

record MtlsEndpointAliases =
  ma_TokenEndpoint :: bytes
  ma_UserinfoEndpoint :: bytes
  ma_RevocationEndpoint :: bytes
  ma_IntrospectionEndpoint :: bytes
  ma_DeviceAuthorizationEndpoint :: bytes
  ma_PushedAuthorizationRequestEndpoint :: bytes
  ma_BackchannelAuthenticationEndpoint :: bytes

record OidcConfiguration =
  oc_Issuer :: bytes
  oc_AuthorizationEndpoint :: bytes
  oc_TokenEndpoint :: bytes
  oc_UserinfoEndpoint :: bytes
  oc_JwksURI :: bytes
  oc_RevocationEndpoint :: bytes
  oc_IntrospectionEndpoint :: bytes
  oc_lists :: "bytes list list"
  oc_DeviceAuthorizationEndpoint :: bytes
  oc_PushedAuthorizationRequestEndpoint :: bytes
  oc_EndSessionEndpoint :: bytes
  oc_BackchannelAuthenticationEndpoint :: bytes
  oc_BackchannelUserCodeParameterSupported :: "bool option"
  oc_BackchannelLogoutSupported :: bool
  oc_BackchannelLogoutSessionSupported :: bool
  oc_MtlsEndpointAliases :: "MtlsEndpointAliases option"

definition alias_names :: "bytes list" where
  "alias_names = [''token_endpoint'', ''userinfo_endpoint'', ''revocation_endpoint'', ''introspection_endpoint'',
     ''device_authorization_endpoint'', ''pushed_authorization_request_endpoint'', ''backchannel_authentication_endpoint'']"

definition decode_aliases :: "(bytes \<times> json) list \<Rightarrow> MtlsEndpointAliases option" where
  "decode_aliases ms =
     (let f = (\<lambda>n. dec_string [] (field_values alias_names n ms)) in
      Option.bind (f ''token_endpoint'') (\<lambda>a. Option.bind (f ''userinfo_endpoint'') (\<lambda>b.
      Option.bind (f ''revocation_endpoint'') (\<lambda>c. Option.bind (f ''introspection_endpoint'') (\<lambda>d.
      Option.bind (f ''device_authorization_endpoint'') (\<lambda>e. Option.bind (f ''pushed_authorization_request_endpoint'') (\<lambda>g.
      Option.bind (f ''backchannel_authentication_endpoint'') (\<lambda>h.
      Some \<lparr>ma_TokenEndpoint = a, ma_UserinfoEndpoint = b, ma_RevocationEndpoint = c, ma_IntrospectionEndpoint = d,
        ma_DeviceAuthorizationEndpoint = e, ma_PushedAuthorizationRequestEndpoint = g,
        ma_BackchannelAuthenticationEndpoint = h\<rparr>))))))))"

text \<open>The fields that hold lists of strings, in the order of the struct; no call reads them.\<close>

definition list_names :: "bytes list" where
  "list_names = [''response_types_supported'', ''subject_types_supported'', ''id_token_signing_alg_values_supported'',
     ''scopes_supported'', ''token_endpoint_auth_methods_supported'', ''claims_supported'', ''grant_types_supported'',
     ''code_challenge_methods_supported'', ''token_endpoint_auth_signing_alg_values_supported'',
     ''revocation_endpoint_auth_methods_supported'', ''introspection_endpoint_auth_methods_supported'',
     ''revocation_endpoint_auth_signing_alg_values_supported'', ''introspection_endpoint_auth_signing_alg_values_supported'',
     ''backchannel_token_delivery_modes_supported'', ''backchannel_authentication_request_signing_alg_values_supported'']"

definition string_names :: "bytes list" where
  "string_names = [''issuer'', ''authorization_endpoint'', ''token_endpoint'', ''userinfo_endpoint'', ''jwks_uri'',
     ''revocation_endpoint'', ''introspection_endpoint'', ''device_authorization_endpoint'',
     ''pushed_authorization_request_endpoint'', ''end_session_endpoint'', ''backchannel_authentication_endpoint'']"

definition configuration_names :: "bytes list" where
  "configuration_names = string_names @ list_names @ [''backchannel_user_code_parameter_supported'',
     ''backchannel_logout_supported'', ''backchannel_logout_session_supported'', ''mtls_endpoint_aliases'']"

fun dec_bool_ptr :: "bool option \<Rightarrow> json list \<Rightarrow> bool option option" where
  "dec_bool_ptr cur [] = Some cur"
| "dec_bool_ptr cur (JNull # vs) = dec_bool_ptr None vs"
| "dec_bool_ptr cur (JBool b # vs) = dec_bool_ptr (Some b) vs"
| "dec_bool_ptr cur (v # vs) = None"

fun all_options :: "'a option list \<Rightarrow> 'a list option" where
  "all_options [] = Some []"
| "all_options (x # xs) = Option.bind x (\<lambda>a. map_option ((#) a) (all_options xs))"

definition decode_configuration :: "bytes \<Rightarrow> OidcConfiguration option" where
  "decode_configuration body =
     Option.bind (stream_members body) (\<lambda>ms.
     let f = (\<lambda>n. field_values configuration_names n ms) in
     Option.bind (all_options (map (\<lambda>n. dec_string [] (f n)) string_names)) (\<lambda>ss.
     Option.bind (all_options (map (\<lambda>n. dec_strings [] (f n)) list_names)) (\<lambda>ls.
     Option.bind (dec_bool_ptr None (f ''backchannel_user_code_parameter_supported'')) (\<lambda>uc.
     Option.bind (dec_bool False (f ''backchannel_logout_supported'')) (\<lambda>bl.
     Option.bind (dec_bool False (f ''backchannel_logout_session_supported'')) (\<lambda>bs.
     Option.bind (dec_struct_ptr None (f ''mtls_endpoint_aliases'')) (\<lambda>am.
     Option.bind (case am of None \<Rightarrow> Some None | Some m \<Rightarrow> map_option Some (decode_aliases m)) (\<lambda>aliases.
     Some \<lparr>oc_Issuer = ss ! 0, oc_AuthorizationEndpoint = ss ! 1, oc_TokenEndpoint = ss ! 2, oc_UserinfoEndpoint = ss ! 3,
       oc_JwksURI = ss ! 4, oc_RevocationEndpoint = ss ! 5, oc_IntrospectionEndpoint = ss ! 6, oc_lists = ls,
       oc_DeviceAuthorizationEndpoint = ss ! 7, oc_PushedAuthorizationRequestEndpoint = ss ! 8, oc_EndSessionEndpoint = ss ! 9,
       oc_BackchannelAuthenticationEndpoint = ss ! 10, oc_BackchannelUserCodeParameterSupported = uc,
       oc_BackchannelLogoutSupported = bl, oc_BackchannelLogoutSessionSupported = bs, oc_MtlsEndpointAliases = aliases\<rparr>))))))))"

section \<open>The world and the environment of a call\<close>

record ('ks, 'key, 'w) oidc_world =
  ow_session :: clientSession
  ow_discovery :: "(OidcConfiguration \<times> time) option"
  ow_verifiers :: "(bytes \<times> ('ks, 'key, 'w) jose) list"
  ow_ext :: 'w

text \<open>
  What a client is configured with, and what it is linked to: the transport, \<open>uuid.Parse\<close>, the time until an
  HTTP date, \<open>url.Parse\<close>, the construction of a key-set verifier (which fetches), the clock, the random
  source, SHA-256.
\<close>

record ('ks, 'key, 'w) oidc_env =
  oe_client :: Client
  oe_clientID :: bytes
  oe_clientSecret :: bytes
  oe_discoveryTTL :: duration
  oe_clockSkewSec :: int
  oe_send :: "'w transport"
  oe_uuid :: "bytes \<Rightarrow> bytes option"
  oe_until :: "bytes \<Rightarrow> duration option"
  oe_parse_url :: "bytes \<Rightarrow> url option"
  oe_new_verifier :: "bytes \<Rightarrow> 'w \<Rightarrow> (bytes + ('ks, 'key, 'w) jose) \<times> 'w"
  oe_clock :: "'w \<Rightarrow> time"
  oe_random :: "nat \<Rightarrow> 'w \<Rightarrow> bytes \<times> 'w"
  oe_sha :: "bytes \<Rightarrow> bytes"

definition oidc_do :: "('ks, 'key, 'w) oidc_env \<Rightarrow> http_request \<Rightarrow> (('ks, 'key, 'w) oidc_world, http_reply) act" where
  "oidc_do env req x =
     (case doRequest (oe_send env) (oe_client env) req (ow_session x) (ow_ext x) of
        (r, s, w) \<Rightarrow> (r, x\<lparr>ow_session := s, ow_ext := w\<rparr>))"

definition oidc_now :: "('ks, 'key, 'w) oidc_env \<Rightarrow> ('ks, 'key, 'w) oidc_world \<Rightarrow> time" where
  "oidc_now env x = oe_clock env (ow_ext x)"

section \<open>Endpoints\<close>

definition resolveOidcTenantID :: "('ks, 'key, 'w) oidc_env \<Rightarrow> bytes \<Rightarrow> ('ks, 'key, 'w) oidc_world \<Rightarrow> go_error + bytes" where
  "resolveOidcTenantID env explicit x =
     (if explicit \<noteq> [] then
        (case oe_uuid env explicit of
           None \<Rightarrow> Inl (AuthError ''tenant_id must be a UUID for the /oauth2 query parameter; a tenant slug cannot be substituted'')
         | Some _ \<Rightarrow> Inr explicit)
      else case resolvedOrgTenantID (oe_uuid env) (ow_session x) of
        Some i \<Rightarrow> Inr i
      | None \<Rightarrow> Inl (AuthError ''this operation requires a tenant_id UUID for the /oauth2 query parameter: pass TenantID explicitly, or call Login() first so it can be resolved from the access token''))"

definition assertUsableMtlsAlias :: "(bytes \<Rightarrow> url option) \<Rightarrow> bytes \<Rightarrow> bytes \<Rightarrow> go_error option" where
  "assertUsableMtlsAlias parse alias replaces =
     (case parse alias of
        None \<Rightarrow> Some (AuthError ''mtls_endpoint_aliases publishes a value which is not an absolute URL'')
      | Some parsed \<Rightarrow>
        if u_scheme parsed = [] \<or> u_host parsed = []
        then Some (AuthError ''mtls_endpoint_aliases publishes a value which is not an absolute URL'')
        else if replaces \<noteq> [] \<and> (case parse replaces of None \<Rightarrow> False | Some r \<Rightarrow> u_scheme r = ''https'') \<and> u_scheme parsed \<noteq> ''https''
        then Some (AuthError ''mtls_endpoint_aliases publishes a downgrade in place of an https endpoint'')
        else None)"

definition mtlsAlias ::
  "('ks, 'key, 'w) oidc_env \<Rightarrow> OidcConfiguration \<Rightarrow> (MtlsEndpointAliases \<Rightarrow> bytes) \<Rightarrow> bytes \<Rightarrow> go_error + bytes" where
  "mtlsAlias env configuration pick replaces =
     (if \<not> cl_presentsClientCertificate (oe_client env) then Inr []
      else case oc_MtlsEndpointAliases configuration of
        None \<Rightarrow> Inr []
      | Some aliases \<Rightarrow>
        (let alias = pick aliases in
         if alias = [] then Inr []
         else case assertUsableMtlsAlias (oe_parse_url env) alias replaces of Some e \<Rightarrow> Inl e | None \<Rightarrow> Inr alias))"

definition preferredEndpoint ::
  "('ks, 'key, 'w) oidc_env \<Rightarrow> OidcConfiguration \<Rightarrow> (MtlsEndpointAliases \<Rightarrow> bytes) \<Rightarrow> bytes \<Rightarrow> go_error + bytes" where
  "preferredEndpoint env configuration pick topLevel =
     rbind (mtlsAlias env configuration pick topLevel) (\<lambda>alias. Inr (if alias \<noteq> [] then alias else topLevel))"

definition oidcEndpointURL :: "('ks, 'key, 'w) oidc_env \<Rightarrow> bytes \<Rightarrow> bytes \<Rightarrow> ('ks, 'key, 'w) oidc_world \<Rightarrow> go_error + url" where
  "oidcEndpointURL env endpoint tenantIDOverride x =
     rbind (resolveOidcTenantID env tenantIDOverride x) (\<lambda>tenantID.
     case oe_parse_url env endpoint of
       None \<Rightarrow> Inl (NetworkError ''invalid endpoint URL from discovery document: '')
     | Some u \<Rightarrow> Inr (u\<lparr>u_query := values_encode (values_set ''tenant_id'' tenantID (parse_query (u_query u)))\<rparr>))"

section \<open>Forms\<close>

definition appendOidcClientSecret :: "('ks, 'key, 'w) oidc_env \<Rightarrow> form \<Rightarrow> form" where
  "appendOidcClientSecret env f =
     (if oe_clientSecret env \<noteq> [] then values_set ''client_secret'' (oe_clientSecret env) f else f)"

definition requireOidcClientSecret :: "('ks, 'key, 'w) oidc_env \<Rightarrow> bytes \<Rightarrow> go_error + bytes" where
  "requireOidcClientSecret env operation =
     (if oe_clientSecret env = []
      then Inl (AuthError (operation @ '' requires confidential-client credentials: construct the Client with WithOidcClientSecret''))
      else Inr (oe_clientSecret env))"

definition newAbsoluteRequest :: "bytes \<Rightarrow> url \<Rightarrow> bytes \<Rightarrow> http_request" where
  "newAbsoluteRequest method u body =
     \<lparr>rq_method = method, rq_url = Some (u_host u, u_path u), rq_query = u_query u, rq_headers = [], rq_body = body\<rparr>"

definition form_request :: "url \<Rightarrow> form \<Rightarrow> http_request" where
  "form_request u f =
     set_header ''Content-Type'' ''application/x-www-form-urlencoded'' (newAbsoluteRequest ''POST'' u (values_encode f))"

text \<open>A form set up by a chain of \<open>Set\<close> calls; those under a guard are skipped when it is false.\<close>

definition form_of :: "(bool \<times> bytes \<times> bytes) list \<Rightarrow> form" where
  "form_of sets = fold (\<lambda>(c, k, v) f. if c then values_set k v f else f) sets []"

section \<open>Error responses\<close>

definition oauth2_error_wire :: "bytes \<Rightarrow> (bytes \<times> bytes) option" where
  "oauth2_error_wire body =
     Option.bind (body_members body) (\<lambda>ms.
     let f = (\<lambda>n. field_values [''error'', ''error_description''] n ms) in
     Option.bind (dec_string [] (f ''error'')) (\<lambda>code.
     Option.bind (dec_string [] (f ''error_description'')) (\<lambda>desc.
     if code \<noteq> [] then Some (code, desc) else None)))"

definition retry_after_of :: "(bytes \<Rightarrow> duration option) \<Rightarrow> http_reply \<Rightarrow> duration" where
  "retry_after_of until resp = parseRetryAfter until (header_get ''Retry-After'' (rs_headers resp))"

definition protocol_error :: "bytes \<Rightarrow> bytes \<Rightarrow> bytes \<Rightarrow> duration \<Rightarrow> go_error" where
  "protocol_error message code desc retryAfter =
     EOAuth \<lparr>op_auth = \<lparr>ae_message = message, ae_reason = [], ae_set_refusal = False\<rparr>, op_error_code = code,
       op_error_description = desc, op_retry_after = retryAfter\<rparr>"

definition reply_response :: "http_reply \<Rightarrow> http_response" where
  "reply_response resp = \<lparr>status_code = rs_status resp, headers = rs_headers resp\<rparr>"

definition mapOAuth2ErrorResponse :: "(bytes \<Rightarrow> duration option) \<Rightarrow> http_reply \<Rightarrow> go_error" where
  "mapOAuth2ErrorResponse until resp =
     (let wire = oauth2_error_wire (take 4096 (rs_body resp)); status = rs_status resp;
          by_status = (case errorFromHTTPStatus status ''oauth2 request failed'' (Some (reply_response resp)) None of
              ENetwork m r cause \<Rightarrow> ENetwork m (if status = 429 \<or> status = 503 then retry_after_of until resp else r) cause
            | err \<Rightarrow> err)
      in case wire of
           None \<Rightarrow> by_status
         | Some (code, desc) \<Rightarrow>
             if status = 429 \<and> code = ''rate_limit_exceeded''
             then protocol_error (code @ '': '' @ desc) code desc (retry_after_of until resp)
             else if status = 400 \<or> status = 401 then protocol_error (code @ '': '' @ desc) code desc 0
             else by_status)"

definition statusIsRetryable :: "int \<Rightarrow> bool" where
  "statusIsRetryable status \<longleftrightarrow> status = 408 \<or> status = 429 \<or> status \<ge> 500"

definition oauth2ErrorAnyStatus :: "(bytes \<Rightarrow> duration option) \<Rightarrow> bytes \<Rightarrow> http_reply \<Rightarrow> go_error" where
  "oauth2ErrorAnyStatus until operation resp =
     (case oauth2_error_wire (take 4096 (rs_body resp)) of
        Some (code, desc) \<Rightarrow>
          protocol_error (if desc \<noteq> [] then code @ '': '' @ desc else code) code desc
            (if rs_status resp = 429 then retry_after_of until resp else 0)
      | None \<Rightarrow>
        (case errorFromHTTPStatus (rs_status resp) (operation @ '' failed with HTTP '' @ show_int (rs_status resp))
                (Some (reply_response resp)) None of
           ENetwork m r cause \<Rightarrow> ENetwork m (retry_after_of until resp) cause
         | err \<Rightarrow> err))"

definition localRefusal :: "bytes \<Rightarrow> bytes \<Rightarrow> bytes \<Rightarrow> go_error" where
  "localRefusal operation field message =
     EValidation \<lparr>ve_operation = operation, ve_status = 400, ve_message = operation @ '': '' @ field @ '': '' @ message,
       ve_fields = [\<lparr>fe_field = field, fe_message = message\<rparr>]\<rparr>"

text \<open>The response of a form post; \<open>decode\<close> is constant where the code passes no destination.\<close>

definition postOAuth2FormMapped ::
  "('ks, 'key, 'w) oidc_env \<Rightarrow> url \<Rightarrow> form \<Rightarrow> (bytes \<Rightarrow> 'a option) \<Rightarrow> (http_reply \<Rightarrow> go_error) \<Rightarrow>
   (('ks, 'key, 'w) oidc_world, 'a) act" where
  "postOAuth2FormMapped env u f decode mapErr =
     act_bind (oidc_do env (form_request u f)) (\<lambda>resp.
     act_lift (if rs_status resp < 200 \<or> rs_status resp \<ge> 300 then Inl (mapErr resp)
               else case decode (rs_body resp) of None \<Rightarrow> Inl deserErr | Some a \<Rightarrow> Inr a))"

definition postOAuth2Form ::
  "('ks, 'key, 'w) oidc_env \<Rightarrow> url \<Rightarrow> form \<Rightarrow> (bytes \<Rightarrow> 'a option) \<Rightarrow> (('ks, 'key, 'w) oidc_world, 'a) act" where
  "postOAuth2Form env u f decode = postOAuth2FormMapped env u f decode (mapOAuth2ErrorResponse (oe_until env))"

end
