(* ===== verification/Oidc_Tokens.thy ===== *)
theory Oidc_Tokens
  imports Oidc_Wire
begin

text \<open>
  ID tokens and token sets: \<open>oidc_idtoken.go\<close>, the token part of \<open>oidc_wire.go\<close>, and the discovery document of
  \<open>oidc.go\<close> as one caller sees it.
\<close>

section \<open>ID-token claims\<close>

definition idTokenAlg :: bytes where "idTokenAlg = ''EdDSA''"
definition MaxIDTokenClockSkewSec :: int where "MaxIDTokenClockSkewSec = 60"

datatype IDTokenFailureReason =
    ReasonInvalidAlg | ReasonUnknownKid | ReasonInvalidSignature | ReasonInvalidIssuer
  | ReasonInvalidAudience | ReasonTokenExpired | ReasonNonceMismatch

fun reason_text :: "IDTokenFailureReason \<Rightarrow> bytes" where
  "reason_text ReasonInvalidAlg = ''invalid_alg''"
| "reason_text ReasonUnknownKid = ''unknown_kid''"
| "reason_text ReasonInvalidSignature = ''invalid_signature''"
| "reason_text ReasonInvalidIssuer = ''invalid_issuer''"
| "reason_text ReasonInvalidAudience = ''invalid_audience''"
| "reason_text ReasonTokenExpired = ''token_expired''"
| "reason_text ReasonNonceMismatch = ''nonce_mismatch''"

definition idTokenAuthError :: "IDTokenFailureReason \<Rightarrow> bytes \<Rightarrow> go_error" where
  "idTokenAuthError reason message =
     EAuth \<lparr>ae_message = ''id_token validation failed ('' @ reason_text reason @ ''): '' @ message,
       ae_reason = reason_text reason, ae_set_refusal = False\<rparr>"

text \<open>The text of a verifier's error, as far as it is fixed.\<close>

fun jwks_text :: "jwks_error \<Rightarrow> bytes" where
  "jwks_text ErrNoSignatures = ''jwks: token has no signatures''"
| "jwks_text ErrUnexpectedAlg = ''jwks: unexpected alg: only EdDSA is accepted''"
| "jwks_text ErrUnknownKid = ''jwks: kid missing or unknown, even after one forced refetch''"
| "jwks_text ErrSignatureInvalid = ''jwks: signature verification failed''"
| "jwks_text (JwksFailure m) = m"
| "jwks_text e = []"

definition mapJWKSVerifyError :: "jwks_error \<Rightarrow> go_error" where
  "mapJWKSVerifyError err =
     (case err of
        ErrUnexpectedAlg \<Rightarrow> idTokenAuthError ReasonInvalidAlg (jwks_text err)
      | ErrNoSignatures \<Rightarrow> idTokenAuthError ReasonInvalidAlg (jwks_text err)
      | ErrUnknownKid \<Rightarrow> idTokenAuthError ReasonUnknownKid (jwks_text err)
      | _ \<Rightarrow> idTokenAuthError ReasonInvalidSignature (jwks_text err))"

record idTokenExpectations =
  ie_issuer :: bytes
  ie_clientID :: bytes
  ie_nonce :: bytes
  ie_hasNonce :: bool
  ie_clockSkewSec :: int

definition resolveClockSkewSec :: "int \<Rightarrow> int" where
  "resolveClockSkewSec sec = (if sec \<le> 0 \<or> sec > MaxIDTokenClockSkewSec then MaxIDTokenClockSkewSec else sec)"

record wireIDTokenClaims =
  wi_Iss :: bytes
  wi_Sub :: bytes
  wi_Aud :: "json option"
  wi_Exp :: "int option"
  wi_Iat :: "int option"
  wi_Nbf :: "int option"
  wi_Nonce :: "bytes option"
  wi_Azp :: bytes

record IDTokenClaims =
  id_Iss :: bytes
  id_Sub :: bytes
  id_Aud :: "bytes list"
  id_Exp :: int
  id_Iat :: int
  id_Nbf :: "int option"
  id_Nonce :: bytes
  id_Azp :: bytes
  id_Extra :: "(bytes \<times> json) list"

definition idTokenKnownClaimKeys :: "bytes list" where
  "idTokenKnownClaimKeys = [''iss'', ''sub'', ''aud'', ''exp'', ''iat'', ''nbf'', ''nonce'', ''azp'']"

definition decode_id_claims :: "bytes \<Rightarrow> wireIDTokenClaims option" where
  "decode_id_claims payload =
     Option.bind (body_members payload) (\<lambda>ms.
     let f = (\<lambda>n. field_values idTokenKnownClaimKeys n ms) in
     Option.bind (dec_string [] (f ''iss'')) (\<lambda>iss.
     Option.bind (dec_string [] (f ''sub'')) (\<lambda>sub.
     Option.bind (dec_int64_ptr None (f ''exp'')) (\<lambda>expiry.
     Option.bind (dec_int64_ptr None (f ''iat'')) (\<lambda>iat.
     Option.bind (dec_int64_ptr None (f ''nbf'')) (\<lambda>nbf.
     Option.bind (dec_string_ptr None (f ''nonce'')) (\<lambda>nonce.
     Option.bind (dec_string [] (f ''azp'')) (\<lambda>azp.
     Some \<lparr>wi_Iss = iss, wi_Sub = sub, wi_Aud = raw_value (f ''aud''), wi_Exp = expiry, wi_Iat = iat, wi_Nbf = nbf,
           wi_Nonce = nonce, wi_Azp = azp\<rparr>))))))))"

text \<open>A \<open>null\<close> decodes into the string variable without an error and leaves it empty.\<close>

definition normalizeAud :: "json option \<Rightarrow> bytes list" where
  "normalizeAud raw =
     (case raw of None \<Rightarrow> []
      | Some v \<Rightarrow>
        (case dec_string [] [v] of
           Some single \<Rightarrow> [single]
         | None \<Rightarrow> (case dec_strings [] [v] of Some many \<Rightarrow> many | None \<Rightarrow> [])))"

definition extractExtraClaims :: "bytes \<Rightarrow> (bytes \<times> json) list" where
  "extractExtraClaims payload =
     (case any_map payload of None \<Rightarrow> [] | Some ms \<Rightarrow> filter (\<lambda>(k, v). k \<notin> set idTokenKnownClaimKeys) ms)"

definition constantTimeEquals :: "bytes \<Rightarrow> bytes \<Rightarrow> bool" where
  "constantTimeEquals a b = (length a = length b \<and> a = b)"

text \<open>The checks on the decoded claims, in order; the times are \<open>int64\<close> seconds and wrap as in Go.\<close>

definition check_id_claims :: "wireIDTokenClaims \<Rightarrow> idTokenExpectations \<Rightarrow> time \<Rightarrow> go_error option" where
  "check_id_claims wire ex now =
     (let aud = normalizeAud (wi_Aud wire); skew = resolveClockSkewSec (ie_clockSkewSec ex); nowSec = unix_seconds now in
      if wi_Iss wire \<noteq> ie_issuer ex
      then Some (idTokenAuthError ReasonInvalidIssuer ''iss does not equal the discovery document issuer'')
      else if ie_clientID ex \<notin> set aud
      then Some (idTokenAuthError ReasonInvalidAudience ''aud does not contain this client_id'')
      else if length aud > 1 \<and> wi_Azp wire \<noteq> ie_clientID ex
      then Some (idTokenAuthError ReasonInvalidAudience ''aud holds multiple audiences and azp is absent or does not equal this client_id'')
      else case wi_Exp wire of
        None \<Rightarrow> Some (idTokenAuthError ReasonTokenExpired ''exp claim is missing'')
      | Some expiry \<Rightarrow>
        if wrap64 (expiry + skew) \<le> nowSec then Some (idTokenAuthError ReasonTokenExpired ''exp is in the past'')
        else case wi_Iat wire of
          None \<Rightarrow> Some (idTokenAuthError ReasonTokenExpired ''iat claim is missing'')
        | Some iat \<Rightarrow>
          if wrap64 (iat - skew) > nowSec then Some (idTokenAuthError ReasonTokenExpired ''iat is in the future'')
          else if (case wi_Nbf wire of None \<Rightarrow> False | Some nbf \<Rightarrow> wrap64 (nbf - skew) > nowSec)
          then Some (idTokenAuthError ReasonTokenExpired ''nbf is in the future'')
          else if ie_hasNonce ex \<and> (case wi_Nonce wire of None \<Rightarrow> True | Some n \<Rightarrow> \<not> constantTimeEquals n (ie_nonce ex))
          then Some (idTokenAuthError ReasonNonceMismatch ''nonce claim is absent or does not match the request nonce'')
          else None)"

definition validateIDToken :: "bytes \<Rightarrow> idTokenExpectations \<Rightarrow> time \<Rightarrow> go_error + IDTokenClaims" where
  "validateIDToken payload ex now =
     (case decode_id_claims payload of
        None \<Rightarrow> Inl (idTokenAuthError ReasonInvalidSignature ''id_token payload is not valid JSON'')
      | Some wire \<Rightarrow>
        (case check_id_claims wire ex now of
           Some e \<Rightarrow> Inl e
         | None \<Rightarrow>
           Inr \<lparr>id_Iss = wi_Iss wire, id_Sub = wi_Sub wire, id_Aud = normalizeAud (wi_Aud wire), id_Exp = the (wi_Exp wire),
             id_Iat = the (wi_Iat wire), id_Nbf = wi_Nbf wire,
             id_Nonce = (case wi_Nonce wire of None \<Rightarrow> [] | Some n \<Rightarrow> n), id_Azp = wi_Azp wire,
             id_Extra = extractExtraClaims payload\<rparr>))"

section \<open>Token sets\<close>

record tokenResponseWire =
  tw_AccessToken :: bytes
  tw_TokenType :: bytes
  tw_ExpiresIn :: int
  tw_Scope :: "bytes option"
  tw_RefreshToken :: "bytes option"
  tw_IDToken :: "bytes option"

definition token_names :: "bytes list" where
  "token_names = [''access_token'', ''token_type'', ''expires_in'', ''scope'', ''refresh_token'', ''id_token'']"

definition decode_token :: "bytes \<Rightarrow> tokenResponseWire option" where
  "decode_token body =
     Option.bind (stream_members body) (\<lambda>ms.
     let f = (\<lambda>n. field_values token_names n ms) in
     Option.bind (dec_string [] (f ''access_token'')) (\<lambda>access.
     Option.bind (dec_string [] (f ''token_type'')) (\<lambda>typ.
     Option.bind (dec_int64 0 (f ''expires_in'')) (\<lambda>expires.
     Option.bind (dec_string_ptr None (f ''scope'')) (\<lambda>scope.
     Option.bind (dec_string_ptr None (f ''refresh_token'')) (\<lambda>refresh.
     Option.bind (dec_string_ptr None (f ''id_token'')) (\<lambda>idt.
     Some \<lparr>tw_AccessToken = access, tw_TokenType = typ, tw_ExpiresIn = expires, tw_Scope = scope,
           tw_RefreshToken = refresh, tw_IDToken = idt\<rparr>)))))))"

record OidcTokenSet =
  ts_AccessToken :: bytes
  ts_TokenType :: bytes
  ts_ExpiresIn :: int
  ts_Scope :: bytes
  ts_RefreshToken :: bytes
  ts_IDToken :: bytes
  ts_IDClaims :: "IDTokenClaims option"

text \<open>One verifier per key-set URL, made on first use and kept.\<close>

definition oidcJWKSVerifier ::
  "('ks, 'key, 'w) oidc_env \<Rightarrow> bytes \<Rightarrow> (('ks, 'key, 'w) oidc_world, ('ks, 'key, 'w) jose) act" where
  "oidcJWKSVerifier env jwksURI x =
     (case map_of (ow_verifiers x) jwksURI of
        Some v \<Rightarrow> (Inr v, x)
      | None \<Rightarrow>
        (case oe_new_verifier env jwksURI (ow_ext x) of
           (Inl e, w) \<Rightarrow> (Inl (EPlain e), x\<lparr>ow_ext := w\<rparr>)
         | (Inr v, w) \<Rightarrow> (Inr v, x\<lparr>ow_verifiers := AList.update jwksURI v (ow_verifiers x), ow_ext := w\<rparr>)))"

definition oidc_payload :: "('ks, 'key, 'w) jose \<Rightarrow> bytes \<Rightarrow> (('ks, 'key, 'w) oidc_world, bytes) act" where
  "oidc_payload v token x =
     (case VerifyPayload v token (ow_ext x) of
        (Inl e, w) \<Rightarrow> (Inl (mapJWKSVerifyError e), x\<lparr>ow_ext := w\<rparr>)
      | (Inr payload, w) \<Rightarrow> (Inr payload, x\<lparr>ow_ext := w\<rparr>))"

definition reach_verifier ::
  "('ks, 'key, 'w) oidc_env \<Rightarrow> bytes \<Rightarrow> (('ks, 'key, 'w) oidc_world, ('ks, 'key, 'w) jose) act" where
  "reach_verifier env jwksURI x =
     (case oidcJWKSVerifier env jwksURI x of
        (Inl e, x1) \<Rightarrow> (Inl (newNetworkError ''failed to reach jwks_uri: '' None (Some e)), x1)
      | r \<Rightarrow> r)"

definition verifyIDToken ::
  "('ks, 'key, 'w) oidc_env \<Rightarrow> bytes \<Rightarrow> bytes \<Rightarrow> idTokenExpectations \<Rightarrow> (('ks, 'key, 'w) oidc_world, IDTokenClaims) act" where
  "verifyIDToken env jwksURI idToken ex =
     act_bind (reach_verifier env jwksURI) (\<lambda>v.
     act_bind (oidc_payload v idToken) (\<lambda>payload.
     act_get (\<lambda>x. validateIDToken payload ex (oidc_now env x))))"

definition token_set_of :: "tokenResponseWire \<Rightarrow> IDTokenClaims option \<Rightarrow> OidcTokenSet" where
  "token_set_of wire idClaims =
     (let str = (\<lambda>p. case p of None \<Rightarrow> [] | Some s \<Rightarrow> s) in
      \<lparr>ts_AccessToken = tw_AccessToken wire, ts_TokenType = tw_TokenType wire, ts_ExpiresIn = tw_ExpiresIn wire,
       ts_Scope = str (tw_Scope wire), ts_RefreshToken = str (tw_RefreshToken wire), ts_IDToken = str (tw_IDToken wire),
       ts_IDClaims = idClaims\<rparr>)"

definition toTokenSet ::
  "('ks, 'key, 'w) oidc_env \<Rightarrow> tokenResponseWire \<Rightarrow> OidcConfiguration \<Rightarrow> idTokenExpectations \<Rightarrow>
   (('ks, 'key, 'w) oidc_world, OidcTokenSet) act" where
  "toTokenSet env wire configuration ex =
     (case tw_IDToken wire of
        Some (c # idt) \<Rightarrow>
          act_bind (verifyIDToken env (oc_JwksURI configuration) (c # idt) ex) (\<lambda>claims.
          act_lift (Inr (token_set_of wire (Some claims))))
      | _ \<Rightarrow> act_lift (Inr (token_set_of wire None)))"

definition expectations :: "('ks, 'key, 'w) oidc_env \<Rightarrow> OidcConfiguration \<Rightarrow> bytes option \<Rightarrow> idTokenExpectations" where
  "expectations env configuration nonce =
     \<lparr>ie_issuer = oc_Issuer configuration, ie_clientID = oe_clientID env,
      ie_nonce = (case nonce of None \<Rightarrow> [] | Some n \<Rightarrow> n), ie_hasNonce = (nonce \<noteq> None),
      ie_clockSkewSec = oe_clockSkewSec env\<rparr>"

definition postToken ::
  "('ks, 'key, 'w) oidc_env \<Rightarrow> OidcConfiguration \<Rightarrow> form \<Rightarrow> bytes \<Rightarrow> (('ks, 'key, 'w) oidc_world, tokenResponseWire) act" where
  "postToken env configuration f tenantIDOverride =
     act_bind (act_lift (preferredEndpoint env configuration ma_TokenEndpoint (oc_TokenEndpoint configuration))) (\<lambda>preferred.
     act_bind (act_get (oidcEndpointURL env preferred tenantIDOverride)) (\<lambda>endpoint.
     postOAuth2Form env endpoint f decode_token))"

section \<open>Discovery, as one caller sees it\<close>

definition fetchOidcDiscovery :: "('ks, 'key, 'w) oidc_env \<Rightarrow> (('ks, 'key, 'w) oidc_world, OidcConfiguration) act" where
  "fetchOidcDiscovery env =
     act_bind (oidc_do env (newRequest (oe_client env) ''GET'' ''/.well-known/openid-configuration'' None)) (\<lambda>resp.
     act_lift (if rs_status resp \<noteq> 200 then Inl (mapErrorResponse (oe_until env) resp)
               else case decode_configuration (rs_body resp) of None \<Rightarrow> Inl deserErr | Some doc \<Rightarrow> Inr doc))"

definition discovery_held :: "('ks, 'key, 'w) oidc_env \<Rightarrow> ('ks, 'key, 'w) oidc_world \<Rightarrow> OidcConfiguration option" where
  "discovery_held env x =
     (case ow_discovery x of None \<Rightarrow> None | Some (doc, expiry) \<Rightarrow> if oidc_now env x < expiry then Some doc else None)"

definition OidcDiscover :: "('ks, 'key, 'w) oidc_env \<Rightarrow> (('ks, 'key, 'w) oidc_world, OidcConfiguration) act" where
  "OidcDiscover env x =
     (case discovery_held env x of
        Some doc \<Rightarrow> (Inr doc, x)
      | None \<Rightarrow>
        (case fetchOidcDiscovery env x of
           (Inl e, x1) \<Rightarrow> (Inl e, x1)
         | (Inr doc, x1) \<Rightarrow> (Inr doc, x1\<lparr>ow_discovery := Some (doc, oidc_now env x1 + oe_discoveryTTL env)\<rparr>)))"

definition resolveOidcConfiguration ::
  "('ks, 'key, 'w) oidc_env \<Rightarrow> OidcConfiguration option \<Rightarrow> (('ks, 'key, 'w) oidc_world, OidcConfiguration) act" where
  "resolveOidcConfiguration env provided =
     (case provided of Some configuration \<Rightarrow> act_lift (Inr configuration) | None \<Rightarrow> OidcDiscover env)"

definition MinOidcDiscoveryTTL :: duration where "MinOidcDiscoveryTTL = 5 * Minute"

definition normalizeDiscoveryTTL :: "duration \<Rightarrow> duration" where
  "normalizeDiscoveryTTL ttl = (if ttl < MinOidcDiscoveryTTL then MinOidcDiscoveryTTL else ttl)"

section \<open>What an accepted ID token has been through\<close>

lemma oidc_payload_Inr:
  "oidc_payload v token x = (Inr payload, x') \<longleftrightarrow>
     (\<exists>w. VerifyPayload v token (ow_ext x) = (Inr payload, w) \<and> x' = x\<lparr>ow_ext := w\<rparr>)"
  by (auto simp: oidc_payload_def split: prod.split sum.split)

lemma reach_verifier_Inr: "reach_verifier env u x = (Inr v, x') \<longleftrightarrow> oidcJWKSVerifier env u x = (Inr v, x')"
  by (auto simp: reach_verifier_def split: prod.split sum.split)

lemma lookup_source:
  "lookupKeyID jo kid w = (Inr key, w') \<Longrightarrow>
     \<exists>ks w0. (fst (jo_cached jo w0) = Some ks \<or> fst (jo_refresh jo w0) = Some ks) \<and> jo_lookup jo kid ks = Some key"
  by (auto simp: lookupKeyID_def Let_def bind_eq_Some_conv split: prod.splits option.splits) (metis fst_conv)+

text \<open>A payload that verified: every signature EdDSA, one key for the token's key id, from a set the server gave.\<close>

definition verified_by :: "('ks, 'key, 'w) jose \<Rightarrow> bytes \<Rightarrow> bytes \<Rightarrow> bool" where
  "verified_by jo token payload \<longleftrightarrow>
     (\<exists>sigs key ks w0. jo_parse jo token = Some sigs \<and> sigs \<noteq> [] \<and> list_all (\<lambda>s. fst s = Some idTokenAlg) sigs \<and>
        token_kid sigs \<noteq> [] \<and> (fst (jo_cached jo w0) = Some ks \<or> fst (jo_refresh jo w0) = Some ks) \<and>
        jo_lookup jo (token_kid sigs) ks = Some key \<and> jo_verify_key jo key token = Some payload)"

lemma VerifyPayload_verified:
  assumes "VerifyPayload jo token w = (Inr payload, w')"
  shows "verified_by jo token payload"
proof -
  obtain sigs key w1 where "jo_parse jo token = Some sigs" "sigs \<noteq> []" "token_kid sigs \<noteq> []"
    and alg: "\<not> list_ex (\<lambda>s. fst s \<noteq> Some ''EdDSA'') sigs"
    and key: "lookupKeyID jo (token_kid sigs) w = (Inr key, w1)" and "jo_verify_key jo key token = Some payload"
    using assms by (auto simp: VerifyPayload_def split: option.splits if_splits prod.splits sum.splits)
  moreover have "list_all (\<lambda>s. fst s = Some idTokenAlg) sigs"
    using alg by (auto simp: idTokenAlg_def list_ex_iff list_all_iff)
  ultimately show ?thesis unfolding verified_by_def using lookup_source [OF key] by blast
qed

lemma id_claims_ok:
  "check_id_claims wire ex now = None \<longleftrightarrow>
     wi_Iss wire = ie_issuer ex \<and> ie_clientID ex \<in> set (normalizeAud (wi_Aud wire)) \<and>
     (if length (normalizeAud (wi_Aud wire)) > 1 then wi_Azp wire = ie_clientID ex else True) \<and>
     (let skew = resolveClockSkewSec (ie_clockSkewSec ex); nowSec = unix_seconds now in
       (case wi_Exp wire of None \<Rightarrow> False | Some expiry \<Rightarrow> nowSec < wrap64 (expiry + skew)) \<and>
       (case wi_Iat wire of None \<Rightarrow> False | Some iat \<Rightarrow> wrap64 (iat - skew) \<le> nowSec) \<and>
       (case wi_Nbf wire of None \<Rightarrow> True | Some nbf \<Rightarrow> wrap64 (nbf - skew) \<le> nowSec)) \<and>
     (if ie_hasNonce ex then wi_Nonce wire = Some (ie_nonce ex) else True)"
  by (auto simp: check_id_claims_def constantTimeEquals_def Let_def split: option.splits)

lemma skew_bounds: "0 < resolveClockSkewSec s" "resolveClockSkewSec s \<le> 60"
  by (auto simp: resolveClockSkewSec_def MaxIDTokenClockSkewSec_def)

section \<open>Properties\<close>



end
