(* ===== verification/Oidc_Grants.thy ===== *)
theory Oidc_Grants
  imports Oidc_Tokens
begin

text \<open>
  The OAuth and OIDC operations of \<open>oidc.go\<close>, \<open>oidc_pkce.go\<close>, \<open>oidc_par.go\<close>, \<open>oidc_exchange.go\<close>, \<open>oidc_native.go\<close> and
  \<open>oidc_logout.go\<close>, and the state store of \<open>oidc_state.go\<close>. A URL that an operation builds is returned
  parsed. \<open>OidcDiscover\<close> and \<open>OidcRefresh\<close> are given here for one caller; the theory \<open>Single_Flight\<close> has their
  interleaving.
\<close>

section \<open>PKCE and the authorization request\<close>

definition pkceCSPRNGBytes :: nat where "pkceCSPRNGBytes = 32"

definition randomURLSafeToken :: "('ks, 'key, 'w) oidc_env \<Rightarrow> nat \<Rightarrow> (('ks, 'key, 'w) oidc_world, bytes) act" where
  "randomURLSafeToken env n x =
     (case oe_random env n (ow_ext x) of (buf, w) \<Rightarrow> (Inr (b64url_encode buf), x\<lparr>ow_ext := w\<rparr>))"

definition generateCodeVerifier :: "('ks, 'key, 'w) oidc_env \<Rightarrow> (('ks, 'key, 'w) oidc_world, bytes) act" where
  "generateCodeVerifier env = randomURLSafeToken env pkceCSPRNGBytes"

definition computeCodeChallenge :: "(bytes \<Rightarrow> bytes) \<Rightarrow> bytes \<Rightarrow> bytes" where
  "computeCodeChallenge sha codeVerifier = b64url_encode (sha codeVerifier)"

definition reservedAuthorizeParams :: "bytes list" where
  "reservedAuthorizeParams = [''response_type'', ''client_id'', ''redirect_uri'', ''scope'', ''state'', ''nonce'',
     ''code_challenge'', ''code_challenge_method'']"

definition idpHintParam :: bytes where "idpHintParam = ''axiam_idp_hint''"
definition maxIdpHintBytes :: nat where "maxIdpHintBytes = 256"

definition validateIdpHint :: "bytes \<Rightarrow> bytes option \<Rightarrow> go_error option" where
  "validateIdpHint operation hint =
     (case hint of None \<Rightarrow> None
      | Some h \<Rightarrow>
        if h = [] then Some (localRefusal operation ''IdpHint'' ''must not be empty; leave it nil to send no hint'')
        else if length h > maxIdpHintBytes
        then Some (localRefusal operation ''IdpHint'' (''is '' @ show_nat (length h) @ '' bytes; the limit is '' @ show_nat maxIdpHintBytes))
        else None)"

text \<open>The scopes of a request: \<open>openid\<close> first, then each other once, in order.\<close>

fun add_scopes :: "bytes list \<Rightarrow> bytes list \<Rightarrow> bytes list" where
  "add_scopes ordered [] = ordered"
| "add_scopes ordered (f # fs) =
     (if f = [] \<or> f \<in> set ordered then add_scopes ordered fs else add_scopes (ordered @ [f]) fs)"

definition normalizeScope :: "bytes \<Rightarrow> bytes" where
  "normalizeScope scope = join '' '' (add_scopes [''openid''] (Go_Strings.fields scope))"

definition encodeQueryRFC3986 :: "form \<Rightarrow> bytes" where
  "encodeQueryRFC3986 v = concat (map (\<lambda>c. if c = CHR ''+'' then ''%20'' else [c]) (values_encode v))"

record AuthorizationRequest =
  ar_URL :: url
  ar_State :: bytes
  ar_Nonce :: bytes
  ar_CodeVerifier :: bytes

record OidcBeginParams =
  ob_RedirectURI :: bytes
  ob_Scope :: bytes
  ob_ExtraParams :: "(bytes \<times> bytes) list"
  ob_IdpHint :: "bytes option"

definition begin_query :: "('ks, 'key, 'w) oidc_env \<Rightarrow> OidcBeginParams \<Rightarrow> bytes \<Rightarrow> bytes \<Rightarrow> bytes \<Rightarrow> form \<Rightarrow> form" where
  "begin_query env params state nonce challenge query =
     (let extras = filter (\<lambda>(k, v). \<not> (k = idpHintParam \<and> ob_IdpHint params \<noteq> None)) (ob_ExtraParams params) in
      fold (\<lambda>(k, v). values_set k v)
        (extras @ [(''response_type'', ''code''), (''client_id'', oe_clientID env), (''redirect_uri'', ob_RedirectURI params),
           (''scope'', normalizeScope (ob_Scope params)), (''state'', state), (''nonce'', nonce),
           (''code_challenge'', challenge), (''code_challenge_method'', ''S256'')]
         @ (case ob_IdpHint params of None \<Rightarrow> [] | Some h \<Rightarrow> [(idpHintParam, h)])) query)"

definition OidcBegin ::
  "('ks, 'key, 'w) oidc_env \<Rightarrow> OidcConfiguration \<Rightarrow> OidcBeginParams \<Rightarrow> (('ks, 'key, 'w) oidc_world, AuthorizationRequest) act" where
  "OidcBegin env configuration params =
     act_bind (act_lift (case validateIdpHint ''OidcBegin'' (ob_IdpHint params) of Some e \<Rightarrow> Inl e | None \<Rightarrow> Inr ())) (\<lambda>_.
     act_bind (randomURLSafeToken env pkceCSPRNGBytes) (\<lambda>state.
     act_bind (randomURLSafeToken env pkceCSPRNGBytes) (\<lambda>nonce.
     act_bind (generateCodeVerifier env) (\<lambda>codeVerifier.
     act_lift (case oe_parse_url env (oc_AuthorizationEndpoint configuration) of
         None \<Rightarrow> Inl (NetworkError ''invalid authorization_endpoint in discovery document: '')
       | Some target \<Rightarrow>
         if list_ex (\<lambda>(k, v). k \<in> set reservedAuthorizeParams) (ob_ExtraParams params)
         then Inl (EPlain ''OidcBegin: ExtraParams may not override the SDK-owned authorization parameter'')
         else Inr \<lparr>ar_URL = target\<lparr>u_query := encodeQueryRFC3986 (begin_query env params state nonce
                      (computeCodeChallenge (oe_sha env) codeVerifier) (parse_query (u_query target)))\<rparr>,
                   ar_State = state, ar_Nonce = nonce, ar_CodeVerifier = codeVerifier\<rparr>)))))"

section \<open>Token grants\<close>

record OidcExchangeParams =
  ox_Code :: bytes
  ox_CodeVerifier :: bytes
  ox_RedirectURI :: bytes
  ox_Nonce :: bytes
  ox_TenantID :: bytes
  ox_Configuration :: "OidcConfiguration option"

definition OidcExchange ::
  "('ks, 'key, 'w) oidc_env \<Rightarrow> OidcExchangeParams \<Rightarrow> (('ks, 'key, 'w) oidc_world, OidcTokenSet) act" where
  "OidcExchange env params =
     act_bind (resolveOidcConfiguration env (ox_Configuration params)) (\<lambda>configuration.
     act_bind (postToken env configuration
         (appendOidcClientSecret env (form_of [(True, ''grant_type'', ''authorization_code''), (True, ''code'', ox_Code params),
            (True, ''code_verifier'', ox_CodeVerifier params), (True, ''redirect_uri'', ox_RedirectURI params),
            (True, ''client_id'', oe_clientID env)]))
         (ox_TenantID params)) (\<lambda>wire.
     toTokenSet env wire configuration (expectations env configuration (Some (ox_Nonce params)))))"

record OidcRefreshParams =
  or_RefreshToken :: bytes
  or_Scope :: bytes
  or_TenantID :: bytes
  or_Configuration :: "OidcConfiguration option"

definition doOidcRefresh ::
  "('ks, 'key, 'w) oidc_env \<Rightarrow> OidcRefreshParams \<Rightarrow> (('ks, 'key, 'w) oidc_world, OidcTokenSet) act" where
  "doOidcRefresh env params =
     act_bind (resolveOidcConfiguration env (or_Configuration params)) (\<lambda>configuration.
     act_bind (postToken env configuration
         (let f = appendOidcClientSecret env (form_of [(True, ''grant_type'', ''refresh_token''),
                (True, ''refresh_token'', or_RefreshToken params), (True, ''client_id'', oe_clientID env)])
          in if or_Scope params \<noteq> [] then values_set ''scope'' (or_Scope params) f else f)
         (or_TenantID params)) (\<lambda>wire.
     toTokenSet env wire configuration (expectations env configuration None)))"

text \<open>The tail that four grants share: adopt the token when told to.\<close>

definition adopt_token :: "bool \<Rightarrow> OidcTokenSet \<Rightarrow> (('ks, 'key, 'w) oidc_world, OidcTokenSet) act" where
  "adopt_token adopt tokens x =
     (Inr tokens, if adopt then x\<lparr>ow_session := adopt_credential (ts_AccessToken tokens) (ow_session x)\<rparr> else x)"

record LoginClientCredentialsParams =
  lc_Scope :: bytes
  lc_TenantID :: bytes
  lc_Configuration :: "OidcConfiguration option"
  lc_AdoptAsCredential :: bool

definition LoginClientCredentials ::
  "('ks, 'key, 'w) oidc_env \<Rightarrow> LoginClientCredentialsParams \<Rightarrow> (('ks, 'key, 'w) oidc_world, OidcTokenSet) act" where
  "LoginClientCredentials env params =
     act_bind (resolveOidcConfiguration env (lc_Configuration params)) (\<lambda>configuration.
     act_bind (act_lift (requireOidcClientSecret env ''LoginClientCredentials'')) (\<lambda>secret.
     act_bind (postToken env configuration
         (form_of [(True, ''grant_type'', ''client_credentials''), (True, ''client_id'', oe_clientID env),
            (True, ''client_secret'', secret), (lc_Scope params \<noteq> [], ''scope'', lc_Scope params)])
         (lc_TenantID params)) (\<lambda>wire.
     act_bind (toTokenSet env wire configuration (expectations env configuration None)) (\<lambda>tokenSet.
     adopt_token (lc_AdoptAsCredential params) tokenSet))))"

record IntrospectParams =
  ip_Token :: bytes
  ip_TokenTypeHint :: bytes
  ip_TenantID :: bytes
  ip_Configuration :: "OidcConfiguration option"

record IntrospectionResult =
  ir_Active :: bool
  ir_Sub :: bytes
  ir_ClientID :: bytes
  ir_Scope :: bytes
  ir_TokenType :: bytes
  ir_Exp :: int
  ir_Iat :: int

text \<open>The response as decoded and flattened: an absent member is the zero value, as is a null one.\<close>

definition decode_introspection :: "bytes \<Rightarrow> IntrospectionResult option" where
  "decode_introspection body =
     Option.bind (stream_members body) (\<lambda>ms.
     let f = (\<lambda>n. field_values [''active'', ''sub'', ''client_id'', ''scope'', ''token_type'', ''exp'', ''iat''] n ms);
         str = (\<lambda>n. map_option (\<lambda>p. case p of None \<Rightarrow> [] | Some s \<Rightarrow> s) (dec_string_ptr None (f n)));
         num = (\<lambda>n. map_option (\<lambda>p. case p of None \<Rightarrow> 0 | Some i \<Rightarrow> i) (dec_int64_ptr None (f n))) in
     Option.bind (dec_bool False (f ''active'')) (\<lambda>active.
     Option.bind (str ''sub'') (\<lambda>sub. Option.bind (str ''client_id'') (\<lambda>client.
     Option.bind (str ''scope'') (\<lambda>scope. Option.bind (str ''token_type'') (\<lambda>typ.
     Option.bind (num ''exp'') (\<lambda>expiry. Option.bind (num ''iat'') (\<lambda>iat.
     Some \<lparr>ir_Active = active, ir_Sub = sub, ir_ClientID = client, ir_Scope = scope, ir_TokenType = typ,
           ir_Exp = expiry, ir_Iat = iat\<rparr>))))))))"

definition token_form :: "('ks, 'key, 'w) oidc_env \<Rightarrow> bytes \<Rightarrow> IntrospectParams \<Rightarrow> form" where
  "token_form env secret params =
     form_of [(True, ''token'', ip_Token params), (True, ''client_id'', oe_clientID env), (True, ''client_secret'', secret),
       (ip_TokenTypeHint params \<noteq> [], ''token_type_hint'', ip_TokenTypeHint params)]"

definition Introspect ::
  "('ks, 'key, 'w) oidc_env \<Rightarrow> IntrospectParams \<Rightarrow> (('ks, 'key, 'w) oidc_world, IntrospectionResult) act" where
  "Introspect env params =
     act_bind (resolveOidcConfiguration env (ip_Configuration params)) (\<lambda>configuration.
     act_bind (act_lift (requireOidcClientSecret env ''Introspect'')) (\<lambda>secret.
     act_bind (act_lift (preferredEndpoint env configuration ma_IntrospectionEndpoint (oc_IntrospectionEndpoint configuration))) (\<lambda>preferred.
     act_bind (act_get (oidcEndpointURL env preferred (ip_TenantID params))) (\<lambda>endpoint.
     postOAuth2Form env endpoint (token_form env secret params) decode_introspection))))"

text \<open>\<open>RevokeParams\<close> has the fields of \<open>IntrospectParams\<close>; the response body is not read.\<close>

definition Revoke :: "('ks, 'key, 'w) oidc_env \<Rightarrow> IntrospectParams \<Rightarrow> (('ks, 'key, 'w) oidc_world, unit) act" where
  "Revoke env params =
     act_bind (resolveOidcConfiguration env (ip_Configuration params)) (\<lambda>configuration.
     act_bind (act_lift (requireOidcClientSecret env ''Revoke'')) (\<lambda>secret.
     act_bind (act_lift (preferredEndpoint env configuration ma_RevocationEndpoint (oc_RevocationEndpoint configuration))) (\<lambda>preferred.
     act_bind (act_get (oidcEndpointURL env preferred (ip_TenantID params))) (\<lambda>endpoint.
     postOAuth2Form env endpoint (token_form env secret params) (\<lambda>_. Some ())))))"

record TokenExchangeParams =
  te_SubjectToken :: bytes
  te_SubjectTokenType :: bytes
  te_ActorToken :: bytes
  te_Scopes :: "bytes list"
  te_Audience :: bytes
  te_Resource :: bytes
  te_TenantID :: bytes
  te_Configuration :: "OidcConfiguration option"

record ExchangedToken =
  et_AccessToken :: bytes
  et_IssuedTokenType :: bytes
  et_TokenType :: bytes
  et_ExpiresIn :: int
  et_Scope :: bytes

definition decode_exchange :: "bytes \<Rightarrow> ExchangedToken option" where
  "decode_exchange body =
     Option.bind (stream_members body) (\<lambda>ms.
     let f = (\<lambda>n. field_values [''access_token'', ''issued_token_type'', ''token_type'', ''expires_in'', ''scope''] n ms) in
     Option.bind (dec_string [] (f ''access_token'')) (\<lambda>access.
     Option.bind (dec_string [] (f ''issued_token_type'')) (\<lambda>issued.
     Option.bind (dec_string [] (f ''token_type'')) (\<lambda>typ.
     Option.bind (dec_int64 0 (f ''expires_in'')) (\<lambda>expires.
     Option.bind (dec_string [] (f ''scope'')) (\<lambda>scope.
     Some \<lparr>et_AccessToken = access, et_IssuedTokenType = issued, et_TokenType = typ, et_ExpiresIn = expires,
           et_Scope = scope\<rparr>))))))"

definition tokenExchangeGrantType :: bytes where
  "tokenExchangeGrantType = ''urn:ietf:params:oauth:grant-type:token-exchange''"
definition accessTokenType :: bytes where
  "accessTokenType = ''urn:ietf:params:oauth:token-type:access_token''"

definition TokenExchange ::
  "('ks, 'key, 'w) oidc_env \<Rightarrow> TokenExchangeParams \<Rightarrow> (('ks, 'key, 'w) oidc_world, ExchangedToken) act" where
  "TokenExchange env params =
     act_bind (resolveOidcConfiguration env (te_Configuration params)) (\<lambda>configuration.
     act_bind (act_lift (requireOidcClientSecret env ''TokenExchange'')) (\<lambda>secret.
     act_bind (act_lift (if te_SubjectTokenType params = []
         then Inl (AuthError ''TokenExchange requires SubjectTokenType: pass SubjectTokenTypeAccessToken for an AXIAM access token, or SubjectTokenTypeJWT for a trusted external issuer's JWT'')
         else Inr ())) (\<lambda>_.
     act_bind (act_lift (preferredEndpoint env configuration ma_TokenEndpoint (oc_TokenEndpoint configuration))) (\<lambda>preferred.
     act_bind (act_get (oidcEndpointURL env preferred (te_TenantID params))) (\<lambda>endpoint.
     postOAuth2Form env endpoint
       (form_of [(True, ''grant_type'', tokenExchangeGrantType), (True, ''subject_token'', te_SubjectToken params),
          (True, ''subject_token_type'', te_SubjectTokenType params),
          (te_ActorToken params \<noteq> [], ''actor_token'', te_ActorToken params),
          (te_ActorToken params \<noteq> [], ''actor_token_type'', accessTokenType),
          (te_Scopes params \<noteq> [], ''scope'', join '' '' (te_Scopes params)),
          (te_Audience params \<noteq> [], ''audience'', te_Audience params),
          (te_Resource params \<noteq> [], ''resource'', te_Resource params),
          (True, ''client_id'', oe_clientID env), (True, ''client_secret'', secret)]) decode_exchange)))))"

section \<open>Native sign-in\<close>

record ProviderNonce =
  pn_Raw :: bytes
  pn_Hashed :: bytes

definition hashNativeNonce :: "(bytes \<Rightarrow> bytes) \<Rightarrow> bytes \<Rightarrow> bytes" where
  "hashNativeNonce sha raw = hex_encode (sha raw)"

definition NativeNonce :: "('ks, 'key, 'w) oidc_env \<Rightarrow> (('ks, 'key, 'w) oidc_world, ProviderNonce) act" where
  "NativeNonce env = act_bind (randomURLSafeToken env 32) (\<lambda>raw.
     act_lift (Inr \<lparr>pn_Raw = raw, pn_Hashed = hashNativeNonce (oe_sha env) raw\<rparr>))"

record LoginWithProviderIdTokenParams =
  np_Provider :: bytes
  np_IDToken :: bytes
  np_Nonce :: bytes
  np_Scopes :: "bytes list"
  np_Resource :: bytes
  np_TenantID :: bytes
  np_Configuration :: "OidcConfiguration option"
  np_AdoptAsCredential :: bool

definition mapNativeSignInError :: "(bytes \<Rightarrow> duration option) \<Rightarrow> http_reply \<Rightarrow> go_error" where
  "mapNativeSignInError until resp =
     (if rs_status resp < 500 then mapOAuth2ErrorResponse until resp
      else let body = take 4096 (rs_body resp) in
        case oauth2_error_wire body of
          Some (code, desc) \<Rightarrow> protocol_error (code @ '': '' @ desc) code desc 0
        | None \<Rightarrow> mapOAuth2ErrorResponse until (resp\<lparr>rs_body := body\<rparr>))"

definition native_refusal :: "('ks, 'key, 'w) oidc_env \<Rightarrow> LoginWithProviderIdTokenParams \<Rightarrow> go_error option" where
  "native_refusal env params =
     (if oe_clientID env = []
      then Some (AuthError ''LoginWithProviderIdToken requires a client_id: construct the Client with WithOidcClientID'')
      else if np_Provider params = [] then Some (localRefusal ''LoginWithProviderIdToken'' ''Provider'' ''is required'')
      else if np_IDToken params = [] then Some (localRefusal ''LoginWithProviderIdToken'' ''IDToken'' ''is required'')
      else if np_Nonce params = [] then Some (localRefusal ''LoginWithProviderIdToken'' ''Nonce'' ''is required'')
      else None)"

definition LoginWithProviderIdToken ::
  "('ks, 'key, 'w) oidc_env \<Rightarrow> LoginWithProviderIdTokenParams \<Rightarrow> (('ks, 'key, 'w) oidc_world, OidcTokenSet) act" where
  "LoginWithProviderIdToken env params =
     act_bind (act_lift (case native_refusal env params of Some e \<Rightarrow> Inl e | None \<Rightarrow> Inr ())) (\<lambda>_.
     act_bind (act_get (resolveOidcTenantID env (np_TenantID params))) (\<lambda>_.
     act_bind (resolveOidcConfiguration env (np_Configuration params)) (\<lambda>configuration.
     act_bind (act_lift (preferredEndpoint env configuration ma_TokenEndpoint (oc_TokenEndpoint configuration))) (\<lambda>preferred.
     act_bind (act_get (oidcEndpointURL env preferred (np_TenantID params))) (\<lambda>endpoint.
     act_bind (postOAuth2FormMapped env endpoint
         (appendOidcClientSecret env (form_of [(True, ''grant_type'', ''urn:axiam:params:oauth:grant-type:provider-id-token''),
            (True, ''client_id'', oe_clientID env), (True, ''provider'', np_Provider params),
            (True, ''id_token'', np_IDToken params), (True, ''nonce'', np_Nonce params),
            (np_Scopes params \<noteq> [], ''scope'', join '' '' (np_Scopes params)),
            (np_Resource params \<noteq> [], ''resource'', np_Resource params)]))
         decode_token (mapNativeSignInError (oe_until env))) (\<lambda>wire.
     act_bind (toTokenSet env wire configuration (expectations env configuration (Some (np_Nonce params)))) (\<lambda>tokenSet.
     adopt_token (np_AdoptAsCredential params) tokenSet)))))))"

end
