(* ===== verification/Oidc_Flows.thy ===== *)
theory Oidc_Flows
  imports Oidc_Grants
begin

text \<open>
  The browser side of a sign-in: the pushed authorization request of \<open>oidc_par.go\<close>, the federation sign-in of
  \<open>oidc.go\<close>, logout of \<open>oidc_logout.go\<close>, and the store of \<open>oidc_state.go\<close> that keeps a login's state, nonce and
  verifier until the callback.
\<close>

section \<open>Pushed authorization request\<close>

record PushedAuthorizationRequest =
  pa_AuthorizationURL :: url
  pa_RequestURI :: bytes
  pa_ExpiresIn :: int
  pa_State :: bytes
  pa_Nonce :: bytes
  pa_CodeVerifier :: bytes

record OidcParParams =
  op_Request :: AuthorizationRequest
  op_RedirectURI :: bytes
  op_Scope :: bytes
  op_TenantID :: bytes
  op_DPoPJKT :: bytes
  op_IdpHint :: "bytes option"
  op_Configuration :: "OidcConfiguration option"

definition decode_pushed :: "bytes \<Rightarrow> (bytes \<times> int) option" where
  "decode_pushed body =
     Option.bind (stream_members body) (\<lambda>ms.
     let f = (\<lambda>n. field_values [''request_uri'', ''expires_in''] n ms) in
     Option.bind (dec_string [] (f ''request_uri'')) (\<lambda>uri.
     Option.bind (dec_int64 0 (f ''expires_in'')) (\<lambda>expires. Some (uri, expires))))"

definition beginURLIdpHint :: "url \<Rightarrow> bytes" where
  "beginURLIdpHint u = values_get idpHintParam (parse_query (u_query u))"

definition par_form :: "('ks, 'key, 'w) oidc_env \<Rightarrow> OidcParParams \<Rightarrow> form" where
  "par_form env params =
     (let req = op_Request params; begun = beginURLIdpHint (ar_URL req) in
      appendOidcClientSecret env (form_of [(True, ''client_id'', oe_clientID env), (True, ''response_type'', ''code''),
        (True, ''redirect_uri'', op_RedirectURI params), (True, ''scope'', normalizeScope (op_Scope params)),
        (True, ''state'', ar_State req), (True, ''nonce'', ar_Nonce req),
        (True, ''code_challenge'', computeCodeChallenge (oe_sha env) (ar_CodeVerifier req)),
        (True, ''code_challenge_method'', ''S256''), (op_DPoPJKT params \<noteq> [], ''dpop_jkt'', op_DPoPJKT params),
        (case op_IdpHint params of Some h \<Rightarrow> (True, idpHintParam, h) | None \<Rightarrow> (begun \<noteq> [], idpHintParam, begun))]))"

definition OidcPar ::
  "('ks, 'key, 'w) oidc_env \<Rightarrow> OidcParParams \<Rightarrow> (('ks, 'key, 'w) oidc_world, PushedAuthorizationRequest) act" where
  "OidcPar env params =
     act_bind (act_get (\<lambda>x. case ensureOpen (ow_session x) of Some e \<Rightarrow> Inl e | None \<Rightarrow> Inr ())) (\<lambda>_.
     act_bind (act_lift (case validateIdpHint ''OidcPar'' (op_IdpHint params) of Some e \<Rightarrow> Inl e | None \<Rightarrow> Inr ())) (\<lambda>_.
     act_bind (resolveOidcConfiguration env (op_Configuration params)) (\<lambda>configuration.
     act_bind (act_lift (preferredEndpoint env configuration ma_PushedAuthorizationRequestEndpoint
         (oc_PushedAuthorizationRequestEndpoint configuration))) (\<lambda>parEndpoint.
     act_bind (act_lift (if parEndpoint = []
         then Inl (AuthError ''the authorization server's discovery document advertises no pushed_authorization_request_endpoint: this server does not support RFC 9126'')
         else Inr ())) (\<lambda>_.
     act_bind (act_get (oidcEndpointURL env parEndpoint (op_TenantID params))) (\<lambda>endpoint.
     act_bind (postOAuth2Form env endpoint (par_form env params) decode_pushed) (\<lambda>(uri, expires).
     act_lift (case oe_parse_url env (oc_AuthorizationEndpoint configuration) of
         None \<Rightarrow> Inl (NetworkError ''invalid authorization_endpoint in discovery document: '')
       | Some target \<Rightarrow>
           Inr \<lparr>pa_AuthorizationURL = target\<lparr>u_query := encodeQueryRFC3986
                  (form_of [(True, ''client_id'', oe_clientID env), (True, ''request_uri'', uri)])\<rparr>,
                pa_RequestURI = uri, pa_ExpiresIn = expires, pa_State = ar_State (op_Request params),
                pa_Nonce = ar_Nonce (op_Request params), pa_CodeVerifier = ar_CodeVerifier (op_Request params)\<rparr>))))))))"

section \<open>Federation sign-in\<close>

record SsoStartParams =
  st_FederationConfigID :: bytes
  st_RedirectURI :: bytes
  st_TenantID :: bytes
  st_TenantSlug :: bytes
  st_OrgID :: bytes
  st_OrgSlug :: bytes

record SsoStartResult =
  sr_AuthorizeURL :: bytes
  sr_State :: bytes
  sr_ExpiresInSecs :: int

text \<open>The tenant and the organization a federation call is for: as given, else the client's own.\<close>

definition sso_tenant :: "Client \<Rightarrow> bytes \<Rightarrow> bytes \<Rightarrow> bytes \<times> bytes" where
  "sso_tenant c tenantID tenantSlug =
     (if tenantID = [] \<and> tenantSlug = [] then (tenantID, cl_tenantSlug c) else (tenantID, tenantSlug))"

definition sso_org :: "Client \<Rightarrow> clientSession \<Rightarrow> bytes \<Rightarrow> bytes \<Rightarrow> bytes \<times> bytes" where
  "sso_org c s orgID orgSlug =
     (if orgID \<noteq> [] \<or> orgSlug \<noteq> [] then (orgID, orgSlug)
      else case cl_org c of
        OrgID i \<Rightarrow> (i, orgSlug)
      | OrgSlug sl \<Rightarrow> if sl \<noteq> [] then (orgID, sl) else (case resolvedOrgID c s of Some i \<Rightarrow> (i, orgSlug) | None \<Rightarrow> (orgID, orgSlug))
      | NoOrg \<Rightarrow> (case resolvedOrgID c s of Some i \<Rightarrow> (i, orgSlug) | None \<Rightarrow> (orgID, orgSlug)))"

text \<open>\<open>json.Marshal\<close> of a \<open>map[string]string\<close>: the keys in order.\<close>

definition string_map_body :: "(bytes \<times> bytes) list \<Rightarrow> bytes" where
  "string_map_body m = obj_body (map (\<lambda>(k, v). (escape_from True k, json_string True v)) (sort_key fst m))"

definition decode_sso_start :: "bytes \<Rightarrow> SsoStartResult option" where
  "decode_sso_start body =
     Option.bind (stream_members body) (\<lambda>ms.
     let f = (\<lambda>n. field_values [''authorize_url'', ''state'', ''expires_in_secs''] n ms) in
     Option.bind (dec_string [] (f ''authorize_url'')) (\<lambda>uri.
     Option.bind (dec_string [] (f ''state'')) (\<lambda>state.
     Option.bind (dec_int64 0 (f ''expires_in_secs'')) (\<lambda>expires.
     Some \<lparr>sr_AuthorizeURL = uri, sr_State = state, sr_ExpiresInSecs = expires\<rparr>))))"

definition sso_start ::
  "('ks, 'key, 'w) oidc_env \<Rightarrow> bytes \<Rightarrow> bytes \<Rightarrow> SsoStartParams \<Rightarrow> (('ks, 'key, 'w) oidc_world, SsoStartResult) act" where
  "sso_start env operation path params x =
     (let c = oe_client env;
          (tenantID, tenantSlug) = sso_tenant c (st_TenantID params) (st_TenantSlug params);
          (orgID, orgSlug) = sso_org c (ow_session x) (st_OrgID params) (st_OrgSlug params)
      in if tenantID = [] \<and> tenantSlug = []
         then (Inl (AuthError (operation @ '' requires tenant context: pass TenantID or TenantSlug, or construct the Client with one'')), x)
         else if orgID = [] \<and> orgSlug = []
         then (Inl (AuthError (operation @ '' requires organization context: pass OrgID or OrgSlug, or construct the Client with WithOrgID/WithOrgSlug'')), x)
         else act_bind (oidc_do env (newRequest c ''POST'' path (Some (string_map_body
                [(''federation_config_id'', st_FederationConfigID params), (''redirect_uri'', st_RedirectURI params),
                 (if tenantID \<noteq> [] then (''tenant_id'', tenantID) else (''tenant_slug'', tenantSlug)),
                 (if orgID \<noteq> [] then (''org_id'', orgID) else (''org_slug'', orgSlug))])))) (\<lambda>resp.
              act_lift (if rs_status resp \<noteq> 200 then Inl (mapErrorResponse (oe_until env) resp)
                        else case decode_sso_start (rs_body resp) of None \<Rightarrow> Inl deserErr | Some r \<Rightarrow> Inr r)) x)"

definition SsoStart where
  "SsoStart env params = sso_start env ''SsoStart'' ''/api/v1/auth/federation/oidc/start'' params"

definition SsoStartOauth2 where
  "SsoStartOauth2 env params = sso_start env ''SsoStartOauth2'' ''/api/v1/auth/federation/oauth2/start'' params"

definition sso_complete ::
  "('ks, 'key, 'w) oidc_env \<Rightarrow> bytes \<Rightarrow> (bytes \<times> bytes) list \<Rightarrow> (('ks, 'key, 'w) oidc_world, SsoCompleteResult) act" where
  "sso_complete env path body x =
     (case completeFederationSession (oe_send env) (oe_uuid env) (oe_until env) (oe_client env) path body (ow_session x) (ow_ext x) of
        (r, s, w) \<Rightarrow> (r, x\<lparr>ow_session := s, ow_ext := w\<rparr>))"

definition SsoCompleteOauth2 where
  "SsoCompleteOauth2 env state code =
     sso_complete env ''/api/v1/auth/federation/oauth2/callback'' [(''state'', state), (''code'', code)]"

definition SsoCompleteHandoff where
  "SsoCompleteHandoff env code = sso_complete env ''/api/v1/auth/federation/handoff'' [(''code'', code)]"

record FederationProvider =
  fp_ID :: bytes
  fp_ProviderKind :: bytes
  fp_DisplayName :: bytes
  fp_Protocol :: bytes
  fp_HasBundledMark :: bool
  fp_Inherited :: bool
  fp_ButtonIcon :: bytes

definition decode_provider :: "json \<Rightarrow> FederationProvider option" where
  "decode_provider v =
     Option.bind (struct_members v) (\<lambda>ms.
     let f = (\<lambda>n. field_values [''id'', ''provider_kind'', ''display_name'', ''protocol'', ''has_bundled_mark'', ''inherited'', ''button_icon''] n ms) in
     Option.bind (dec_string [] (f ''id'')) (\<lambda>i. Option.bind (dec_string [] (f ''provider_kind'')) (\<lambda>kind.
     Option.bind (dec_string [] (f ''display_name'')) (\<lambda>name. Option.bind (dec_string [] (f ''protocol'')) (\<lambda>protocol.
     Option.bind (dec_bool False (f ''has_bundled_mark'')) (\<lambda>mark. Option.bind (dec_bool False (f ''inherited'')) (\<lambda>inh.
     Option.bind (dec_string_ptr None (f ''button_icon'')) (\<lambda>icon.
     Some \<lparr>fp_ID = i, fp_ProviderKind = kind, fp_DisplayName = name, fp_Protocol = protocol, fp_HasBundledMark = mark,
           fp_Inherited = inh, fp_ButtonIcon = (case icon of None \<Rightarrow> [] | Some s \<Rightarrow> s)\<rparr>))))))))"

definition decode_providers :: "bytes \<Rightarrow> FederationProvider list option" where
  "decode_providers body =
     Option.bind (stream_members body) (\<lambda>ms.
     map_option (\<lambda>l. case l of None \<Rightarrow> [] | Some ps \<Rightarrow> ps)
       (dec_slice decode_provider None (field_values [''providers''] ''providers'' ms)))"

definition SsoProviders ::
  "('ks, 'key, 'w) oidc_env \<Rightarrow> bytes \<Rightarrow> bytes \<Rightarrow> bytes \<Rightarrow> bytes \<Rightarrow> (('ks, 'key, 'w) oidc_world, FederationProvider list) act" where
  "SsoProviders env pOrgID pOrgSlug pTenantID pTenantSlug x =
     (let c = oe_client env;
          (tenantID, tenantSlug) = sso_tenant c pTenantID pTenantSlug;
          (orgID, orgSlug) = sso_org c (ow_session x) pOrgID pOrgSlug;
          query = form_of [(orgID \<noteq> [], ''org_id'', orgID), (orgID = [] \<and> orgSlug \<noteq> [], ''org_slug'', orgSlug),
            (tenantID \<noteq> [], ''tenant_id'', tenantID), (tenantID = [] \<and> tenantSlug \<noteq> [], ''tenant_slug'', tenantSlug)];
          req = (newRequest c ''GET'' ''/api/v1/auth/federation/providers'' None)\<lparr>rq_query := values_encode query\<rparr>
      in act_bind (oidc_do env req) (\<lambda>resp.
         act_lift (if rs_status resp \<noteq> 200 then Inl (mapErrorResponse (oe_until env) resp)
                   else case decode_providers (rs_body resp) of None \<Rightarrow> Inl deserErr | Some ps \<Rightarrow> Inr ps)) x)"

section \<open>Logout\<close>

definition LogoutURL ::
  "('ks, 'key, 'w) oidc_env \<Rightarrow> bytes \<Rightarrow> bytes \<Rightarrow> bytes \<Rightarrow> OidcConfiguration option \<Rightarrow> (('ks, 'key, 'w) oidc_world, url) act" where
  "LogoutURL env idToken postLogoutRedirectURI state provided =
     act_bind (resolveOidcConfiguration env provided) (\<lambda>configuration.
     act_lift (if oc_EndSessionEndpoint configuration = []
       then Inl (AuthError ''the authorization server's discovery document advertises no end_session_endpoint: this server does not support RP-initiated logout'')
       else case oe_parse_url env (oc_EndSessionEndpoint configuration) of
         None \<Rightarrow> Inl (NetworkError ''invalid end_session_endpoint from discovery document: '')
       | Some u \<Rightarrow>
           Inr (u\<lparr>u_query := values_encode (fold (\<lambda>(c, k, v) f. if c then values_set k v f else f)
             [(True, ''id_token_hint'', idToken), (postLogoutRedirectURI \<noteq> [], ''post_logout_redirect_uri'', postLogoutRedirectURI),
              (state \<noteq> [], ''state'', state)] (parse_query (u_query u)))\<rparr>)))"

definition backchannelLogoutEvent :: bytes where
  "backchannelLogoutEvent = ''http://schemas.openid.net/event/backchannel-logout''"

definition maxLogoutTokenAge :: duration where "maxLogoutTokenAge = 5 * Minute"

record logoutTokenClaims =
  lt_Iss :: bytes
  lt_Aud :: bytes
  lt_Iat :: int
  lt_Exp :: int
  lt_JTI :: bytes
  lt_SID :: bytes
  lt_Sub :: bytes
  lt_Events :: "(bytes \<times> json) list option"
  lt_Nonce :: "bytes option"

text \<open>A map field: \<open>null\<close> drops it, each object adds to it.\<close>

fun dec_map :: "(bytes \<times> json) list option \<Rightarrow> json list \<Rightarrow> (bytes \<times> json) list option option" where
  "dec_map cur [] = Some cur"
| "dec_map cur (JNull # vs) = dec_map None vs"
| "dec_map cur (JObj ms # vs) =
     dec_map (Some ((case cur of None \<Rightarrow> [] | Some m \<Rightarrow> m) @ map (\<lambda>(k, v). (unquote k, v)) ms)) vs"
| "dec_map cur (v # vs) = None"

definition decode_logout :: "bytes \<Rightarrow> logoutTokenClaims option" where
  "decode_logout payload =
     Option.bind (body_members payload) (\<lambda>ms.
     let f = (\<lambda>n. field_values [''iss'', ''aud'', ''iat'', ''exp'', ''jti'', ''sid'', ''sub'', ''events'', ''nonce''] n ms) in
     Option.bind (dec_string [] (f ''iss'')) (\<lambda>iss. Option.bind (dec_string [] (f ''aud'')) (\<lambda>aud.
     Option.bind (dec_int64 0 (f ''iat'')) (\<lambda>iat. Option.bind (dec_int64 0 (f ''exp'')) (\<lambda>expiry.
     Option.bind (dec_string [] (f ''jti'')) (\<lambda>jti. Option.bind (dec_string [] (f ''sid'')) (\<lambda>sid.
     Option.bind (dec_string [] (f ''sub'')) (\<lambda>sub. Option.bind (dec_map None (f ''events'')) (\<lambda>events.
     Option.bind (dec_string_ptr None (f ''nonce'')) (\<lambda>nonce.
     Some \<lparr>lt_Iss = iss, lt_Aud = aud, lt_Iat = iat, lt_Exp = expiry, lt_JTI = jti, lt_SID = sid, lt_Sub = sub,
           lt_Events = events, lt_Nonce = nonce\<rparr>))))))))))"

definition hasBackchannelLogoutEvent :: "(bytes \<times> json) list option \<Rightarrow> bool" where
  "hasBackchannelLogoutEvent events =
     (case Option.bind events (any_member backchannelLogoutEvent) of
        Some (JObj ms) \<Rightarrow> any_ok (JObj ms) | _ \<Rightarrow> False)"

definition check_logout_claims :: "logoutTokenClaims \<Rightarrow> bytes \<Rightarrow> bytes \<Rightarrow> duration \<Rightarrow> time \<Rightarrow> go_error option" where
  "check_logout_claims claims issuer clientID skew now =
     (if lt_Iss claims \<noteq> issuer then Some (AuthError ''logout token issuer does not match the discovery document'')
      else if lt_Aud claims \<noteq> clientID then Some (AuthError ''logout token audience does not match this client_id'')
      else if \<not> hasBackchannelLogoutEvent (lt_Events claims)
      then Some (AuthError (''not a logout token: the events claim does not carry '' @ backchannelLogoutEvent))
      else if lt_Nonce claims \<noteq> None
      then Some (AuthError ''logout token carries a nonce: this is an ID token being replayed as a logout token'')
      else if lt_SID claims = [] \<and> lt_Sub claims = []
      then Some (AuthError ''logout token names neither sid nor sub, so it identifies no session'')
      else if lt_Exp claims = 0 \<or> time_unix (lt_Exp claims) + skew < now then Some (AuthError ''logout token has expired'')
      else if lt_Iat claims = 0 \<or> time_unix (lt_Iat claims) - skew > now then Some (AuthError ''logout token was issued in the future'')
      else if time_sub now (time_unix (lt_Iat claims)) > maxLogoutTokenAge + skew
      then Some (AuthError ''logout token is too old to be a live delivery'')
      else if lt_JTI claims = [] then Some (AuthError ''logout token carries no jti, so the RP cannot dedup redeliveries'')
      else None)"

record VerifiedLogoutToken =
  vl_SID :: bytes
  vl_Sub :: bytes
  vl_JTI :: bytes

definition VerifyLogoutToken ::
  "('ks, 'key, 'w) oidc_env \<Rightarrow> bytes \<Rightarrow> OidcConfiguration option \<Rightarrow> (('ks, 'key, 'w) oidc_world, VerifiedLogoutToken) act" where
  "VerifyLogoutToken env token provided =
     act_bind (resolveOidcConfiguration env provided) (\<lambda>config.
     act_bind (reach_verifier env (oc_JwksURI config)) (\<lambda>verifier.
     act_bind (oidc_payload verifier token) (\<lambda>payload.
     act_get (\<lambda>x. case decode_logout payload of
         None \<Rightarrow> Inl (AuthError ''logout token payload is not a JSON object'')
       | Some claims \<Rightarrow>
         (case check_logout_claims claims (oc_Issuer config) (oe_clientID env) (oe_clockSkewSec env * Second) (oidc_now env x) of
            Some e \<Rightarrow> Inl e
          | None \<Rightarrow> Inr \<lparr>vl_SID = lt_SID claims, vl_Sub = lt_Sub claims, vl_JTI = lt_JTI claims\<rparr>)))))"

section \<open>The state store\<close>

record OidcStateEntry =
  oe_State :: bytes
  oe_Nonce :: bytes
  oe_CodeVerifier :: bytes
  oe_RedirectURI :: bytes
  oe_ReturnTo :: bytes

record MemoryOidcStateStore =
  ms_ttl :: duration
  ms_entries :: "(bytes \<times> OidcStateEntry \<times> time) list"

definition OidcStateTTL :: duration where "OidcStateTTL = 10 * Minute"

definition NewMemoryOidcStateStore :: "duration \<Rightarrow> MemoryOidcStateStore" where
  "NewMemoryOidcStateStore ttl =
     \<lparr>ms_ttl = (if ttl \<le> 0 \<or> ttl > OidcStateTTL then OidcStateTTL else ttl), ms_entries = []\<rparr>"

definition sweepLocked :: "time \<Rightarrow> MemoryOidcStateStore \<Rightarrow> MemoryOidcStateStore" where
  "sweepLocked now s = s\<lparr>ms_entries := filter (\<lambda>(k, entry, expiresAt). \<not> now > expiresAt) (ms_entries s)\<rparr>"

definition state_save :: "time \<Rightarrow> OidcStateEntry \<Rightarrow> MemoryOidcStateStore \<Rightarrow> MemoryOidcStateStore" where
  "state_save now entry s =
     (let s1 = sweepLocked now s in s1\<lparr>ms_entries := AList.update (oe_State entry) (entry, now + ms_ttl s1) (ms_entries s1)\<rparr>)"

definition state_consume :: "time \<Rightarrow> bytes \<Rightarrow> MemoryOidcStateStore \<Rightarrow> OidcStateEntry option \<times> MemoryOidcStateStore" where
  "state_consume now state s =
     (case map_of (ms_entries s) state of
        None \<Rightarrow> (None, s)
      | Some (entry, expiresAt) \<Rightarrow>
        (let s1 = s\<lparr>ms_entries := AList.delete state (ms_entries s)\<rparr> in
         if now > expiresAt then (None, s1) else (Some entry, s1)))"

definition state_size :: "time \<Rightarrow> MemoryOidcStateStore \<Rightarrow> nat \<times> MemoryOidcStateStore" where
  "state_size now s = (let s1 = sweepLocked now s in (length (ms_entries s1), s1))"

section \<open>The store against a map of pending logins\<close>

text \<open>What is done with a store, in order: a login saved, or a callback's state consumed, each at an instant.\<close>

datatype store_op = Save time OidcStateEntry | Consume time bytes

fun op_time :: "store_op \<Rightarrow> time" where
  "op_time (Save now e) = now"
| "op_time (Consume now st) = now"

fun store_run :: "store_op list \<Rightarrow> MemoryOidcStateStore \<Rightarrow> OidcStateEntry option list" where
  "store_run [] s = []"
| "store_run (Save now e # ops) s = store_run ops (state_save now e s)"
| "store_run (Consume now st # ops) s = (let (r, s') = state_consume now st s in r # store_run ops s')"

text \<open>
  The contract: a map from state to the login last saved and the last instant it is good for; a login
  leaves the map when its state is consumed, and nothing else ever does.
\<close>

fun spec_run :: "duration \<Rightarrow> store_op list \<Rightarrow> (bytes \<Rightarrow> (OidcStateEntry \<times> time) option) \<Rightarrow> OidcStateEntry option list" where
  "spec_run ttl [] m = []"
| "spec_run ttl (Save now e # ops) m = spec_run ttl ops (m(oe_State e := Some (e, now + ttl)))"
| "spec_run ttl (Consume now st # ops) m =
     (case m st of Some (e, till) \<Rightarrow> if now \<le> till then Some e else None | None \<Rightarrow> None) # spec_run ttl ops (m(st := None))"

definition live_at :: "time \<Rightarrow> (OidcStateEntry \<times> time) option \<Rightarrow> (OidcStateEntry \<times> time) option" where
  "live_at now v = (case v of None \<Rightarrow> None | Some (e, till) \<Rightarrow> if now \<le> till then Some (e, till) else None)"

definition store_abs :: "time \<Rightarrow> MemoryOidcStateStore \<Rightarrow> (bytes \<Rightarrow> (OidcStateEntry \<times> time) option) \<Rightarrow> bool" where
  "store_abs now s m \<longleftrightarrow> distinct_keys (ms_entries s) \<and> (\<forall>k. live_at now (map_of (ms_entries s) k) = live_at now (m k))"

lemma live_at_later: "live_at t a = live_at t b \<Longrightarrow> t \<le> u \<Longrightarrow> live_at u a = live_at u b"
  by (auto simp: live_at_def split: option.splits prod.splits if_splits)

lemma store_abs_later: "store_abs t s m \<Longrightarrow> t \<le> u \<Longrightarrow> store_abs u s m"
  by (meson live_at_later store_abs_def)

lemma sweep_live: "distinct_keys (ms_entries s) \<Longrightarrow>
    live_at now (map_of (ms_entries (sweepLocked now s)) k) = live_at now (map_of (ms_entries s) k)"
  by (simp add: sweepLocked_def map_of_filter_distinct) (simp add: live_at_def split: option.split)

lemma sweep_abs: "store_abs now s m \<Longrightarrow> store_abs now (sweepLocked now s) m"
  unfolding store_abs_def by (simp add: sweep_live) (simp add: sweepLocked_def distinct_keys_filter)

lemma save_abs: "store_abs now s m \<Longrightarrow> store_abs now (state_save now e s) (m(oe_State e := Some (e, now + ms_ttl s)))"
  using sweep_abs [of now s m]
  by (auto simp: state_save_def store_abs_def Let_def distinct_keys_update sweepLocked_def)

lemma consume_abs:
  "store_abs now s m \<Longrightarrow> store_abs now (snd (state_consume now st s)) (m(st := None))"
  by (auto simp: state_consume_def store_abs_def Let_def distinct_keys_delete live_at_def
      split: option.splits prod.splits if_splits)

lemma consume_result:
  "store_abs now s m \<Longrightarrow> fst (state_consume now st s) = map_option fst (live_at now (m st))"
  unfolding store_abs_def state_consume_def
  by (drule conjunct2, drule spec [of _ st]) (auto simp: live_at_def Let_def split: option.splits prod.splits if_splits)

lemma ttl_keeps [simp]: "ms_ttl (state_save now e s) = ms_ttl s" "ms_ttl (snd (state_consume now st s)) = ms_ttl s"
  by (auto simp: state_save_def sweepLocked_def state_consume_def Let_def split: option.split prod.split)

lemma store_run_refines:
  "store_abs t s m \<Longrightarrow> sorted (t # map op_time ops) \<Longrightarrow> store_run ops s = spec_run (ms_ttl s) ops m"
proof (induction ops arbitrary: t s m)
  case (Cons oper ops)
  have now: "store_abs (op_time oper) s m" and rest: "sorted (op_time oper # map op_time ops)"
    using Cons.prems store_abs_later by auto
  show ?case
  proof (cases oper)
    case (Save now e)
    then show ?thesis using Cons.IH [OF save_abs] now rest by (simp add: fun_upd_def)
  next
    case (Consume now st)
    then show ?thesis
      using Cons.IH [OF consume_abs, of now s m st] consume_result [of now s m st] now rest
      by (auto simp: live_at_def case_prod_unfold fun_upd_def split: option.splits prod.splits)
  qed
qed simp

section \<open>Properties\<close>

text \<open>
  (C9) With a clock that does not go back the state store, swept or not, answers every callback as the map of
  pending logins does: with the login last saved for the state, at most once, and not after its time.
\<close>

theorem state_store_refines_map:
  assumes "sorted (map op_time ops)"
  shows "store_run ops (NewMemoryOidcStateStore ttl) =
    spec_run (if ttl \<le> 0 \<or> ttl > OidcStateTTL then OidcStateTTL else ttl) ops (\<lambda>_. None)"
proof (cases ops)
  case (Cons a as)
  have "store_abs (op_time a) (NewMemoryOidcStateStore ttl) (\<lambda>_. None)"
    by (simp add: store_abs_def NewMemoryOidcStateStore_def)
  from store_run_refines [OF this, of ops] assms Cons show ?thesis
    by (simp add: NewMemoryOidcStateStore_def)
qed simp

definition demo_login :: OidcStateEntry where
  "demo_login = \<lparr>oe_State = ''s'', oe_Nonce = ''n'', oe_CodeVerifier = ''v'', oe_RedirectURI = ''r'', oe_ReturnTo = []\<rparr>"

theorem state_store_refines_map_witness:
  "store_run [Save 0 demo_login, Consume 5 ''s'', Consume 6 ''s'', Save 7 demo_login, Consume 600000000008 ''s'']
     (NewMemoryOidcStateStore 0) = [Some demo_login, None, None]"
  using state_store_refines_map [of "[Save 0 demo_login, Consume 5 ''s'', Consume 6 ''s'', Save 7 demo_login,
      Consume 600000000008 ''s'']" 0]
  by (simp add: demo_login_def OidcStateTTL_def Minute_def)

text \<open>What the checks on the claims let through.\<close>

lemma logout_claims_ok:
  "check_logout_claims claims issuer clientID skew now = None \<longleftrightarrow>
     lt_Iss claims = issuer \<and> lt_Aud claims = clientID \<and> hasBackchannelLogoutEvent (lt_Events claims) \<and>
     lt_Nonce claims = None \<and> lt_SID claims @ lt_Sub claims \<noteq> [] \<and> lt_JTI claims \<noteq> [] \<and>
     lt_Exp claims \<noteq> 0 \<and> lt_Iat claims \<noteq> 0 \<and>
     now \<le> time_unix (lt_Exp claims) + skew \<and> time_unix (lt_Iat claims) - skew \<le> now \<and>
     time_sub now (time_unix (lt_Iat claims)) \<le> maxLogoutTokenAge + skew"
  by (auto simp: check_logout_claims_def)

text \<open>
  (C26) A logout token is accepted only on a verified signature, from the discovered issuer, to this client, with the
  back-channel event and no nonce, naming a session or a subject and its own id, unexpired, not from the
  future and at most five minutes old, give or take the clock skew; an ID token never passes for one.
\<close>

theorem accepted_logout_token:
  "case VerifyLogoutToken env token provided x of
     (Inl e, _) \<Rightarrow> True
   | (Inr v, x') \<Rightarrow>
       \<exists>config x1 jo x2 payload claims.
         resolveOidcConfiguration env provided x = (Inr config, x1) \<and>
         reach_verifier env (oc_JwksURI config) x1 = (Inr jo, x2) \<and> verified_by jo token payload \<and> decode_logout payload = Some claims \<and>
         v = \<lparr>vl_SID = lt_SID claims, vl_Sub = lt_Sub claims, vl_JTI = lt_JTI claims\<rparr> \<and>
         lt_Iss claims = oc_Issuer config \<and> lt_Aud claims = oe_clientID env \<and>
         hasBackchannelLogoutEvent (lt_Events claims) \<and> lt_Nonce claims = None \<and>
         lt_SID claims @ lt_Sub claims \<noteq> [] \<and> lt_JTI claims \<noteq> [] \<and>
         (let skew = oe_clockSkewSec env * Second; now = oidc_now env x'; iat = time_unix (lt_Iat claims) in
          now \<le> time_unix (lt_Exp claims) + skew \<and> iat - skew \<le> now \<and> time_sub now iat \<le> maxLogoutTokenAge + skew)"
proof (cases "VerifyLogoutToken env token provided x")
  case result: (Pair r x')
  show ?thesis
  proof (cases r)
    case (Inr v)
    obtain config x1 jo x2 payload x3 where steps: "resolveOidcConfiguration env provided x = (Inr config, x1)"
        "reach_verifier env (oc_JwksURI config) x1 = (Inr jo, x2)" "oidc_payload jo token x2 = (Inr payload, x3)"
      and final: "(case decode_logout payload of
         None \<Rightarrow> Inl (AuthError ''logout token payload is not a JSON object'')
       | Some claims \<Rightarrow>
         (case check_logout_claims claims (oc_Issuer config) (oe_clientID env) (oe_clockSkewSec env * Second) (oidc_now env x3) of
            Some e \<Rightarrow> Inl e
          | None \<Rightarrow> Inr \<lparr>vl_SID = lt_SID claims, vl_Sub = lt_Sub claims, vl_JTI = lt_JTI claims\<rparr>)) = Inr v" "x3 = x'"
      using result [unfolded Inr VerifyLogoutToken_def act_bind_Inr act_unit prod.inject] by blast
    from final obtain claims where claims: "decode_logout payload = Some claims"
      and ok: "check_logout_claims claims (oc_Issuer config) (oe_clientID env) (oe_clockSkewSec env * Second) (oidc_now env x') = None"
      and v: "v = \<lparr>vl_SID = lt_SID claims, vl_Sub = lt_Sub claims, vl_JTI = lt_JTI claims\<rparr>"
      by (auto split: option.splits)
    have "verified_by jo token payload" using steps(3) VerifyPayload_verified by (auto simp: oidc_payload_Inr)
    then show ?thesis
      unfolding result Inr prod.case sum.case Let_def using steps(1,2) claims v ok [unfolded logout_claims_ok] by blast
  qed (simp add: result)
qed

end
