(* ===== verification/Device_Grant.thy ===== *)
theory Device_Grant
  imports Oidc_Tokens Authz
begin

text \<open>
  \<open>oidc_device.go\<close>: the device grant, its poll schedule and its loop. The clock and the sleep of a client are
  functions on the world. The loop may not end for every schedule one can write down, so it is a partial
  function; that it ends for those \<open>DeviceLogin\<close> starts is a theorem. Beside its result it returns the waits
  it served, in order.
\<close>

section \<open>The poll schedule\<close>

definition DefaultDevicePollInterval :: duration where "DefaultDevicePollInterval = 5 * Second"
definition SlowDownIncrement :: duration where "SlowDownIncrement = 5 * Second"
definition deviceCodeGrantType :: bytes where
  "deviceCodeGrantType = ''urn:ietf:params:oauth:grant-type:device_code''"

text \<open>\<open>deadline\<close> is \<open>None\<close> where the code's \<open>now\<close> is nil.\<close>

record pollSchedule =
  ps_interval :: duration
  ps_remaining :: duration
  ps_floor :: duration
  ps_step :: duration
  ps_deadline :: "time option"

definition newPollSchedule :: "duration \<Rightarrow> duration \<Rightarrow> pollSchedule" where
  "newPollSchedule interval expiresIn =
     \<lparr>ps_interval = (if interval \<le> 0 then DefaultDevicePollInterval else interval), ps_remaining = expiresIn,
      ps_floor = 0, ps_step = 0, ps_deadline = None\<rparr>"

definition slowDown :: "pollSchedule \<Rightarrow> pollSchedule" where
  "slowDown p = p\<lparr>ps_interval := wrap64 (ps_interval p + SlowDownIncrement)\<rparr>"

definition rateLimited :: "duration \<Rightarrow> pollSchedule \<Rightarrow> pollSchedule" where
  "rateLimited retryAfter p = p\<lparr>ps_floor := retryAfter\<rparr>"

definition tick :: "time \<Rightarrow> pollSchedule \<Rightarrow> bool \<times> pollSchedule" where
  "tick now p =
     (let step = (if ps_floor p > ps_interval p then ps_floor p else ps_interval p);
          p1 = p\<lparr>ps_step := step, ps_floor := 0\<rparr>
      in if (case ps_deadline p of None \<Rightarrow> False | Some deadline \<Rightarrow> \<not> now + step < deadline)
         then (False, p1\<lparr>ps_remaining := 0\<rparr>)
         else if step \<ge> ps_remaining p then (False, p1\<lparr>ps_remaining := 0\<rparr>)
         else (True, p1\<lparr>ps_remaining := ps_remaining p - step\<rparr>))"

section \<open>Authorization\<close>

record DeviceAuthorization =
  da_DeviceCode :: bytes
  da_UserCode :: bytes
  da_VerificationURI :: bytes
  da_VerificationURIComplete :: bytes
  da_ExpiresIn :: int
  da_Interval :: int

text \<open>The decoded response, with the default interval where the server gave none that is positive.\<close>

definition decode_device :: "bytes \<Rightarrow> DeviceAuthorization option" where
  "decode_device body =
     Option.bind (stream_members body) (\<lambda>ms.
     let f = (\<lambda>n. field_values [''device_code'', ''user_code'', ''verification_uri'', ''verification_uri_complete'', ''expires_in'', ''interval''] n ms) in
     Option.bind (dec_string [] (f ''device_code'')) (\<lambda>dcode.
     Option.bind (dec_string [] (f ''user_code'')) (\<lambda>ucode.
     Option.bind (dec_string [] (f ''verification_uri'')) (\<lambda>uri.
     Option.bind (dec_string [] (f ''verification_uri_complete'')) (\<lambda>complete.
     Option.bind (dec_int64 0 (f ''expires_in'')) (\<lambda>expires.
     Option.bind (dec_int64 0 (f ''interval'')) (\<lambda>interval.
     Some \<lparr>da_DeviceCode = dcode, da_UserCode = ucode, da_VerificationURI = uri, da_VerificationURIComplete = complete,
           da_ExpiresIn = expires, da_Interval = (if interval \<le> 0 then DefaultDevicePollInterval div Second else interval)\<rparr>)))))))"

definition DeviceAuthorize ::
  "('ks, 'key, 'w) oidc_env \<Rightarrow> bytes \<Rightarrow> bytes \<Rightarrow> OidcConfiguration option \<Rightarrow> (('ks, 'key, 'w) oidc_world, DeviceAuthorization) act" where
  "DeviceAuthorize env scope tenantID provided =
     act_bind (resolveOidcConfiguration env provided) (\<lambda>configuration.
     act_bind (act_lift (preferredEndpoint env configuration ma_DeviceAuthorizationEndpoint
         (oc_DeviceAuthorizationEndpoint configuration))) (\<lambda>deviceEndpoint.
     act_bind (act_lift (if deviceEndpoint = []
         then Inl (AuthError ''the authorization server's discovery document advertises no device_authorization_endpoint: this server does not support the device grant'')
         else Inr ())) (\<lambda>_.
     act_bind (act_get (oidcEndpointURL env deviceEndpoint tenantID)) (\<lambda>endpoint.
     postOAuth2Form env endpoint
       (let f = appendOidcClientSecret env (form_of [(True, ''client_id'', oe_clientID env)])
        in if scope \<noteq> [] then values_set ''scope'' scope f else f) decode_device))))"

section \<open>One poll\<close>

definition errStopRetry :: go_error where
  "errStopRetry = EPlain ''axiam: decisive answer, not retried''"

text \<open>A retryable failure of the poll: the status, with the response's \<open>Retry-After\<close>.\<close>

definition status_error :: "(bytes \<Rightarrow> duration option) \<Rightarrow> bytes \<Rightarrow> http_reply \<Rightarrow> go_error" where
  "status_error until operation resp =
     (case newNetworkError (operation @ '' failed with HTTP '' @ show_int (rs_status resp)) (Some (reply_response resp)) None of
        ENetwork m r cause \<Rightarrow> ENetwork m (retry_after_of until resp) cause | err \<Rightarrow> err)"

text \<open>The variables the closure of a poll assigns, beside the world: the token response and the decisive error.\<close>

type_synonym poll_vars = "tokenResponseWire \<times> go_error option"

definition zero_wire :: tokenResponseWire where
  "zero_wire = \<lparr>tw_AccessToken = [], tw_TokenType = [], tw_ExpiresIn = 0, tw_Scope = None, tw_RefreshToken = None, tw_IDToken = None\<rparr>"

definition device_op ::
  "('ks, 'key, 'w) oidc_env \<Rightarrow> url \<Rightarrow> form \<Rightarrow> nat \<Rightarrow> poll_vars \<times> ('ks, 'key, 'w) oidc_world \<Rightarrow>
   go_error option \<times> (poll_vars \<times> ('ks, 'key, 'w) oidc_world)" where
  "device_op env u f attempt vx =
     (case vx of ((wire, decisive), x) \<Rightarrow>
      (case oidc_do env (form_request u f) x of
         (Inl err, x1) \<Rightarrow>
           (case err of
              ENetwork m r c \<Rightarrow> (Some err, ((wire, decisive), x1))
            | _ \<Rightarrow> (Some errStopRetry, ((wire, Some err), x1)))
       | (Inr resp, x1) \<Rightarrow>
           if rs_status resp \<ge> 500 then (Some (status_error (oe_until env) ''device_poll'' resp), ((wire, decisive), x1))
           else if rs_status resp < 200 \<or> rs_status resp \<ge> 300
           then (Some errStopRetry, ((wire, Some (mapOAuth2ErrorResponse (oe_until env) resp)), x1))
           else (case decode_token (rs_body resp) of
                   None \<Rightarrow> (Some errStopRetry, ((wire, Some deserErr), x1))
                 | Some t \<Rightarrow> (None, ((t, decisive), x1)))))"

definition lift_deadline :: "'w retry_deadline \<Rightarrow> ('x \<times> 'w) retry_deadline" where
  "lift_deadline b =
     \<lparr>rd_at = rd_at b, rd_now = (\<lambda>(x, w). rd_now b w),
      rd_sleep = (\<lambda>d (x, w). let (e, w') = rd_sleep b d w in (e, (x, w')))\<rparr>"

definition errDeviceExpired :: go_error where
  "errDeviceExpired = protocol_error
     ''expired_token: the device authorization expired before the user completed it (client-side deadline from expires_in)''
     ''expired_token'' ''the device authorization expired before the user completed it'' 0"

definition poll_target ::
  "('ks, 'key, 'w) oidc_env \<Rightarrow> bytes \<Rightarrow> OidcConfiguration option \<Rightarrow> (('ks, 'key, 'w) oidc_world, OidcConfiguration \<times> url) act" where
  "poll_target env tenantID provided =
     act_bind (resolveOidcConfiguration env provided) (\<lambda>configuration.
     act_bind (act_lift (preferredEndpoint env configuration ma_TokenEndpoint (oc_TokenEndpoint configuration))) (\<lambda>preferred.
     act_bind (act_get (oidcEndpointURL env preferred tenantID)) (\<lambda>endpoint.
     act_lift (Inr (configuration, endpoint)))))"

definition devicePoll ::
  "('ks, 'key, 'w) oidc_env \<Rightarrow> ('ks, 'key, 'w) oidc_world retry_client \<Rightarrow> ('ks, 'key, 'w) oidc_world retry_deadline option \<Rightarrow>
   bytes \<Rightarrow> bytes \<Rightarrow> OidcConfiguration option \<Rightarrow> (('ks, 'key, 'w) oidc_world, OidcTokenSet) act" where
  "devicePoll env rc bound deviceCode tenantID provided =
     act_bind (poll_target env tenantID provided) (\<lambda>(configuration, endpoint) x.
       let f = appendOidcClientSecret env (form_of [(True, ''grant_type'', deviceCodeGrantType),
                 (True, ''device_code'', deviceCode), (True, ''client_id'', oe_clientID env)])
       in case retryReadOnlyUntil (lift_client rc) ''device_poll'' (map_option lift_deadline bound)
                 (device_op env endpoint f) ((zero_wire, None), x) of
            ((retryErr, ((wire, decisive), x1)), acts) \<Rightarrow>
              (case decisive of
                 Some e \<Rightarrow> (Inl e, x1)
               | None \<Rightarrow>
                 (case retryErr of
                    Some e \<Rightarrow> (Inl (if e = errRetryDeadline then errDeviceExpired else e), x1)
                  | None \<Rightarrow> toTokenSet env wire configuration (expectations env configuration None) x1)))"

definition DevicePoll where
  "DevicePoll env rc deviceCode tenantID provided = devicePoll env rc None deviceCode tenantID provided"

section \<open>The loop\<close>

text \<open>What the loop does with a failed poll: poll on with another schedule, or stop.\<close>

definition next_schedule :: "go_error \<Rightarrow> pollSchedule \<Rightarrow> pollSchedule option" where
  "next_schedule err p =
     (case errors_as_oauth err of
        Some protocolErr \<Rightarrow>
          if op_error_code protocolErr = ''authorization_pending'' then Some p
          else if op_error_code protocolErr = ''slow_down'' then Some (slowDown p)
          else if op_error_code protocolErr = ''rate_limit_exceeded'' then Some (rateLimited (op_retry_after protocolErr) p)
          else None
      | None \<Rightarrow>
        (case errors_as_network err of
           Some (m, retryAfter) \<Rightarrow> Some (rateLimited retryAfter p)
         | None \<Rightarrow> None))"

partial_function (option) device_loop ::
  "('x \<Rightarrow> time) \<Rightarrow> (duration \<Rightarrow> 'x \<Rightarrow> go_error option \<times> 'x) \<Rightarrow> ('x \<Rightarrow> (go_error + 'a) \<times> 'x) \<Rightarrow>
   pollSchedule \<Rightarrow> 'x \<Rightarrow> ((go_error + 'a) \<times> 'x \<times> duration list) option" where
  "device_loop clock sleep poll p x =
     (let (go, p1) = tick (clock x) p in
      if \<not> go then Some (Inl errDeviceExpired, x, [])
      else let (waited, x1) = sleep (ps_step p1) x in
        (case waited of
           Some e \<Rightarrow> Some (Inl e, x1, [ps_step p1])
         | None \<Rightarrow> let (answer, x2) = poll x1 in
           (case answer of
              Inr a \<Rightarrow> Some (Inr a, x2, [ps_step p1])
            | Inl err \<Rightarrow>
              (case next_schedule err p1 of
                 None \<Rightarrow> Some (Inl err, x2, [ps_step p1])
               | Some p2 \<Rightarrow> Option.bind (device_loop clock sleep poll p2 x2) (\<lambda>(r, x3, ws). Some (r, x3, ps_step p1 # ws))))))"

definition device_schedule :: "DeviceAuthorization \<Rightarrow> time \<Rightarrow> pollSchedule" where
  "device_schedule authorization received =
     (newPollSchedule (wrap64 (da_Interval authorization * Second)) (wrap64 (da_ExpiresIn authorization * Second)))
       \<lparr>ps_deadline := Some (received + wrap64 (da_ExpiresIn authorization * Second))\<rparr>"

record 'x DeviceLoginParams =
  dp_Scope :: bytes
  dp_TenantID :: bytes
  dp_Configuration :: "OidcConfiguration option"
  dp_OnUserCode :: "(DeviceAuthorization \<Rightarrow> 'x \<Rightarrow> go_error option \<times> 'x) option"
  dp_AdoptAsCredential :: bool

definition DeviceLogin ::
  "('ks, 'key, 'w) oidc_env \<Rightarrow> ('ks, 'key, 'w) oidc_world retry_client \<Rightarrow>
   (duration \<Rightarrow> ('ks, 'key, 'w) oidc_world \<Rightarrow> go_error option \<times> ('ks, 'key, 'w) oidc_world) \<Rightarrow>
   ('ks, 'key, 'w) oidc_world DeviceLoginParams \<Rightarrow> ('ks, 'key, 'w) oidc_world \<Rightarrow>
   ((go_error + OidcTokenSet) \<times> ('ks, 'key, 'w) oidc_world \<times> duration list) option" where
  "DeviceLogin env rc sleep params x =
     (case dp_OnUserCode params of
        None \<Rightarrow> Some (Inl (AuthError ''DeviceLogin requires OnUserCode: the user cannot approve a code no one displayed''), x, [])
      | Some onUserCode \<Rightarrow>
        (case act_bind (resolveOidcConfiguration env (dp_Configuration params)) (\<lambda>configuration.
                act_bind (DeviceAuthorize env (dp_Scope params) (dp_TenantID params) (Some configuration)) (\<lambda>authorization.
                act_lift (Inr (configuration, authorization)))) x of
           (Inl e, x1) \<Rightarrow> Some (Inl e, x1, [])
         | (Inr (configuration, authorization), x1) \<Rightarrow>
           (let received = oidc_now env x1 in
            case onUserCode authorization x1 of
              (Some e, x2) \<Rightarrow> Some (Inl (EWrap ''OnUserCode reported the code could not be displayed: '' e), x2, [])
            | (None, x2) \<Rightarrow>
              (let p = device_schedule authorization received;
                   bound = \<lparr>rd_at = the (ps_deadline p), rd_now = oidc_now env, rd_sleep = sleep\<rparr>
               in case device_loop (oidc_now env) sleep
                         (devicePoll env rc (Some bound) (da_DeviceCode authorization) (dp_TenantID params) (Some configuration)) p x2 of
                    None \<Rightarrow> None
                  | Some (Inl e, x3, ws) \<Rightarrow> Some (Inl e, x3, ws)
                  | Some (Inr tokens, x3, ws) \<Rightarrow>
                      Some (Inr tokens, if dp_AdoptAsCredential params
                        then x3\<lparr>ow_session := adopt_credential (ts_AccessToken tokens) (ow_session x3)\<rparr> else x3, ws)))))"

section \<open>The loop ends, within the lifetime of the code\<close>

definition schedule_ok :: "duration \<Rightarrow> pollSchedule \<Rightarrow> bool" where
  "schedule_ok base p \<longleftrightarrow> 0 < base \<and> base \<le> ps_interval p \<and> ps_remaining p \<le> max_int64 - SlowDownIncrement"

lemma tick_True:
  "tick now p = (True, p1) \<Longrightarrow>
     ps_step p1 = max (ps_floor p) (ps_interval p) \<and> ps_interval p1 = ps_interval p \<and>
     ps_remaining p1 = ps_remaining p - ps_step p1 \<and> ps_step p1 < ps_remaining p \<and>
     ps_deadline p1 = ps_deadline p \<and> ps_floor p1 = 0 \<and>
     (case ps_deadline p of None \<Rightarrow> True | Some d \<Rightarrow> now + ps_step p1 < d)"
  by (auto simp: tick_def Let_def max_def split: if_splits option.splits)

lemma next_schedule_cases:
  assumes "next_schedule err p = Some p2"
  shows "p2 = p \<or> p2 = slowDown p \<or> (\<exists>r. p2 = rateLimited r p)"
  using assms by (auto simp: next_schedule_def split: option.splits if_splits)

lemma schedule_ok_step:
  assumes "schedule_ok base p" "tick now p = (True, p1)" "next_schedule err p1 = Some p2"
  shows "schedule_ok base p2 \<and> ps_remaining p2 = ps_remaining p1"
proof -
  note t = tick_True [OF assms(2)]
  have "SlowDownIncrement = 5000000000"
    by (simp add: SlowDownIncrement_def Second_def)
  then have "in_int64 (ps_interval p1 + SlowDownIncrement)" "0 < ps_step p1"
    using assms(1) t by (auto simp: schedule_ok_def in_int64_def min_int64_def max_int64_def)
  then show ?thesis
    using next_schedule_cases [OF assms(3)] assms(1) t \<open>SlowDownIncrement = _\<close>
    by (auto simp: schedule_ok_def slowDown_def rateLimited_def)
qed

lemma device_loop_ends:
  assumes "schedule_ok base p"
  shows "\<exists>r x' ws. device_loop clock sleep poll p x = Some (r, x', ws) \<and>
     sum_list ws \<le> max 0 (ps_remaining p - 1) \<and> (\<forall>w \<in> set ws. base \<le> w)"
  using assms
proof (induction "nat (ps_remaining p)" arbitrary: p x rule: less_induct)
  case less
  obtain go p1 where t: "tick (clock x) p = (go, p1)" by fastforce
  obtain waited x1 where s: "sleep (ps_step p1) x = (waited, x1)" by fastforce
  obtain answer x2 where q: "poll x1 = (answer, x2)" by fastforce
  note unf = device_loop.simps [of clock sleep poll p x] t s q
  show ?case
  proof (cases go)
    case False
    then show ?thesis by (simp add: unf)
  next
    case True
    with t have tt: "tick (clock x) p = (True, p1)" by simp
    note facts = tick_True [OF tt]
    have pos: "0 < ps_step p1" and ge: "base \<le> ps_step p1" and base: "0 < base"
      using facts less.prems by (auto simp: schedule_ok_def)
    have eq: "device_loop clock sleep poll p x =
       (case waited of Some e \<Rightarrow> Some (Inl e, x1, [ps_step p1])
        | None \<Rightarrow> (case answer of Inr a \<Rightarrow> Some (Inr a, x2, [ps_step p1])
          | Inl err \<Rightarrow> (case next_schedule err p1 of None \<Rightarrow> Some (Inl err, x2, [ps_step p1])
             | Some p2 \<Rightarrow> Option.bind (device_loop clock sleep poll p2 x2) (\<lambda>(r, x3, ws). Some (r, x3, ps_step p1 # ws)))))"
      by (simp only: unf True Let_def prod.case) (simp add: q)
    show ?thesis
    proof (cases "waited = None \<and> (\<exists>e p2. answer = Inl e \<and> next_schedule e p1 = Some p2)")
      case False
      then have "\<exists>r x'. device_loop clock sleep poll p x = Some (r, x', [ps_step p1])"
        by (auto simp: eq split: option.split sum.split)
      then show ?thesis using facts ge base by fastforce
    next
      case more: True
      then obtain e p2 where *: "waited = None" "answer = Inl e" "next_schedule e p1 = Some p2" by blast
      have ok: "schedule_ok base p2" "ps_remaining p2 = ps_remaining p1"
        using schedule_ok_step [OF less.prems tt *(3)] by simp_all
      have "nat (ps_remaining p2) < nat (ps_remaining p)"
        using ok facts pos by linarith
      from less.hyps [OF this ok(1), of x2] obtain r x' ws where
        "device_loop clock sleep poll p2 x2 = Some (r, x', ws)" "sum_list ws \<le> max 0 (ps_remaining p2 - 1)"
        "\<forall>w \<in> set ws. base \<le> w"
        by blast
      moreover from this have "ps_step p1 + sum_list ws \<le> max 0 (ps_remaining p - 1)"
        using ok(2) facts by linarith
      ultimately show ?thesis
        using * ge by (simp add: eq)
    qed
  qed
qed

lemma device_schedule_ok:
  assumes "wrap64 (da_ExpiresIn a * Second) \<le> max_int64 - SlowDownIncrement"
  shows "schedule_ok (ps_interval (device_schedule a received)) (device_schedule a received)"
  using assms
  by (simp add: schedule_ok_def device_schedule_def newPollSchedule_def DefaultDevicePollInterval_def Second_def)

text \<open>
  (C10) The loop of a device login ends whatever the server answers, provided the lifetime the server gave is
  representable with one slow-down to spare: it serves waits whose sum stays below that lifetime, each at least the
  interval asked for, and then returns a token set or an error.
\<close>

theorem device_login_ends:
  assumes "wrap64 (da_ExpiresIn a * Second) \<le> max_int64 - SlowDownIncrement"
  shows "\<exists>r x' ws. device_loop clock sleep poll (device_schedule a received) x = Some (r, x', ws) \<and>
     sum_list ws \<le> max 0 (wrap64 (da_ExpiresIn a * Second) - 1) \<and>
     (\<forall>w \<in> set ws. ps_interval (device_schedule a received) \<le> w)"
  using device_loop_ends [OF device_schedule_ok [where received = received, OF assms], of clock sleep poll x]
  by (simp add: device_schedule_def newPollSchedule_def)

section \<open>Slow-downs add up, and an approval is picked up\<close>

definition scripted_poll :: "time \<times> (go_error + 'a) list \<Rightarrow> (go_error + 'a) \<times> (time \<times> (go_error + 'a) list)" where
  "scripted_poll x = (hd (snd x), (fst x, tl (snd x)))"

definition scripted_sleep :: "duration \<Rightarrow> time \<times> 's \<Rightarrow> go_error option \<times> (time \<times> 's)" where
  "scripted_sleep d x = (None, (fst x + d, snd x))"

definition waiting_error :: "bool \<Rightarrow> go_error" where
  "waiting_error slow = protocol_error [] (if slow then ''slow_down'' else ''authorization_pending'') [] 0"

text \<open>The waits a run of \<open>authorization_pending\<close> and \<open>slow_down\<close> (true) answers leads to.\<close>

primrec waits_for :: "duration \<Rightarrow> bool list \<Rightarrow> duration list" where
  "waits_for i [] = [i]"
| "waits_for i (slow # rest) = i # waits_for (if slow then i + SlowDownIncrement else i) rest"

lemma waits_for_sum: "0 < i \<Longrightarrow> i \<le> sum_list (waits_for i bs)"
proof (induction bs arbitrary: i)
  case (Cons b bs)
  have "0 < SlowDownIncrement" by (simp add: SlowDownIncrement_def Second_def)
  then show ?case using Cons.IH [of i] Cons.IH [of "i + SlowDownIncrement"] Cons.prems by auto
qed simp

lemma next_schedule_waiting:
  "next_schedule (waiting_error slow) p = Some (if slow then slowDown p else p)"
  by (simp add: next_schedule_def waiting_error_def protocol_error_def errors_as_oauth.simps)

lemma approval_reached:
  assumes "0 < ps_interval p" "ps_floor p = 0" "sum_list (waits_for (ps_interval p) slows) < ps_remaining p"
    "ps_remaining p \<le> max_int64"
    "case ps_deadline p of None \<Rightarrow> True | Some d \<Rightarrow> t + sum_list (waits_for (ps_interval p) slows) < d"
  shows "device_loop fst scripted_sleep scripted_poll p (t, map (\<lambda>b. Inl (waiting_error b)) slows @ Inr a # rest) =
    Some (Inr a, (t + sum_list (waits_for (ps_interval p) slows), rest), waits_for (ps_interval p) slows)"
  using assms
proof (induction slows arbitrary: p t)
  case Nil
  then have "tick t p = (True, p\<lparr>ps_step := ps_interval p, ps_floor := 0, ps_remaining := ps_remaining p - ps_interval p\<rparr>)"
    by (auto simp: tick_def Let_def split: option.splits)
  then show ?case
    by (simp add: device_loop.simps scripted_sleep_def scripted_poll_def)
next
  case (Cons b bs)
  let ?p1 = "p\<lparr>ps_step := ps_interval p, ps_floor := 0, ps_remaining := ps_remaining p - ps_interval p\<rparr>"
  let ?p2 = "if b then slowDown ?p1 else ?p1"
  have inc: "SlowDownIncrement = 5000000000"
    by (simp add: SlowDownIncrement_def Second_def)
  have lt: "ps_interval p < ps_remaining p"
    using Cons.prems waits_for_sum [of "if b then ps_interval p + SlowDownIncrement else ps_interval p" bs] inc
    by (auto split: if_splits)
  have "0 < sum_list (waits_for (if b then ps_interval p + SlowDownIncrement else ps_interval p) bs)"
    using waits_for_sum [of "if b then ps_interval p + SlowDownIncrement else ps_interval p" bs] Cons.prems(1) inc by auto
  then have tick: "tick t p = (True, ?p1)"
    using lt Cons.prems by (auto simp: tick_def Let_def split: option.splits)
  have small: "b \<Longrightarrow> in_int64 (ps_interval p + SlowDownIncrement)"
    using Cons.prems waits_for_sum [of "ps_interval p + SlowDownIncrement" bs] inc
    by (auto simp: in_int64_def min_int64_def max_int64_def)
  have ih: "device_loop fst scripted_sleep scripted_poll ?p2
      (t + ps_interval p, map (\<lambda>b. Inl (waiting_error b)) bs @ Inr a # rest) =
      Some (Inr a, (t + ps_interval p + sum_list (waits_for (ps_interval ?p2) bs), rest), waits_for (ps_interval ?p2) bs)"
    by (rule Cons.IH) (use Cons.prems small inc in \<open>auto simp: slowDown_def split: option.splits\<close>)
  have "ps_interval ?p2 = (if b then ps_interval p + SlowDownIncrement else ps_interval p)"
    using small by (simp add: slowDown_def)
  with ih show ?case
    by (subst device_loop.simps) (simp add: tick scripted_sleep_def scripted_poll_def next_schedule_waiting)
qed

text \<open>
  (C11) An approval is picked up: a server that answers the polls of a device login with any sequence of
  \<open>authorization_pending\<close> and \<open>slow_down\<close> and then with tokens is polled until it gives them, when the waits this
  takes fit the lifetime of the code; each \<open>slow_down\<close> adds five seconds to every later wait.
\<close>

theorem approved_device_login:
  assumes "sum_list (waits_for (ps_interval (device_schedule a received)) slows) < wrap64 (da_ExpiresIn a * Second)"
    "t + sum_list (waits_for (ps_interval (device_schedule a received)) slows) < received + wrap64 (da_ExpiresIn a * Second)"
  shows "device_loop fst scripted_sleep scripted_poll (device_schedule a received)
      (t, map (\<lambda>b. Inl (waiting_error b)) slows @ Inr tokens # rest) =
    (let ws = waits_for (ps_interval (device_schedule a received)) slows in
     Some (Inr tokens, (t + sum_list ws, rest), ws))"
proof -
  have "0 < ps_interval (device_schedule a received)"
    by (simp add: device_schedule_def newPollSchedule_def DefaultDevicePollInterval_def Second_def)
  moreover have "wrap64 (da_ExpiresIn a * Second) \<le> max_int64"
    using wrap64_in_range by (simp add: in_int64_def)
  moreover have "ps_floor (device_schedule a received) = 0"
    "ps_remaining (device_schedule a received) = wrap64 (da_ExpiresIn a * Second)"
    "ps_deadline (device_schedule a received) = Some (received + wrap64 (da_ExpiresIn a * Second))"
    by (simp_all add: device_schedule_def newPollSchedule_def)
  ultimately show ?thesis
    using approval_reached [of "device_schedule a received" slows t tokens rest] assms by (simp add: Let_def)
qed

definition example_device :: DeviceAuthorization where
  "example_device = \<lparr>da_DeviceCode = ''d'', da_UserCode = ''ABCD'', da_VerificationURI = ''https://a/device'',
     da_VerificationURIComplete = [], da_ExpiresIn = 60, da_Interval = 5\<rparr>"

lemma example_schedule:
  "da_ExpiresIn example_device = 60"
  "ps_interval (device_schedule example_device r) = 5000000000"
  by (simp_all add: example_device_def device_schedule_def newPollSchedule_def wrap64_eq Second_def)

theorem approved_device_login_witness:
  "device_loop fst scripted_sleep scripted_poll (device_schedule example_device 100)
     (100, [Inl (waiting_error False), Inl (waiting_error True), Inr (7::nat)]) =
   Some (Inr 7, (20000000100, []), [5000000000, 5000000000, 10000000000])"
  using approved_device_login [of example_device 100 "[False, True]" 100 "7::nat" "[]"]
  by (simp add: example_schedule wrap64_eq SlowDownIncrement_def Second_def Let_def)

theorem device_login_ends_witness:
  "\<exists>r x' ws. device_loop (\<lambda>t. t) (\<lambda>d t. (None, t + d)) (\<lambda>t. (Inl (waiting_error True) :: go_error + nat, t))
     (device_schedule example_device 0) 0 = Some (r, x', ws) \<and> sum_list ws < 60000000000"
  using device_login_ends [of example_device "\<lambda>t. t" "\<lambda>d t. (None, t + d)"
      "\<lambda>t. (Inl (waiting_error True) :: go_error + nat, t)" 0 0]
  by (auto simp: example_schedule wrap64_eq max_int64_def SlowDownIncrement_def Second_def)

end
