(* ===== verification/Ciba.thy ===== *)
theory Ciba
  imports Device_Grant
begin

text \<open>
  \<open>oidc_ciba.go\<close>: backchannel authentication. The signing key, DER and PEM decoding are the standard library's and
  come in as functions; the clock of an awaiting client is its \<open>CibaClock\<close>. The waiting loop is a partial
  function, like that of the device grant, and returns the waits it served.
\<close>

section \<open>Signing keys\<close>

definition CibaGrantType :: bytes where "CibaGrantType = ''urn:openid:params:grant-type:ciba''"
definition DefaultCibaInterval :: duration where "DefaultCibaInterval = 5 * Second"
definition CibaSlowDownIncrement :: duration where "CibaSlowDownIncrement = 5 * Second"
definition cibaSignedRequestLifetime :: duration where "cibaSignedRequestLifetime = 300 * Second"

definition CibaDeliveryPoll :: bytes where "CibaDeliveryPoll = ''poll''"
definition CibaDeliveryPing :: bytes where "CibaDeliveryPing = ''ping''"
definition CibaSigningPS256 :: bytes where "CibaSigningPS256 = ''PS256''"
definition CibaSigningES256 :: bytes where "CibaSigningES256 = ''ES256''"
definition CibaSigningEdDSA :: bytes where "CibaSigningEdDSA = ''EdDSA''"

text \<open>A public key by its type: an ECDSA key with whether its curve is P-256, an RSA key with its size.\<close>

datatype public_key = Ed25519Key | EcdsaKey bool | RsaKey nat | OtherKey
datatype sign_opts = NoHash | Sha256Hash | PssSha256

record 'w crypto_signer =
  sk_public :: public_key
  sk_sign :: "bytes \<Rightarrow> sign_opts \<Rightarrow> 'w \<Rightarrow> bytes option \<times> 'w"

record 'w CibaRequestSigner =
  sg_alg :: bytes
  sg_key :: "'w crypto_signer"
  sg_kid :: bytes

record signing_lib =
  sl_sha :: "bytes \<Rightarrow> bytes"
  sl_asn1 :: "bytes \<Rightarrow> (int \<times> int) option"

text \<open>\<open>(*big.Int).FillBytes\<close> of \<open>n\<close> bytes: the absolute value, big-endian; it panics when that does not fit.\<close>

definition fill_bytes :: "nat \<Rightarrow> int \<Rightarrow> bytes option" where
  "fill_bytes n x =
     (let v = nat \<bar>x\<bar> in if v < 256 ^ n then Some (map (\<lambda>i. char_of (v div 256 ^ (n - 1 - i))) [0..<n]) else None)"

datatype signature = Signed bytes | SignError | SignPanic

definition ciba_sign :: "signing_lib \<Rightarrow> 'w CibaRequestSigner \<Rightarrow> bytes \<Rightarrow> 'w \<Rightarrow> signature \<times> 'w" where
  "ciba_sign lib s input w =
     (if sg_alg s = CibaSigningEdDSA
      then (case sk_sign (sg_key s) input NoHash w of (r, w1) \<Rightarrow> (case r of None \<Rightarrow> SignError | Some b \<Rightarrow> Signed b, w1))
      else if sg_alg s = CibaSigningES256
      then (case sk_sign (sg_key s) (sl_sha lib input) Sha256Hash w of
              (None, w1) \<Rightarrow> (SignError, w1)
            | (Some der, w1) \<Rightarrow>
              (case sl_asn1 lib der of
                 None \<Rightarrow> (SignError, w1)
               | Some (r, t) \<Rightarrow>
                 (case (fill_bytes 32 r, fill_bytes 32 t) of
                    (Some rb, Some tb) \<Rightarrow> (Signed (rb @ tb), w1)
                  | _ \<Rightarrow> (SignPanic, w1))))
      else (case sk_sign (sg_key s) (sl_sha lib input) PssSha256 w of (r, w1) \<Rightarrow> (case r of None \<Rightarrow> SignError | Some b \<Rightarrow> Signed b, w1)))"

definition signing_refusal :: "bytes \<Rightarrow> go_error" where
  "signing_refusal why = localRefusal ''ciba_initiate'' ''signing_key'' why"

text \<open>Why a key does not fit an algorithm.\<close>

definition key_refusal :: "bytes \<Rightarrow> public_key \<Rightarrow> bytes option" where
  "key_refusal alg key =
     (if alg = CibaSigningEdDSA
      then if key = Ed25519Key then None else Some ''an EdDSA signer needs an Ed25519 key''
      else if alg = CibaSigningES256
      then if key = EcdsaKey True then None else Some ''an ES256 signer needs an ECDSA P-256 key''
      else if alg = CibaSigningPS256
      then (case key of RsaKey bits \<Rightarrow> if bits < 2048 then Some ''a PS256 signer needs an RSA key of 2048 bits or more'' else None
            | _ \<Rightarrow> Some ''a PS256 signer needs an RSA key of 2048 bits or more'')
      else Some ''the algorithm must be PS256, ES256 or EdDSA'')"

text \<open>The error a panic of \<open>FillBytes\<close> is taken as, where a result must be an error or a value.\<close>

definition big_panic :: go_error where "big_panic = EPlain ''math/big: buffer too small to fit value''"

definition NewCibaRequestSigner ::
  "signing_lib \<Rightarrow> bytes \<Rightarrow> 'w crypto_signer option \<Rightarrow> bytes \<Rightarrow> 'w \<Rightarrow> (go_error + 'w CibaRequestSigner) \<times> 'w" where
  "NewCibaRequestSigner lib alg key kid w =
     (case key of
        None \<Rightarrow> (Inl (signing_refusal ''no signing key was given''), w)
      | Some k \<Rightarrow>
        (case key_refusal alg (sk_public k) of
           Some why \<Rightarrow> (Inl (signing_refusal why), w)
         | None \<Rightarrow>
           (let signer = \<lparr>sg_alg = alg, sg_key = k, sg_kid = kid\<rparr> in
            case ciba_sign lib signer ''axiam-ciba-probe'' w of
              (Signed b, w1) \<Rightarrow> (Inr signer, w1)
            | (SignError, w1) \<Rightarrow> (Inl (signing_refusal ''the key failed a probe signature''), w1)
            | (SignPanic, w1) \<Rightarrow> (Inl big_panic, w1))))"

text \<open>The PEM block of a key, and the parsers of its body by type; a body that is no signer is \<open>None\<close>.\<close>

record 'w pem_lib =
  pl_decode :: "bytes \<Rightarrow> (bytes \<times> bytes) option"
  pl_pkcs1 :: "bytes \<Rightarrow> 'w crypto_signer option"
  pl_ec :: "bytes \<Rightarrow> 'w crypto_signer option"
  pl_pkcs8 :: "bytes \<Rightarrow> 'w crypto_signer option"

definition NewCibaRequestSignerFromPEM ::
  "signing_lib \<Rightarrow> 'w pem_lib \<Rightarrow> bytes \<Rightarrow> bytes \<Rightarrow> bytes \<Rightarrow> 'w \<Rightarrow> (go_error + 'w CibaRequestSigner) \<times> 'w" where
  "NewCibaRequestSignerFromPEM lib pem alg keyPEM kid w =
     (case pl_decode pem keyPEM of
        None \<Rightarrow> (Inl (signing_refusal ''the PEM holds no private key''), w)
      | Some (typ, body) \<Rightarrow>
        (case (if typ = ''RSA PRIVATE KEY'' then pl_pkcs1 pem body
               else if typ = ''EC PRIVATE KEY'' then pl_ec pem body else pl_pkcs8 pem body) of
           None \<Rightarrow> (Inl (signing_refusal ''the PEM holds no usable private key''), w)
         | Some signer \<Rightarrow> NewCibaRequestSigner lib alg (Some signer) kid w))"

section \<open>Initiation\<close>

record 'w CibaInitiateParams =
  ci_Scope :: bytes
  ci_LoginHint :: bytes
  ci_IDTokenHint :: bytes
  ci_BindingMessage :: bytes
  ci_RequestedExpiry :: int
  ci_AcrValues :: bytes
  ci_Resource :: bytes
  ci_Delivery :: bytes
  ci_ClientNotificationToken :: bytes
  ci_Signer :: "'w CibaRequestSigner option"
  ci_TenantID :: bytes
  ci_Configuration :: "OidcConfiguration option"

record CibaInitiateResponse =
  cr_AuthReqID :: bytes
  cr_ExpiresIn :: int
  cr_Interval :: int
  cr_ReceivedAt :: time

definition cibaClientAuth :: "('ks, 'key, 'w) oidc_env \<Rightarrow> bytes \<Rightarrow> go_error + form" where
  "cibaClientAuth env operation =
     (if oe_clientID env = []
      then Inl (AuthError (operation @ '' requires a client_id: construct the Client with WithOidcClientID''))
      else if oe_clientSecret env = [] \<and> \<not> cl_presentsClientCertificate (oe_client env)
      then Inl (AuthError (operation @ '' requires client authentication: construct the Client with WithOidcClientSecret or a client certificate''))
      else Inr (appendOidcClientSecret env (form_of [(True, ''client_id'', oe_clientID env)])))"

datatype member = MStr bytes | MInt int

fun member_json :: "member \<Rightarrow> json" where
  "member_json (MStr s) = json_string True s"
| "member_json (MInt i) = JNum (show_int i)"

fun member_text :: "member \<Rightarrow> bytes" where
  "member_text (MStr s) = s"
| "member_text (MInt i) = show_int i"

text \<open>A \<open>map[string]any\<close> as the list of its entries, in the order they are set.\<close>

definition cibaMembers :: "'w CibaInitiateParams \<Rightarrow> (bytes \<times> member) list" where
  "cibaMembers params =
     (''scope'', MStr (ci_Scope params))
     # (if ci_LoginHint params \<noteq> [] then [(''login_hint'', MStr (ci_LoginHint params))] else [])
     @ (if ci_IDTokenHint params \<noteq> [] then [(''id_token_hint'', MStr (ci_IDTokenHint params))] else [])
     @ (if ci_BindingMessage params \<noteq> [] then [(''binding_message'', MStr (ci_BindingMessage params))] else [])
     @ (if ci_RequestedExpiry params \<noteq> 0 then [(''requested_expiry'', MInt (ci_RequestedExpiry params))] else [])
     @ (if ci_AcrValues params \<noteq> [] then [(''acr_values'', MStr (ci_AcrValues params))] else [])
     @ (if ci_Resource params \<noteq> [] then [(''resource'', MStr (ci_Resource params))] else [])
     @ (if ci_Delivery params = CibaDeliveryPing
        then [(''client_notification_token'', MStr (ci_ClientNotificationToken params))] else [])"

definition checkCibaInitiate :: "'w CibaInitiateParams \<Rightarrow> go_error option" where
  "checkCibaInitiate params =
     (if (ci_LoginHint params = []) = (ci_IDTokenHint params = [])
      then Some (localRefusal ''ciba_initiate'' ''login_hint'' ''set exactly one of login_hint and id_token_hint'')
      else if ci_Delivery params = [] \<or> ci_Delivery params = CibaDeliveryPoll
      then if ci_ClientNotificationToken params \<noteq> []
        then Some (localRefusal ''ciba_initiate'' ''client_notification_token'' ''a client_notification_token belongs to a ping-mode request; set Delivery to CibaDeliveryPing'')
        else None
      else if ci_Delivery params = CibaDeliveryPing
      then if ci_ClientNotificationToken params = []
        then Some (localRefusal ''ciba_initiate'' ''client_notification_token'' ''a ping-mode request needs a client_notification_token: without one AXIAM has nothing to ping with'')
        else None
      else Some (localRefusal ''ciba_initiate'' ''delivery'' ''must be poll or ping; AXIAM offers no push mode''))"

text \<open>\<open>json.Marshal\<close> of a map: the members by key.\<close>

definition marshal_map :: "(bytes \<times> member) list \<Rightarrow> bytes" where
  "marshal_map ms = obj_body (map (\<lambda>(k, v). (k, member_json v)) (sort_key fst ms))"

definition signed_claims :: "'w CibaInitiateParams \<Rightarrow> bytes \<Rightarrow> bytes \<Rightarrow> int \<Rightarrow> bytes \<Rightarrow> (bytes \<times> member) list" where
  "signed_claims params clientID issuer now jti =
     cibaMembers params @ [(''iss'', MStr clientID), (''aud'', MStr issuer), (''iat'', MInt now), (''nbf'', MInt now),
       (''exp'', MInt (wrap64 (now + cibaSignedRequestLifetime div Second))), (''jti'', MStr (b64url_encode jti))]"

definition cibaSignedRequest ::
  "('ks, 'key, 'w) oidc_env \<Rightarrow> signing_lib \<Rightarrow> 'w CibaRequestSigner \<Rightarrow> 'w CibaInitiateParams \<Rightarrow> bytes \<Rightarrow> bytes \<Rightarrow>
   (('ks, 'key, 'w) oidc_world, bytes) act" where
  "cibaSignedRequest env lib signer params clientID issuer x =
     (let now = unix_seconds (oidc_now env x); (jti, w) = oe_random env 16 (ow_ext x);
          header = (''alg'', MStr (sg_alg signer)) # (if sg_kid signer \<noteq> [] then [(''kid'', MStr (sg_kid signer))] else []);
          input = b64url_encode (marshal_map header) @ ''.'' @
            b64url_encode (marshal_map (signed_claims params clientID issuer now jti));
          (signature, w1) = ciba_sign lib signer input w
      in (case signature of
            Signed b \<Rightarrow> Inr (input @ ''.'' @ b64url_encode b)
          | SignError \<Rightarrow> Inl (signing_refusal ''the signed request could not be signed with the given key'')
          | SignPanic \<Rightarrow> Inl big_panic, x\<lparr>ow_ext := w1\<rparr>))"

definition postCibaForm ::
  "('ks, 'key, 'w) oidc_env \<Rightarrow> bytes \<Rightarrow> url \<Rightarrow> form \<Rightarrow> (('ks, 'key, 'w) oidc_world, http_reply) act" where
  "postCibaForm env operation target f x =
     (case oidc_do env (set_header ''Accept'' ''application/json'' (form_request target f)) x of
        (Inl e, x1) \<Rightarrow> (Inl (newNetworkError (operation @ '': request failed'') None None), x1)
      | (Inr resp, x1) \<Rightarrow> (Inr resp, x1))"

definition decode_ciba_initiate :: "bytes \<Rightarrow> (bytes \<times> int \<times> int) option" where
  "decode_ciba_initiate body =
     Option.bind (stream_members body) (\<lambda>ms.
     let f = (\<lambda>n. field_values [''auth_req_id'', ''expires_in'', ''interval''] n ms) in
     Option.bind (dec_string [] (f ''auth_req_id'')) (\<lambda>i.
     Option.bind (dec_int64 0 (f ''expires_in'')) (\<lambda>e.
     Option.bind (dec_int64 0 (f ''interval'')) (\<lambda>v. Some (i, e, v)))))"

definition ciba_open :: "('ks, 'key, 'w) oidc_env \<Rightarrow> bytes \<Rightarrow> (('ks, 'key, 'w) oidc_world, form) act" where
  "ciba_open env operation =
     act_bind (act_get (\<lambda>x. case ensureOpen (ow_session x) of Some e \<Rightarrow> Inl e | None \<Rightarrow> Inr ())) (\<lambda>_.
     act_lift (cibaClientAuth env operation))"

definition initiate_result :: "('ks, 'key, 'w) oidc_env \<Rightarrow> http_reply \<Rightarrow> ('ks, 'key, 'w) oidc_world \<Rightarrow> go_error + CibaInitiateResponse" where
  "initiate_result env resp x =
     (if rs_status resp < 200 \<or> rs_status resp \<ge> 300 then Inl (oauth2ErrorAnyStatus (oe_until env) ''ciba_initiate'' resp)
      else case decode_ciba_initiate (rs_body resp) of
          None \<Rightarrow> Inl (NetworkError ''ciba_initiate: the response is not a CibaInitiateResponse'')
        | Some (i, e, v) \<Rightarrow>
            if i = [] then Inl (NetworkError ''ciba_initiate: the response is not a CibaInitiateResponse'')
            else Inr \<lparr>cr_AuthReqID = i, cr_ExpiresIn = e, cr_Interval = (if v \<le> 0 then DefaultCibaInterval div Second else v),
                      cr_ReceivedAt = oidc_now env x\<rparr>)"

definition CibaInitiate ::
  "('ks, 'key, 'w) oidc_env \<Rightarrow> signing_lib \<Rightarrow> 'w CibaInitiateParams \<Rightarrow> (('ks, 'key, 'w) oidc_world, CibaInitiateResponse) act" where
  "CibaInitiate env lib params =
     act_bind (ciba_open env ''ciba_initiate'') (\<lambda>f.
     act_bind (act_lift (case checkCibaInitiate params of Some e \<Rightarrow> Inl e | None \<Rightarrow> Inr ())) (\<lambda>_.
     act_bind (resolveOidcConfiguration env (ci_Configuration params)) (\<lambda>configuration.
     act_bind (act_lift (preferredEndpoint env configuration ma_BackchannelAuthenticationEndpoint
         (oc_BackchannelAuthenticationEndpoint configuration))) (\<lambda>endpoint.
     act_bind (act_lift (if endpoint = []
         then Inl (AuthError ''the authorization server's discovery document advertises no backchannel_authentication_endpoint: this server does not support CIBA'')
         else Inr ())) (\<lambda>_.
     act_bind (act_get (oidcEndpointURL env endpoint (ci_TenantID params))) (\<lambda>target.
     act_bind (case ci_Signer params of
         Some signer \<Rightarrow> act_bind (cibaSignedRequest env lib signer params (oe_clientID env) (oc_Issuer configuration)) (\<lambda>request.
           act_lift (Inr (values_set ''request'' request f)))
       | None \<Rightarrow> act_lift (Inr (fold (\<lambda>(k, v). values_set k (member_text v)) (cibaMembers params) f))) (\<lambda>form.
     act_bind (postCibaForm env ''ciba_initiate'' target form) (\<lambda>resp.
     act_get (initiate_result env resp)))))))))"

section \<open>One poll\<close>

definition errCibaExpired :: go_error where
  "errCibaExpired = protocol_error
     ''expired_token: the CIBA request expired before it was decided (client-side deadline from expires_in)''
     ''expired_token'' ''the CIBA request expired before it was decided'' 0"

definition ciba_op ::
  "('ks, 'key, 'w) oidc_env \<Rightarrow> url \<Rightarrow> form \<Rightarrow> nat \<Rightarrow> poll_vars \<times> ('ks, 'key, 'w) oidc_world \<Rightarrow>
   go_error option \<times> (poll_vars \<times> ('ks, 'key, 'w) oidc_world)" where
  "ciba_op env u f attempt vx =
     (case vx of ((wire, decisive), x) \<Rightarrow>
      (case postCibaForm env ''ciba_poll'' u f x of
         (Inl err, x1) \<Rightarrow> (Some err, ((wire, decisive), x1))
       | (Inr resp, x1) \<Rightarrow>
           if rs_status resp \<ge> 500 then (Some (status_error (oe_until env) ''ciba_poll'' resp), ((wire, decisive), x1))
           else if rs_status resp < 200 \<or> rs_status resp \<ge> 300
           then (let mapped = oauth2ErrorAnyStatus (oe_until env) ''ciba_poll'' resp in
                 if errors_as_oauth mapped \<noteq> None \<or> \<not> statusIsRetryable (rs_status resp)
                 then (Some errStopRetry, ((wire, Some mapped), x1))
                 else (Some mapped, ((wire, decisive), x1)))
           else (case decode_token (rs_body resp) of
                   None \<Rightarrow> (Some errStopRetry, ((wire, Some (NetworkError ''ciba_poll: could not decode the token response'')), x1))
                 | Some t \<Rightarrow> (None, ((t, decisive), x1)))))"

definition ciba_target ::
  "('ks, 'key, 'w) oidc_env \<Rightarrow> bytes \<Rightarrow> OidcConfiguration option \<Rightarrow> (('ks, 'key, 'w) oidc_world, form \<times> OidcConfiguration \<times> url) act" where
  "ciba_target env tenantID provided =
     act_bind (ciba_open env ''ciba_poll'') (\<lambda>f.
     act_bind (poll_target env tenantID provided) (\<lambda>(configuration, target).
     act_lift (Inr (f, configuration, target))))"

text \<open>The result with its \<open>transient\<close> flag.\<close>

definition cibaPoll ::
  "('ks, 'key, 'w) oidc_env \<Rightarrow> ('ks, 'key, 'w) oidc_world retry_client \<Rightarrow> ('ks, 'key, 'w) oidc_world retry_deadline option \<Rightarrow>
   bytes \<Rightarrow> bytes \<Rightarrow> OidcConfiguration option \<Rightarrow> ('ks, 'key, 'w) oidc_world \<Rightarrow>
   (bool \<times> (go_error + OidcTokenSet)) \<times> ('ks, 'key, 'w) oidc_world" where
  "cibaPoll env rc bound authReqID tenantID provided x =
     (case ciba_target env tenantID provided x of
        (Inl e, x1) \<Rightarrow> ((False, Inl e), x1)
      | (Inr (f, configuration, target), x1) \<Rightarrow>
        (case retryReadOnlyUntil (lift_client rc) ''ciba_poll'' (map_option lift_deadline bound)
                (ciba_op env target (values_set ''auth_req_id'' authReqID (values_set ''grant_type'' CibaGrantType f)))
                ((zero_wire, None), x1) of
           ((retryErr, ((wire, decisive), x2)), acts) \<Rightarrow>
             (case decisive of
                Some e \<Rightarrow> ((False, Inl e), x2)
              | None \<Rightarrow>
                (case retryErr of
                   Some e \<Rightarrow>
                     if e = errRetryDeadline then ((False, Inl errCibaExpired), x2)
                     else (((case e of ENetwork m r c \<Rightarrow> True | _ \<Rightarrow> False), Inl e), x2)
                 | None \<Rightarrow>
                   (case toTokenSet env wire configuration (expectations env configuration None) x2 of
                      (r, x3) \<Rightarrow> ((False, r), x3))))))"

definition CibaPoll where
  "CibaPoll env rc authReqID tenantID provided x =
     (case cibaPoll env rc None authReqID tenantID provided x of ((transient, r), x1) \<Rightarrow> (r, x1))"

section \<open>Waiting for the decision\<close>

text \<open>The next interval and floor after a failed poll, or \<open>None\<close> where the loop stops with the error.\<close>

definition ciba_next :: "bool \<Rightarrow> go_error \<Rightarrow> duration \<Rightarrow> (duration \<times> duration) option" where
  "ciba_next transient err interval =
     (let code = (case errors_as_oauth err of None \<Rightarrow> None | Some p \<Rightarrow> Some (op_error_code p)) in
      if code = Some ''slow_down'' then Some (wrap64 (interval + CibaSlowDownIncrement), 0)
      else if code = Some ''authorization_pending'' \<or> code = Some ''rate_limit_exceeded''
      then Some (interval, if code = Some ''rate_limit_exceeded''
                   then (case errors_as_oauth err of None \<Rightarrow> 0 | Some p \<Rightarrow> op_retry_after p) else 0)
      else if transient then Some (interval, 0)
      else None)"

partial_function (option) ciba_loop ::
  "('x \<Rightarrow> time) \<Rightarrow> (duration \<Rightarrow> 'x \<Rightarrow> go_error option \<times> 'x) \<Rightarrow> ('x \<Rightarrow> (bool \<times> (go_error + 'a)) \<times> 'x) \<Rightarrow> time \<Rightarrow>
   duration \<Rightarrow> duration \<Rightarrow> 'x \<Rightarrow> ((go_error + 'a) \<times> 'x \<times> duration list) option" where
  "ciba_loop clock sleep poll deadline interval least x =
     (let wait = (if least > interval then least else interval) in
      if \<not> clock x + wait < deadline then Some (Inl errCibaExpired, x, [])
      else let (waited, x1) = sleep wait x in
        (case waited of
           Some e \<Rightarrow> Some (Inl e, x1, [wait])
         | None \<Rightarrow> let ((transient, answer), x2) = poll x1 in
           (case answer of
              Inr a \<Rightarrow> Some (Inr a, x2, [wait])
            | Inl err \<Rightarrow>
              (case ciba_next transient err interval of
                 None \<Rightarrow> Some (Inl err, x2, [wait])
               | Some nxt \<Rightarrow> Option.bind (ciba_loop clock sleep poll deadline (fst nxt) (snd nxt) x2)
                   (\<lambda>(r, x3, ws). Some (r, x3, wait # ws))))))"

record 'x CibaAwaitParams =
  cw_TenantID :: bytes
  cw_Configuration :: "OidcConfiguration option"
  cw_Now :: "'x \<Rightarrow> time"
  cw_Sleep :: "duration \<Rightarrow> 'x \<Rightarrow> go_error option \<times> 'x"
  cw_AdoptAsCredential :: bool

definition ciba_deadline :: "CibaInitiateResponse \<Rightarrow> time" where
  "ciba_deadline initiated = cr_ReceivedAt initiated + wrap64 (cr_ExpiresIn initiated * Second)"

definition ciba_interval :: "CibaInitiateResponse \<Rightarrow> duration" where
  "ciba_interval initiated =
     (let interval = wrap64 (cr_Interval initiated * Second) in if interval \<le> 0 then DefaultCibaInterval else interval)"

definition CibaAwait ::
  "('ks, 'key, 'w) oidc_env \<Rightarrow> ('ks, 'key, 'w) oidc_world retry_client \<Rightarrow> CibaInitiateResponse \<Rightarrow>
   ('ks, 'key, 'w) oidc_world CibaAwaitParams \<Rightarrow> ('ks, 'key, 'w) oidc_world \<Rightarrow>
   ((go_error + OidcTokenSet) \<times> ('ks, 'key, 'w) oidc_world \<times> duration list) option" where
  "CibaAwait env rc initiated params x =
     (case resolveOidcConfiguration env (cw_Configuration params) x of
        (Inl e, x1) \<Rightarrow> Some (Inl e, x1, [])
      | (Inr configuration, x1) \<Rightarrow>
        (let deadline = ciba_deadline initiated;
             bound = \<lparr>rd_at = deadline, rd_now = cw_Now params, rd_sleep = cw_Sleep params\<rparr>
         in case ciba_loop (cw_Now params) (cw_Sleep params)
                   (cibaPoll env rc (Some bound) (cr_AuthReqID initiated) (cw_TenantID params) (Some configuration))
                   deadline (ciba_interval initiated) 0 x1 of
              None \<Rightarrow> None
            | Some (Inl e, x2, ws) \<Rightarrow> Some (Inl e, x2, ws)
            | Some (Inr tokens, x2, ws) \<Rightarrow>
                Some (Inr tokens, if cw_AdoptAsCredential params
                  then x2\<lparr>ow_session := adopt_credential (ts_AccessToken tokens) (ow_session x2)\<rparr> else x2, ws)))"

section \<open>The ping callback\<close>

definition rawString :: "json option \<Rightarrow> bytes option" where
  "rawString raw = (case raw of None \<Rightarrow> None | Some v \<Rightarrow> dec_string [] [v])"

definition ping_refused :: go_error where
  "ping_refused = AuthError ''ciba ping refused: the Authorization header is not the expected bearer''"

definition bearer_values :: "http_header \<Rightarrow> bytes list" where
  "bearer_values h = concat (map (\<lambda>(name, v). if equal_fold name ''Authorization'' then v else []) h)"

definition CibaHandlePing :: "http_header \<Rightarrow> bytes \<Rightarrow> bytes \<Rightarrow> go_error + bytes" where
  "CibaHandlePing hdrs body expectedToken =
     (case bearer_values hdrs of
        [value] \<Rightarrow>
          (case cut CHR '' '' value of
             None \<Rightarrow> Inl ping_refused
           | Some (scheme, token) \<Rightarrow>
             if \<not> equal_fold scheme ''Bearer'' \<or> token = [] then Inl ping_refused
             else if expectedToken = [] \<or> \<not> constantTimeEquals token expectedToken then Inl ping_refused
             else (case parse_json body of
                     Some (JObj ms) \<Rightarrow>
                       (case rawString (any_member ''auth_req_id'' (unquote_keys ms)) of
                          None \<Rightarrow> Inl (localRefusal ''ciba_handle_ping'' ''auth_req_id'' ''the ping body carries no non-empty auth_req_id string'')
                        | Some i \<Rightarrow>
                          if i = [] then Inl (localRefusal ''ciba_handle_ping'' ''auth_req_id'' ''the ping body carries no non-empty auth_req_id string'')
                          else Inr i)
                   | _ \<Rightarrow> Inl (localRefusal ''ciba_handle_ping'' ''body'' ''the ping body is not a JSON object'')))
      | _ \<Rightarrow> Inl ping_refused)"

section \<open>Answers that end a poll\<close>

lemma retry_not_network:
  assumes "op 1 w = (Some e, w1)" "network_retry_after e = None"
  shows "retryReadOnlyUntil c operation bound op w = ((Some e, w1), [Call 1 (Some e)])"
  using assms by (simp add: retryReadOnlyUntil_def retry_loop.simps)

lemma next_schedule_network: "next_schedule (ENetwork m r None) p = Some (rateLimited r p)"
  by (simp add: next_schedule_def errors_as_oauth.simps errors_as_network.simps)

definition device_form :: "('ks, 'key, 'w) oidc_env \<Rightarrow> bytes \<Rightarrow> form" where
  "device_form env code = appendOidcClientSecret env (form_of [(True, ''grant_type'', deviceCodeGrantType),
     (True, ''device_code'', code), (True, ''client_id'', oe_clientID env)])"

lemma device_poll_undecodable:
  assumes "poll_target env tenantID provided x = (Inr (configuration, u), x1)"
    "oidc_do env (form_request u (device_form env code)) x1 = (Inr resp, x2)"
    "rs_status resp = 200" "decode_token (rs_body resp) = None"
  shows "devicePoll env rc bound code tenantID provided x = (Inl deserErr, x2) \<and>
     next_schedule deserErr p = Some (rateLimited 0 p)"
  using assms
  by (simp add: devicePoll_def act_bind_def retry_not_network device_op_def errStopRetry_def network_retry_after_def
      deserErr_def NetworkError_def next_schedule_network device_form_def)

lemma ciba_poll_undecodable:
  assumes "ciba_target env tenantID provided x = (Inr (f, configuration, u), x1)"
    "postCibaForm env ''ciba_poll'' u (values_set ''auth_req_id'' reqID (values_set ''grant_type'' CibaGrantType f)) x1 = (Inr resp, x2)"
    "rs_status resp = 200" "decode_token (rs_body resp) = None"
  shows "\<exists>e. cibaPoll env rc bound reqID tenantID provided x = ((False, Inl e), x2) \<and> ciba_next False e i = None"
  using assms
  by (simp add: cibaPoll_def retry_not_network ciba_op_def errStopRetry_def network_retry_after_def
      NetworkError_def ciba_next_def errors_as_oauth.simps)

text \<open>
  (C27) A 200 response to a poll has redeemed the grant. When its body does not decode, both polls report a network
  error without retrying; the loop of a device login takes that for a failed request and polls on with a spent
  code, while a CIBA poll marks it as not transient and its loop stops with it.
\<close>

theorem undecodable_token_response:
  "(case poll_target env tenantID provided x of
      (Inl e, x1) \<Rightarrow> devicePoll env rc bound code tenantID provided x = (Inl e, x1)
    | (Inr (configuration, u), x1) \<Rightarrow>
      (case oidc_do env (form_request u (device_form env code)) x1 of
         (Inl e, x2) \<Rightarrow> True
       | (Inr resp, x2) \<Rightarrow>
           if rs_status resp = 200 \<and> decode_token (rs_body resp) = None
           then devicePoll env rc bound code tenantID provided x = (Inl deserErr, x2) \<and>
             next_schedule deserErr p = Some (rateLimited 0 p)
           else True)) \<and>
   (case ciba_target env tenantID provided x of
      (Inl e, x1) \<Rightarrow> cibaPoll env rc bound code tenantID provided x = ((False, Inl e), x1)
    | (Inr (f, configuration, u), x1) \<Rightarrow>
      (case postCibaForm env ''ciba_poll'' u (values_set ''auth_req_id'' code (values_set ''grant_type'' CibaGrantType f)) x1 of
         (Inl e, x2) \<Rightarrow> True
       | (Inr resp, x2) \<Rightarrow>
           if rs_status resp = 200 \<and> decode_token (rs_body resp) = None
           then \<exists>e. cibaPoll env rc bound code tenantID provided x = ((False, Inl e), x2) \<and> ciba_next False e i = None
           else True))"
proof (rule conjI, goal_cases)
  case 1
  show ?case
    using device_poll_undecodable [of env tenantID provided x _ _ _ code _ _ rc bound p]
    by (auto simp: devicePoll_def act_bind_def split: prod.split sum.split)
next
  case 2
  show ?case
    using ciba_poll_undecodable [of env tenantID provided x _ _ _ _ code _ _ rc bound i]
    by (auto simp: cibaPoll_def split: prod.split sum.split)
qed

section \<open>Waiting ends\<close>

lemma ciba_next_interval:
  assumes "ciba_next transient e interval = Some nxt" "0 < interval" "interval \<le> max_int64 - CibaSlowDownIncrement"
  shows "interval \<le> fst nxt"
proof -
  have "CibaSlowDownIncrement = 5000000000" by (simp add: CibaSlowDownIncrement_def Second_def)
  moreover from this have "in_int64 (interval + CibaSlowDownIncrement)"
    using assms(2,3) by (simp add: in_int64_def min_int64_def)
  ultimately show ?thesis
    using assms(1) by (auto simp: ciba_next_def Let_def split: if_splits)
qed

definition clock_runs :: "('x \<Rightarrow> time) \<Rightarrow> (duration \<Rightarrow> 'x \<Rightarrow> go_error option \<times> 'x) \<Rightarrow> ('x \<Rightarrow> 'b \<times> 'x) \<Rightarrow> bool" where
  "clock_runs clock sleep poll \<longleftrightarrow>
     (\<forall>d x. if fst (sleep d x) = None then clock x + d \<le> clock (snd (sleep d x)) else True) \<and>
     (\<forall>x. clock x \<le> clock (snd (poll x)))"

lemma ciba_loop_ends:
  assumes laws: "clock_runs clock sleep poll" and "0 < interval" "deadline - clock x \<le> max_int64 - CibaSlowDownIncrement"
  shows "\<exists>r x' ws. ciba_loop clock sleep poll deadline interval least x = Some (r, x', ws) \<and>
     sum_list ws \<le> max 0 (deadline - clock x - 1) \<and> (\<forall>w \<in> set ws. interval \<le> w)"
  using assms(2,3)
proof (induction "nat (deadline - clock x)" arbitrary: interval least x rule: less_induct)
  case less
  define wait where "wait = (if least > interval then least else interval)"
  obtain waited x1 where s: "sleep wait x = (waited, x1)" by fastforce
  obtain transient answer x2 where q: "poll x1 = ((transient, answer), x2)" by (metis prod.exhaust)
  have unf: "ciba_loop clock sleep poll deadline interval least x =
     (if \<not> clock x + wait < deadline then Some (Inl errCibaExpired, x, [])
      else (case waited of Some e \<Rightarrow> Some (Inl e, x1, [wait])
        | None \<Rightarrow> (case answer of Inr a \<Rightarrow> Some (Inr a, x2, [wait])
          | Inl err \<Rightarrow> (case ciba_next transient err interval of None \<Rightarrow> Some (Inl err, x2, [wait])
             | Some nxt \<Rightarrow> Option.bind (ciba_loop clock sleep poll deadline (fst nxt) (snd nxt) x2)
                 (\<lambda>(r, x3, ws). Some (r, x3, wait # ws))))))"
    by (subst ciba_loop.simps) (simp add: Let_def s q flip: wait_def split: option.split)
  have wait: "interval \<le> wait" by (simp add: wait_def)
  show ?case
  proof (cases "clock x + wait < deadline \<and> waited = None \<and> (\<exists>e nxt. answer = Inl e \<and> ciba_next transient e interval = Some nxt)")
    case False
    then have "\<exists>r x'. ciba_loop clock sleep poll deadline interval least x = Some (r, x', []) \<or>
        clock x + wait < deadline \<and> ciba_loop clock sleep poll deadline interval least x = Some (r, x', [wait])"
      by (auto simp: unf split: option.split sum.split)
    then show ?thesis using wait less.prems(1) by fastforce
  next
    case True
    then obtain e nxt where *: "clock x + wait < deadline" "waited = None" "answer = Inl e"
        "ciba_next transient e interval = Some nxt"
      by blast
    have later: "clock x + wait \<le> clock x2"
      using laws [unfolded clock_runs_def] s q *(2) by (metis (no_types, lifting) fst_conv order_trans snd_conv)
    have nxt: "interval \<le> fst nxt"
      using ciba_next_interval [OF *(4) less.prems(1)] *(1) wait less.prems by linarith
    obtain r x' ws where "ciba_loop clock sleep poll deadline (fst nxt) (snd nxt) x2 = Some (r, x', ws)"
        "sum_list ws \<le> max 0 (deadline - clock x2 - 1)" "\<forall>w \<in> set ws. fst nxt \<le> w"
      using less.hyps [of x2 "fst nxt" "snd nxt"] later nxt wait less.prems *(1) by fastforce
    moreover from this have "wait + sum_list ws \<le> max 0 (deadline - clock x - 1)" "\<forall>w \<in> set ws. interval \<le> w"
      using later *(1) nxt by (linarith, force)
    ultimately show ?thesis using * wait by (simp add: unf)
  qed
qed

text \<open>
  (C12) Waiting for a CIBA decision ends whatever the server answers, when the clock advances by what is slept and the
  deadline is representable with one slow-down to spare: the waits sum to less than the time left at the start, and
  each is at least the interval asked for.
\<close>

theorem ciba_await_ends:
  assumes "clock_runs clock sleep poll" "ciba_deadline initiated - clock x \<le> max_int64 - CibaSlowDownIncrement"
  shows "\<exists>r x' ws. ciba_loop clock sleep poll (ciba_deadline initiated) (ciba_interval initiated) 0 x = Some (r, x', ws) \<and>
     sum_list ws \<le> max 0 (ciba_deadline initiated - clock x - 1) \<and> (\<forall>w \<in> set ws. ciba_interval initiated \<le> w)"
proof -
  have "0 < ciba_interval initiated"
    by (simp add: ciba_interval_def Let_def DefaultCibaInterval_def Second_def)
  then show ?thesis by (rule ciba_loop_ends [OF assms(1) _ assms(2)])
qed

theorem ciba_await_ends_witness:
  "let initiated = \<lparr>cr_AuthReqID = ''r'', cr_ExpiresIn = 60, cr_Interval = 5, cr_ReceivedAt = 1000\<rparr> in
   \<exists>r x' ws. ciba_loop (\<lambda>t. t) (\<lambda>d t. (None, t + d)) (\<lambda>t. ((True, Inl (NetworkError ''down'') :: go_error + nat), t))
     (ciba_deadline initiated) (ciba_interval initiated) 0 1000 = Some (r, x', ws) \<and> sum_list ws < 60000000000"
  using ciba_await_ends [of "\<lambda>t. t" "\<lambda>d t. (None, t + d)" "\<lambda>t. ((True, Inl (NetworkError ''down'') :: go_error + nat), t)"
      "\<lparr>cr_AuthReqID = ''r'', cr_ExpiresIn = 60, cr_Interval = 5, cr_ReceivedAt = 1000\<rparr>" 1000]
  by (auto simp: clock_runs_def ciba_deadline_def wrap64_eq Second_def max_int64_def CibaSlowDownIncrement_def Let_def)

section \<open>Pings\<close>

text \<open>
  (C28) A ping is accepted exactly when the request carries one Authorization value, a bearer token equal to the
  non-empty expected one, and its body is an object whose \<open>auth_req_id\<close> is a non-empty string; that string is
  the result. Without the right token the body does not matter.
\<close>

theorem ping_accepted_iff:
  "(CibaHandlePing hdrs body expectedToken = Inr i \<longleftrightarrow>
     (\<exists>value scheme ms v. bearer_values hdrs = [value] \<and> cut CHR '' '' value = Some (scheme, expectedToken) \<and>
        equal_fold scheme ''Bearer'' \<and> expectedToken \<noteq> [] \<and> parse_json body = Some (JObj ms) \<and>
        any_member ''auth_req_id'' (unquote_keys ms) = Some v \<and> dec_string [] [v] = Some i \<and> i \<noteq> [])) \<and>
   (case bearer_values hdrs of
      [value] \<Rightarrow> (case cut CHR '' '' value of Some (scheme, token) \<Rightarrow>
                  if token = expectedToken then True else CibaHandlePing hdrs body expectedToken = Inl ping_refused
                | None \<Rightarrow> CibaHandlePing hdrs body expectedToken = Inl ping_refused)
    | _ \<Rightarrow> CibaHandlePing hdrs body expectedToken = Inl ping_refused)"
proof (rule conjI, goal_cases)
  case 1
  show ?case
    by (auto simp: CibaHandlePing_def constantTimeEquals_def rawString_def split: list.split option.split json.split)
next
  case 2
  show ?case
    by (auto simp: CibaHandlePing_def constantTimeEquals_def split: list.split option.split)
qed

end
