(* ===== verification/Registration.thy ===== *)
theory Registration
  imports Device_Grant Json_Html
begin

text \<open>
  \<open>oidc_registration.go\<close>: reading, updating and deleting a client registration at the URI the server issued for it. A
  \<open>map[string]json.RawMessage\<close> is the list of its entries, one per key. The base URL of the client is an
  argument. The requests go out on \<open>bareHTTPClient\<close>, which has no cookie jar and follows no redirect.
\<close>

section \<open>The members of a registration\<close>

type_synonym raw_map = "(bytes \<times> json) list"

definition takeRegistrationString :: "bytes \<Rightarrow> raw_map \<Rightarrow> (bytes option \<times> bool) \<times> raw_map" where
  "takeRegistrationString key members =
     (case map_of members key of
        None \<Rightarrow> ((None, True), members)
      | Some JNull \<Rightarrow> ((None, True), AList.delete key members)
      | Some raw \<Rightarrow>
        (case dec_string [] [raw] of
           None \<Rightarrow> ((None, False), members)
         | Some s \<Rightarrow> ((Some s, True), AList.delete key members)))"

definition takeRegistrationInt :: "bytes \<Rightarrow> raw_map \<Rightarrow> int option \<times> raw_map" where
  "takeRegistrationInt key members =
     (case map_of members key of
        None \<Rightarrow> (None, members)
      | Some JNull \<Rightarrow> (None, AList.delete key members)
      | Some raw \<Rightarrow>
        (case dec_int64 0 [raw] of None \<Rightarrow> (None, members) | Some n \<Rightarrow> (Some n, AList.delete key members)))"

fun strings_of :: "json list \<Rightarrow> bytes list option" where
  "strings_of [] = Some []"
| "strings_of (v # vs) = Option.bind (dec_string [] [v]) (\<lambda>s. map_option ((#) s) (strings_of vs))"

definition takeRegistrationList :: "bytes \<Rightarrow> raw_map \<Rightarrow> bytes list option \<times> raw_map" where
  "takeRegistrationList key members =
     (case map_of members key of
        None \<Rightarrow> (None, members)
      | Some JNull \<Rightarrow> (None, AList.delete key members)
      | Some (JArr items) \<Rightarrow>
        (case strings_of items of None \<Rightarrow> (None, members) | Some out \<Rightarrow> (Some out, AList.delete key members))
      | Some _ \<Rightarrow> (None, members))"

definition takeRegistrationRaw :: "bytes \<Rightarrow> raw_map \<Rightarrow> json option \<times> raw_map" where
  "takeRegistrationRaw key members =
     (case map_of members key of
        None \<Rightarrow> (None, members)
      | Some raw \<Rightarrow> (if raw = JNull then None else Some raw, AList.delete key members))"

text \<open>A secret that is absent, or was no string, is the empty one.\<close>

definition takeSecret :: "bytes \<Rightarrow> raw_map \<Rightarrow> bytes \<times> raw_map" where
  "takeSecret key members =
     (case takeRegistrationString key members of ((s, ok), rest) \<Rightarrow> (case s of None \<Rightarrow> [] | Some x \<Rightarrow> x, rest))"

record ClientRegistration =
  cg_ClientID :: bytes
  cg_ClientIDIssuedAt :: "int option"
  cg_ClientName :: "bytes option"
  cg_RedirectURIs :: "bytes list option"
  cg_GrantTypes :: "bytes list option"
  cg_ResponseTypes :: "bytes list option"
  cg_TokenEndpointAuthMethod :: "bytes option"
  cg_Scope :: "bytes option"
  cg_RegistrationClientURI :: "bytes option"
  cg_ClientSecretExpiresAt :: "int option"
  cg_JWKS :: "json option"
  cg_JWKSURI :: "bytes option"
  cg_ClientSecret :: bytes
  cg_RegistrationAccessToken :: bytes
  cg_Extra :: raw_map

definition take_str :: "bytes \<Rightarrow> raw_map \<Rightarrow> bytes option \<times> raw_map" where
  "take_str key members = (case takeRegistrationString key members of ((s, ok), rest) \<Rightarrow> (s, rest))"

definition registration_of :: "raw_map \<Rightarrow> ClientRegistration option" where
  "registration_of members =
     (case takeRegistrationString ''client_id'' members of
        ((Some clientID, ok), m1) \<Rightarrow>
          (let (issued, m2) = takeRegistrationInt ''client_id_issued_at'' m1;
               (name, m3) = take_str ''client_name'' m2;
               (redirects, m4) = takeRegistrationList ''redirect_uris'' m3;
               (grants, m5) = takeRegistrationList ''grant_types'' m4;
               (responses, m6) = takeRegistrationList ''response_types'' m5;
               (auth, m7) = take_str ''token_endpoint_auth_method'' m6;
               (scope, m8) = take_str ''scope'' m7;
               (uri, m9) = take_str ''registration_client_uri'' m8;
               (expires, m10) = takeRegistrationInt ''client_secret_expires_at'' m9;
               (jwksuri, m11) = take_str ''jwks_uri'' m10;
               (jwks, m12) = takeRegistrationRaw ''jwks'' m11;
               (secret, m13) = takeSecret ''client_secret'' m12;
               (token, m14) = takeSecret ''registration_access_token'' m13
           in Some \<lparr>cg_ClientID = clientID, cg_ClientIDIssuedAt = issued, cg_ClientName = name, cg_RedirectURIs = redirects,
                cg_GrantTypes = grants, cg_ResponseTypes = responses, cg_TokenEndpointAuthMethod = auth, cg_Scope = scope,
                cg_RegistrationClientURI = uri, cg_ClientSecretExpiresAt = expires, cg_JWKS = jwks, cg_JWKSURI = jwksuri,
                cg_ClientSecret = secret, cg_RegistrationAccessToken = token, cg_Extra = m14\<rparr>)
      | _ \<Rightarrow> None)"

text \<open>\<open>UnmarshalJSON\<close>, on the first value of a response.\<close>

definition decode_registration :: "bytes \<Rightarrow> ClientRegistration option" where
  "decode_registration body =
     Option.bind (decode_first body) (\<lambda>j. Option.bind (raw_map_of j) (\<lambda>m. Option.bind m registration_of))"

definition putRawString :: "bytes \<Rightarrow> bytes option \<Rightarrow> raw_map \<Rightarrow> raw_map" where
  "putRawString key v body = (case v of None \<Rightarrow> body | Some s \<Rightarrow> AList.update key (json_string True s) body)"

definition putRawInt :: "bytes \<Rightarrow> int option \<Rightarrow> raw_map \<Rightarrow> raw_map" where
  "putRawInt key v body = (case v of None \<Rightarrow> body | Some n \<Rightarrow> AList.update key (JNum (show_int n)) body)"

definition putRawList :: "bytes \<Rightarrow> bytes list option \<Rightarrow> raw_map \<Rightarrow> raw_map" where
  "putRawList key v body = (case v of None \<Rightarrow> body | Some items \<Rightarrow> AList.update key (JArr (map (json_string True) items)) body)"

definition putRaw :: "bytes \<Rightarrow> json option \<Rightarrow> raw_map \<Rightarrow> raw_map" where
  "putRaw key v body = (case v of None \<Rightarrow> body | Some j \<Rightarrow> AList.update key j body)"

definition wireMembers :: "ClientRegistration \<Rightarrow> raw_map" where
  "wireMembers r =
     putRawString ''jwks_uri'' (cg_JWKSURI r)
       (putRaw ''jwks'' (cg_JWKS r)
         (putRawString ''scope'' (cg_Scope r)
           (putRawString ''token_endpoint_auth_method'' (cg_TokenEndpointAuthMethod r)
             (putRawList ''response_types'' (cg_ResponseTypes r)
               (putRawList ''grant_types'' (cg_GrantTypes r)
                 (putRawList ''redirect_uris'' (cg_RedirectURIs r)
                   (putRawString ''client_name'' (cg_ClientName r)
                     (putRawString ''client_id'' (Some (cg_ClientID r)) (cg_Extra r)))))))))"

definition serverStatedRegistrationMembers :: "bytes list" where
  "serverStatedRegistrationMembers = [''registration_access_token'', ''registration_client_uri'',
     ''client_secret_expires_at'', ''client_id_issued_at'', ''client_secret'']"

definition updateBody :: "ClientRegistration \<Rightarrow> raw_map" where
  "updateBody r =
     putRawString ''client_id'' (Some (cg_ClientID r)) (fold AList.delete serverStatedRegistrationMembers (wireMembers r))"

definition redacted_member :: json where "redacted_member = JStr ''[SENSITIVE]''"

text \<open>\<open>MarshalJSON\<close>, for logs: the secrets are replaced.\<close>

definition marshal_registration :: "ClientRegistration \<Rightarrow> raw_map" where
  "marshal_registration r =
     putRawInt ''client_secret_expires_at'' (cg_ClientSecretExpiresAt r)
       (putRawString ''registration_client_uri'' (cg_RegistrationClientURI r)
         (putRawInt ''client_id_issued_at'' (cg_ClientIDIssuedAt r)
           ((if cg_RegistrationAccessToken r \<noteq> [] then AList.update ''registration_access_token'' redacted_member else (\<lambda>b. b))
             ((if cg_ClientSecret r \<noteq> [] then AList.update ''client_secret'' redacted_member else (\<lambda>b. b)) (wireMembers r)))))"

section \<open>The origin of the registration URI\<close>

definition isLoopbackHost :: "bytes \<Rightarrow> bool" where
  "isLoopbackHost host \<longleftrightarrow> host = ''localhost'' \<or> host = ''127.0.0.1'' \<or> host = ''::1''"

definition originOf :: "url \<Rightarrow> bytes \<times> bytes \<times> bytes" where
  "originOf u =
     (let scheme = to_lower (u_scheme u); port = u_port u in
      (scheme, to_lower (u_hostname u),
       if port \<noteq> [] then port else if scheme = ''https'' then ''443'' else if scheme = ''http'' then ''80'' else []))"

definition checkSameOrigin :: "(bytes \<Rightarrow> url option) \<Rightarrow> url \<Rightarrow> bytes \<Rightarrow> bytes \<Rightarrow> bytes \<Rightarrow> go_error + url" where
  "checkSameOrigin parse base operation field rawURI =
     (case parse rawURI of
        None \<Rightarrow> Inl (localRefusal operation field ''not an absolute URL'')
      | Some parsed \<Rightarrow>
        if u_scheme parsed = [] \<or> u_host parsed = [] then Inl (localRefusal operation field ''not an absolute URL'')
        else
          (case (originOf parsed, originOf base) of
             ((scheme, host, port), (baseScheme, baseHost, basePort)) \<Rightarrow>
               if scheme \<noteq> ''https'' \<and> scheme \<noteq> ''http'' then Inl (localRefusal operation field ''must be an https URL'')
               else if scheme \<noteq> baseScheme \<or> host \<noteq> baseHost \<or> port \<noteq> basePort
               then Inl (localRefusal operation field ''not at the configured AXIAM origin: scheme, host and port must match the client's base URL'')
               else if scheme = ''http'' \<and> \<not> isLoopbackHost baseHost
               then Inl (localRefusal operation field ''must be https unless the base URL is http on a loopback host'')
               else Inr parsed))"

section \<open>The calls\<close>

text \<open>\<open>bareHTTPClient().Do\<close>: no cookies, no decoration, nothing captured.\<close>

definition bare_do :: "('ks, 'key, 'w) oidc_env \<Rightarrow> http_request \<Rightarrow> ('ks, 'key, 'w) oidc_world \<Rightarrow> (bytes + http_reply) \<times> ('ks, 'key, 'w) oidc_world" where
  "bare_do env req x = (case oe_send env req [] (ow_ext x) of (r, w) \<Rightarrow> (r, x\<lparr>ow_ext := w\<rparr>))"

definition registration_request :: "bytes \<Rightarrow> url \<Rightarrow> bytes \<Rightarrow> bytes option \<Rightarrow> http_request" where
  "registration_request method target token body =
     (let req1 = set_header ''Authorization'' (''Bearer '' @ token)
            (newAbsoluteRequest method target (case body of None \<Rightarrow> [] | Some b \<Rightarrow> b));
          req2 = (if method \<noteq> ''DELETE'' then set_header ''Accept'' ''application/json'' req1 else req1)
      in if body \<noteq> None then set_header ''Content-Type'' ''application/json'' req2 else req2)"

text \<open>The registration, or the status (0 when there is none to judge by) and the error; a deletion has no registration.\<close>

definition sendRegistration ::
  "('ks, 'key, 'w) oidc_env \<Rightarrow> bytes \<Rightarrow> bytes \<Rightarrow> url \<Rightarrow> bytes \<Rightarrow> bytes option \<Rightarrow> ('ks, 'key, 'w) oidc_world \<Rightarrow>
   ((int \<times> go_error) + ClientRegistration option) \<times> ('ks, 'key, 'w) oidc_world" where
  "sendRegistration env operation method target token body x =
     (case bare_do env (registration_request method target token body) x of
        (Inl e, x1) \<Rightarrow> (Inl (0, newNetworkError (operation @ '': request failed'') None None), x1)
      | (Inr resp, x1) \<Rightarrow>
        (if rs_status resp < 200 \<or> rs_status resp \<ge> 300
         then Inl (rs_status resp, oauth2ErrorAnyStatus (oe_until env) operation resp)
         else if method = ''DELETE'' then Inr None
         else case decode_registration (rs_body resp) of
             None \<Rightarrow> Inl (0, NetworkError (operation @ '': could not decode the response: ''))
           | Some r \<Rightarrow> Inr (Some r), x1))"

definition drop_status :: "(int \<times> go_error) + 'a \<Rightarrow> go_error + 'a" where
  "drop_status r = (case r of Inl (status, e) \<Rightarrow> Inl e | Inr a \<Rightarrow> Inr a)"

definition registration_guard ::
  "('ks, 'key, 'w) oidc_env \<Rightarrow> url \<Rightarrow> bytes \<Rightarrow> bytes \<Rightarrow> ('ks, 'key, 'w) oidc_world \<Rightarrow> go_error + url" where
  "registration_guard env base operation uri x =
     (case ensureOpen (ow_session x) of
        Some e \<Rightarrow> Inl e
      | None \<Rightarrow> checkSameOrigin (oe_parse_url env) base operation ''registration_client_uri'' uri)"

type_synonym read_vars = "ClientRegistration option \<times> go_error option"

definition read_op ::
  "('ks, 'key, 'w) oidc_env \<Rightarrow> url \<Rightarrow> bytes \<Rightarrow> nat \<Rightarrow> read_vars \<times> ('ks, 'key, 'w) oidc_world \<Rightarrow>
   go_error option \<times> (read_vars \<times> ('ks, 'key, 'w) oidc_world)" where
  "read_op env target token attempt vx =
     (case vx of ((result, decisive), x) \<Rightarrow>
      (case sendRegistration env ''read_client_registration'' ''GET'' target token None x of
         (Inr got, x1) \<Rightarrow> (None, ((got, decisive), x1))
       | (Inl (status, err), x1) \<Rightarrow>
           if status \<noteq> 0 \<and> \<not> statusIsRetryable status
           then (Some errStopRetry, ((result, Some err), x1))
           else (Some err, ((result, decisive), x1))))"

definition ReadClientRegistration ::
  "('ks, 'key, 'w) oidc_env \<Rightarrow> ('ks, 'key, 'w) oidc_world retry_client \<Rightarrow> url \<Rightarrow> bytes \<Rightarrow> bytes \<Rightarrow>
   (('ks, 'key, 'w) oidc_world, ClientRegistration option) act" where
  "ReadClientRegistration env rc base uri token x =
     (case registration_guard env base ''read_client_registration'' uri x of
        Inl e \<Rightarrow> (Inl e, x)
      | Inr target \<Rightarrow>
        (case retryReadOnly (lift_client rc) ''read_client_registration'' (read_op env target token) ((None, None), x) of
           ((retryErr, ((result, decisive), x1)), acts) \<Rightarrow>
             (case decisive of
                Some e \<Rightarrow> (Inl e, x1)
              | None \<Rightarrow> (case retryErr of Some e \<Rightarrow> (Inl e, x1) | None \<Rightarrow> (Inr result, x1)))))"

definition UpdateClientRegistration ::
  "('ks, 'key, 'w) oidc_env \<Rightarrow> url \<Rightarrow> bytes \<Rightarrow> bytes \<Rightarrow> ClientRegistration \<Rightarrow> (('ks, 'key, 'w) oidc_world, ClientRegistration option) act" where
  "UpdateClientRegistration env base uri token metadata x =
     (case registration_guard env base ''update_client_registration'' uri x of
        Inl e \<Rightarrow> (Inl e, x)
      | Inr target \<Rightarrow>
        (case sendRegistration env ''update_client_registration'' ''PUT'' target token (Some (marshal_raw_map (updateBody metadata))) x of
           (r, x1) \<Rightarrow> (drop_status r, x1)))"

definition DeleteClientRegistration ::
  "('ks, 'key, 'w) oidc_env \<Rightarrow> url \<Rightarrow> bytes \<Rightarrow> bytes \<Rightarrow> (('ks, 'key, 'w) oidc_world, ClientRegistration option) act" where
  "DeleteClientRegistration env base uri token x =
     (case registration_guard env base ''delete_client_registration'' uri x of
        Inl e \<Rightarrow> (Inl e, x)
      | Inr target \<Rightarrow>
        (case sendRegistration env ''delete_client_registration'' ''DELETE'' target token None x of
           (r, x1) \<Rightarrow> (drop_status r, x1)))"

section \<open>What a response leaves, and what an update sends\<close>

text \<open>Taking a member: its value, and what stays under its name when it does not have the expected shape.\<close>

definition taken :: "(json \<Rightarrow> 'a option) \<Rightarrow> json option \<Rightarrow> 'a option" where
  "taken parse v = (case v of None \<Rightarrow> None | Some j \<Rightarrow> if j = JNull then None else parse j)"

definition left_over :: "(json \<Rightarrow> 'a option) \<Rightarrow> json option \<Rightarrow> json option" where
  "left_over parse v = (case v of None \<Rightarrow> None | Some j \<Rightarrow> if j = JNull \<or> parse j \<noteq> None then None else Some j)"

definition string_value :: "json \<Rightarrow> bytes option" where "string_value v = dec_string [] [v]"
definition int_value :: "json \<Rightarrow> int option" where "int_value v = dec_int64 0 [v]"

definition list_value :: "json \<Rightarrow> bytes list option" where
  "list_value v = (case v of JArr items \<Rightarrow> strings_of items | _ \<Rightarrow> None)"

lemma take_string:
  "fst (fst (takeRegistrationString key m)) = taken string_value (map_of m key)"
  "map_of (snd (takeRegistrationString key m)) k = (if k = key then left_over string_value (map_of m key) else map_of m k)"
  by (auto simp: takeRegistrationString_def taken_def left_over_def string_value_def split: option.split json.split)

lemma take_str:
  "fst (take_str key m) = taken string_value (map_of m key)"
  "map_of (snd (take_str key m)) k = (if k = key then left_over string_value (map_of m key) else map_of m k)"
  by (simp_all add: take_str_def case_prod_unfold take_string)

lemma take_int:
  "fst (takeRegistrationInt key m) = taken int_value (map_of m key)"
  "map_of (snd (takeRegistrationInt key m)) k = (if k = key then left_over int_value (map_of m key) else map_of m k)"
  by (auto simp: takeRegistrationInt_def taken_def left_over_def int_value_def split: option.split json.split)

lemma take_list:
  "fst (takeRegistrationList key m) = taken list_value (map_of m key)"
  "map_of (snd (takeRegistrationList key m)) k = (if k = key then left_over list_value (map_of m key) else map_of m k)"
  by (auto simp: takeRegistrationList_def taken_def left_over_def list_value_def split: option.split json.split)

lemma take_raw:
  "fst (takeRegistrationRaw key m) = taken Some (map_of m key)"
  "map_of (snd (takeRegistrationRaw key m)) k = (if k = key then left_over Some (map_of m key) else map_of m k)"
  by (auto simp: takeRegistrationRaw_def taken_def left_over_def split: option.split)

lemma take_secret:
  "map_of (snd (takeSecret key m)) k = (if k = key then left_over string_value (map_of m key) else map_of m k)"
  by (simp add: takeSecret_def case_prod_unfold take_string)

lemmas take_simps = take_string take_str take_int take_list take_raw take_secret

definition string_members :: "bytes list" where
  "string_members = [''client_id'', ''client_name'', ''token_endpoint_auth_method'', ''scope'', ''jwks_uri'']"

definition list_members :: "bytes list" where
  "list_members = [''redirect_uris'', ''grant_types'', ''response_types'']"

lemma registration_fields:
  assumes "registration_of m = Some r"
  shows "Some (cg_ClientID r) = taken string_value (map_of m ''client_id'')"
    "cg_ClientName r = taken string_value (map_of m ''client_name'')"
    "cg_TokenEndpointAuthMethod r = taken string_value (map_of m ''token_endpoint_auth_method'')"
    "cg_Scope r = taken string_value (map_of m ''scope'')"
    "cg_JWKSURI r = taken string_value (map_of m ''jwks_uri'')"
    "cg_RedirectURIs r = taken list_value (map_of m ''redirect_uris'')"
    "cg_GrantTypes r = taken list_value (map_of m ''grant_types'')"
    "cg_ResponseTypes r = taken list_value (map_of m ''response_types'')"
    "cg_JWKS r = taken Some (map_of m ''jwks'')"
    "map_of (cg_Extra r) k =
      (if k \<in> set string_members \<union> {''registration_client_uri'', ''client_secret'', ''registration_access_token''} then left_over string_value (map_of m k)
       else if k \<in> set list_members then left_over list_value (map_of m k)
       else if k \<in> {''client_id_issued_at'', ''client_secret_expires_at''} then left_over int_value (map_of m k)
       else if k = ''jwks'' then left_over Some (map_of m k)
       else map_of m k)"
proof -
  obtain clientID where c: "fst (fst (takeRegistrationString ''client_id'' m)) = Some clientID"
    using assms by (auto simp: registration_of_def split: prod.splits option.splits)
  note unf = assms [unfolded registration_of_def case_prod_unfold Let_def c option.case option.inject]
  have r: "r = (let m1 = snd (takeRegistrationString ''client_id'' m);
       m2 = snd (takeRegistrationInt ''client_id_issued_at'' m1); m3 = snd (take_str ''client_name'' m2);
       m4 = snd (takeRegistrationList ''redirect_uris'' m3); m5 = snd (takeRegistrationList ''grant_types'' m4);
       m6 = snd (takeRegistrationList ''response_types'' m5); m7 = snd (take_str ''token_endpoint_auth_method'' m6);
       m8 = snd (take_str ''scope'' m7); m9 = snd (take_str ''registration_client_uri'' m8);
       m10 = snd (takeRegistrationInt ''client_secret_expires_at'' m9); m11 = snd (take_str ''jwks_uri'' m10);
       m12 = snd (takeRegistrationRaw ''jwks'' m11); m13 = snd (takeSecret ''client_secret'' m12)
     in \<lparr>cg_ClientID = clientID, cg_ClientIDIssuedAt = fst (takeRegistrationInt ''client_id_issued_at'' m1),
         cg_ClientName = fst (take_str ''client_name'' m2), cg_RedirectURIs = fst (takeRegistrationList ''redirect_uris'' m3),
         cg_GrantTypes = fst (takeRegistrationList ''grant_types'' m4), cg_ResponseTypes = fst (takeRegistrationList ''response_types'' m5),
         cg_TokenEndpointAuthMethod = fst (take_str ''token_endpoint_auth_method'' m6), cg_Scope = fst (take_str ''scope'' m7),
         cg_RegistrationClientURI = fst (take_str ''registration_client_uri'' m8),
         cg_ClientSecretExpiresAt = fst (takeRegistrationInt ''client_secret_expires_at'' m9),
         cg_JWKS = fst (takeRegistrationRaw ''jwks'' m11), cg_JWKSURI = fst (take_str ''jwks_uri'' m10),
         cg_ClientSecret = fst (takeSecret ''client_secret'' m12), cg_RegistrationAccessToken = fst (takeSecret ''registration_access_token'' m13),
         cg_Extra = snd (takeSecret ''registration_access_token'' m13)\<rparr>)"
    unfolding Let_def by (rule unf [symmetric])
  show "Some (cg_ClientID r) = taken string_value (map_of m ''client_id'')"
    using c by (simp add: r Let_def take_simps)
  show "cg_ClientName r = taken string_value (map_of m ''client_name'')"
    "cg_TokenEndpointAuthMethod r = taken string_value (map_of m ''token_endpoint_auth_method'')"
    "cg_Scope r = taken string_value (map_of m ''scope'')"
    "cg_JWKSURI r = taken string_value (map_of m ''jwks_uri'')"
    "cg_RedirectURIs r = taken list_value (map_of m ''redirect_uris'')"
    "cg_GrantTypes r = taken list_value (map_of m ''grant_types'')"
    "cg_ResponseTypes r = taken list_value (map_of m ''response_types'')"
    "cg_JWKS r = taken Some (map_of m ''jwks'')"
    by (simp_all add: r Let_def take_simps)
  show "map_of (cg_Extra r) k =
      (if k \<in> set string_members \<union> {''registration_client_uri'', ''client_secret'', ''registration_access_token''} then left_over string_value (map_of m k)
       else if k \<in> set list_members then left_over list_value (map_of m k)
       else if k \<in> {''client_id_issued_at'', ''client_secret_expires_at''} then left_over int_value (map_of m k)
       else if k = ''jwks'' then left_over Some (map_of m k)
       else map_of m k)"
    by (auto simp: r Let_def take_simps string_members_def list_members_def)
qed

lemma put_string_lookup: "map_of (putRawString key v b) k = (if k = key \<and> v \<noteq> None then map_option (json_string True) v else map_of b k)"
  by (auto simp: putRawString_def split: option.split)

lemma put_list_lookup: "map_of (putRawList key v b) k =
    (if k = key \<and> v \<noteq> None then map_option (\<lambda>xs. JArr (map (json_string True) xs)) v else map_of b k)"
  by (auto simp: putRawList_def split: option.split)

lemma put_raw_lookup: "map_of (putRaw key v b) k = (if k = key \<and> v \<noteq> None then v else map_of b k)"
  by (auto simp: putRaw_def split: option.split)

lemma fold_delete_lookup: "map_of (fold AList.delete ks b) k = (if k \<in> set ks then None else map_of b k)"
  by (induction ks arbitrary: b) auto

definition resent :: "(json \<Rightarrow> 'a option) \<Rightarrow> ('a \<Rightarrow> json) \<Rightarrow> json option \<Rightarrow> json option" where
  "resent parse render v =
     (case v of None \<Rightarrow> None | Some j \<Rightarrow> if j = JNull then None else (case parse j of None \<Rightarrow> Some j | Some a \<Rightarrow> Some (render a)))"

lemma resent_taken:
  "(if taken parse v \<noteq> None then map_option render (taken parse v) else left_over parse v) = resent parse render v"
  by (auto simp: taken_def left_over_def resent_def split: option.split)

lemma update_body_lookup:
  assumes "registration_of m = Some r"
  shows "map_of (updateBody r) k =
    (if k \<in> set serverStatedRegistrationMembers then None
     else if k \<in> set string_members then resent string_value (json_string True) (map_of m k)
     else if k \<in> set list_members then resent list_value (\<lambda>xs. JArr (map (json_string True) xs)) (map_of m k)
     else if k = ''jwks'' then (if map_of m k = Some JNull then None else map_of m k)
     else map_of m k)"
proof -
  note f = registration_fields [OF assms]
  have id: "taken string_value (map_of m ''client_id'') = Some (cg_ClientID r)" using f(1) by simp
  note look = put_string_lookup put_list_lookup put_raw_lookup fold_delete_lookup f(2-9)
  have rest: "map_of (wireMembers r) k =
     (if k \<in> set string_members then resent string_value (json_string True) (map_of m k)
      else if k \<in> set list_members then resent list_value (\<lambda>xs. JArr (map (json_string True) xs)) (map_of m k)
      else if k = ''jwks'' then (if map_of m k = Some JNull then None else map_of m k)
      else map_of (cg_Extra r) k)" for k
  proof -
    consider (str) "k \<in> set string_members" | (lst) "k \<in> set list_members" | (key) "k = ''jwks''"
      | (other) "k \<notin> set string_members" "k \<notin> set list_members" "k \<noteq> ''jwks''"
      by blast
    then show ?thesis
    proof cases
      case str
      then have "k = ''client_id'' \<or> k = ''client_name'' \<or> k = ''token_endpoint_auth_method'' \<or> k = ''scope'' \<or> k = ''jwks_uri''"
        by (simp only: string_members_def list.set insert_iff empty_iff simp_thms)
      then show ?thesis
        by (elim disjE) (simp_all add: wireMembers_def look id f(10) string_members_def flip: resent_taken)
    next
      case lst
      then have "k = ''redirect_uris'' \<or> k = ''grant_types'' \<or> k = ''response_types''"
        by (simp only: list_members_def list.set insert_iff empty_iff simp_thms)
      then show ?thesis
        by (elim disjE) (simp_all add: wireMembers_def look f(10) string_members_def list_members_def flip: resent_taken)
    next
      case key
      then show ?thesis
        by (simp add: wireMembers_def look f(10) string_members_def list_members_def taken_def left_over_def split: option.split)
    next
      case other
      then show ?thesis by (simp add: wireMembers_def look string_members_def list_members_def)
    qed
  qed
  show ?thesis
  proof (cases "k = ''client_id''")
    case True
    then show ?thesis
      by (simp add: updateBody_def put_string_lookup serverStatedRegistrationMembers_def string_members_def id flip: resent_taken)
  next
    case False
    then have "map_of (updateBody r) k = (if k \<in> set serverStatedRegistrationMembers then None else map_of (wireMembers r) k)"
      by (simp add: updateBody_def put_string_lookup fold_delete_lookup)
    then show ?thesis
      by (simp add: rest f(10) serverStatedRegistrationMembers_def)
  qed
qed

lemma strings_of_rendered: "strings_of items = Some xs \<Longrightarrow> strings_of (map (json_string True) xs) = Some xs"
proof (induction items arbitrary: xs)
  case (Cons v vs)
  then obtain s ys where *: "dec_string [] [v] = Some s" "strings_of vs = Some ys" "xs = s # ys"
    by (auto simp: bind_eq_Some_conv)
  moreover from *(1) have "valid_utf8 s" by (rule dec_string_valid) simp
  ultimately show ?case using Cons.IH by simp
qed simp

lemma string_value_valid: "string_value v = Some s \<Longrightarrow> valid_utf8 s"
  unfolding string_value_def by (drule dec_string_valid) simp_all

lemma string_value_rendered: "string_value v = Some s \<Longrightarrow> string_value (json_string True s) = Some s"
  by (frule string_value_valid) (simp add: string_value_def)

section \<open>Properties\<close>

text \<open>
  (C1) An update built from a response sends the registration back as the server gave it: nothing the server states
  itself, members it named as null left out, every member of a known string or list type with the same value,
  and all others, also those of an unexpected shape and those the SDK does not know, byte for byte.
\<close>

theorem update_resends_response:
  "case registration_of m of None \<Rightarrow> True
   | Some r \<Rightarrow>
     (let sent = map_of (updateBody r) k in
      if k \<in> set serverStatedRegistrationMembers then sent = None
      else if k \<in> set string_members \<union> set list_members \<union> {''jwks''} then
        (case map_of m k of
           None \<Rightarrow> sent = None
         | Some v \<Rightarrow> if v = JNull then sent = None
                     else case sent of None \<Rightarrow> False
                       | Some v' \<Rightarrow> (if k \<in> set string_members then string_value v' = string_value v
                                    else if k \<in> set list_members then list_value v' = list_value v else v' = v))
      else sent = map_of m k)"
proof (cases "registration_of m")
  case (Some r)
  have lists: "k \<in> set list_members \<Longrightarrow> k \<notin> set string_members" "''jwks'' \<notin> set string_members" "''jwks'' \<notin> set list_members"
    by (auto simp: list_members_def string_members_def)
  have "list_value (JArr (map (json_string True) xs)) = Some xs" if "list_value v = Some xs" for v xs
    using that strings_of_rendered by (auto simp: list_value_def split: json.splits)
  then show ?thesis
    using lists string_value_rendered
    by (auto simp: Some update_body_lookup [OF Some] Let_def resent_def split: option.split)
qed simp

text \<open>
  (C2) A registration token goes nowhere but the client's own origin: the URI it is sent to is absolute, has the scheme,
  host and port of the base URL, and is https unless the base URL is http on a loopback host; nothing is sent
  on a closed client or for another URI.
\<close>

theorem registration_target:
  "(registration_guard env base operation uri x = Inr target \<longleftrightarrow>
      \<not> cs_closed (ow_session x) \<and> oe_parse_url env uri = Some target \<and> u_scheme target \<noteq> [] \<and> u_host target \<noteq> [] \<and>
      originOf target = originOf base \<and>
      (case originOf target of (scheme, host, port) \<Rightarrow> scheme = ''https'' \<or> scheme = ''http'' \<and> isLoopbackHost host)) \<and>
   (case registration_guard env base ''read_client_registration'' uri x of
      Inl e \<Rightarrow> ReadClientRegistration env rc base uri token x = (Inl e, x) | Inr t \<Rightarrow> True) \<and>
   (case registration_guard env base ''update_client_registration'' uri x of
      Inl e \<Rightarrow> UpdateClientRegistration env base uri token r x = (Inl e, x)
    | Inr t \<Rightarrow>
        (case oe_send env (registration_request ''PUT'' t token (Some (marshal_raw_map (updateBody r)))) [] (ow_ext x) of
           (reply, w) \<Rightarrow> snd (UpdateClientRegistration env base uri token r x) = x\<lparr>ow_ext := w\<rparr>)) \<and>
   (case registration_guard env base ''delete_client_registration'' uri x of
      Inl e \<Rightarrow> DeleteClientRegistration env base uri token x = (Inl e, x)
    | Inr t \<Rightarrow>
        (case oe_send env (registration_request ''DELETE'' t token None) [] (ow_ext x) of
           (reply, w) \<Rightarrow> snd (DeleteClientRegistration env base uri token x) = x\<lparr>ow_ext := w\<rparr>))"
proof (intro conjI, goal_cases)
  case 1
  show ?case
    by (auto simp: registration_guard_def ensureOpen_def checkSameOrigin_def split: option.splits prod.splits if_splits)
next
  case 2
  show ?case by (simp add: ReadClientRegistration_def split: sum.split)
next
  case 3
  show ?case
    by (auto simp: UpdateClientRegistration_def sendRegistration_def bare_do_def split: sum.split prod.split)
next
  case 4
  show ?case
    by (auto simp: DeleteClientRegistration_def sendRegistration_def bare_do_def split: sum.split prod.split)
qed

end
