(* ===== verification/Uma.thy ===== *)
theory Uma
  imports Oidc_Tokens Json_Html
begin

text \<open>
  \<open>oidc_uma.go\<close>: the UMA Protection API, the ticket grant, and the challenge header. \<open>strconv.Quote\<close>, the \<open>%q\<close> of
  the header, is an argument.
\<close>

section \<open>Resource sets\<close>

definition umaTicketGrantType :: bytes where "umaTicketGrantType = ''urn:ietf:params:oauth:grant-type:uma-ticket''"
definition umaClaimTokenFormat :: bytes where "umaClaimTokenFormat = ''urn:ietf:params:oauth:token-type:access_token''"
definition umaRregPath :: bytes where "umaRregPath = ''/uma2/rreg/resource_set''"
definition umaPermPath :: bytes where "umaPermPath = ''/uma2/perm''"

record ResourceSet =
  rs_ID :: bytes
  rs_Name :: bytes
  rs_Type :: bytes
  rs_ResourceScopes :: "bytes list"

record RequestedPermission =
  rp_ResourceID :: bytes
  rp_ResourceScopes :: "bytes list option"

definition strings_json :: "bytes list \<Rightarrow> json" where
  "strings_json xs = JArr (map (json_string True) xs)"

text \<open>The body of a registration: no id is sent, and absent scopes are an empty list.\<close>

definition resourceSetToWire :: "ResourceSet \<Rightarrow> json" where
  "resourceSetToWire r =
     JObj ([str_member True ''name'' (rs_Name r)] @ omit_string ''type'' (rs_Type r)
       @ [(''resource_scopes'', strings_json (rs_ResourceScopes r))])"

definition toResourceSet :: "json \<Rightarrow> ResourceSet option" where
  "toResourceSet j =
     Option.bind (struct_members j) (\<lambda>ms.
     let f = (\<lambda>n. field_values [''_id'', ''name'', ''type'', ''resource_scopes''] n ms) in
     Option.bind (dec_string [] (f ''_id'')) (\<lambda>i.
     Option.bind (dec_string [] (f ''name'')) (\<lambda>name.
     Option.bind (dec_string [] (f ''type'')) (\<lambda>typ.
     Option.bind (dec_strings [] (f ''resource_scopes'')) (\<lambda>scopes.
     Some \<lparr>rs_ID = i, rs_Name = name, rs_Type = typ, rs_ResourceScopes = scopes\<rparr>)))))"

definition permission_json :: "RequestedPermission \<Rightarrow> json" where
  "permission_json p =
     JObj [str_member True ''resource_id'' (rp_ResourceID p),
       (''resource_scopes'', case rp_ResourceScopes p of None \<Rightarrow> JNull | Some xs \<Rightarrow> strings_json xs)]"

section \<open>The Protection API\<close>

text \<open>\<open>url.PathEscape\<close>.\<close>

definition path_escape :: "bytes \<Rightarrow> bytes" where
  "path_escape s = concat (map (\<lambda>c. if unreserved c \<or> c \<in> set ''$&+:=@'' then [c]
     else [CHR ''%'', upper_hex (of_char c div 16), upper_hex (of_char c mod 16)]) s)"

definition umaResourcePath :: "bytes \<Rightarrow> bytes" where
  "umaResourcePath i = umaRregPath @ ''/'' @ path_escape i"

text \<open>The reply of a call that succeeded; the callers decode it.\<close>

definition uma_request :: "('ks, 'key, 'w) oidc_env \<Rightarrow> bytes \<Rightarrow> bytes \<Rightarrow> bytes \<Rightarrow> json option \<Rightarrow> http_request" where
  "uma_request env method path pat body =
     set_header ''Authorization'' (''Bearer '' @ pat) (newRequest (oe_client env) method path (map_option print_json body))"

definition umaProtectionRequest ::
  "('ks, 'key, 'w) oidc_env \<Rightarrow> bytes \<Rightarrow> bytes \<Rightarrow> bytes \<Rightarrow> json option \<Rightarrow> (json \<Rightarrow> 'a option) option \<Rightarrow>
   (('ks, 'key, 'w) oidc_world, 'a option) act" where
  "umaProtectionRequest env method path pat body out =
     act_bind (act_lift (if pat = []
         then Inl (AuthError ''the UMA Protection API requires a PAT: a client-credentials token carrying the uma_protection scope'')
         else Inr ())) (\<lambda>_.
     act_bind (oidc_do env (uma_request env method path pat body)) (\<lambda>resp.
     act_lift (if rs_status resp < 200 \<or> rs_status resp \<ge> 300 then Inl (mapErrorResponse (oe_until env) resp)
               else case out of
                   None \<Rightarrow> Inr None
                 | Some decode \<Rightarrow>
                   (case Option.bind (decode_first (rs_body resp)) decode of None \<Rightarrow> Inl deserErr | Some a \<Rightarrow> Inr (Some a)))))"

definition uma_result :: "'a option \<Rightarrow> ('x, 'a) act" where
  "uma_result r = act_lift (case r of None \<Rightarrow> Inl deserErr | Some a \<Rightarrow> Inr a)"

definition UmaRegisterResource where
  "UmaRegisterResource env pat resource =
     act_bind (umaProtectionRequest env ''POST'' umaRregPath pat (Some (resourceSetToWire resource)) (Some toResourceSet)) uma_result"

definition UmaReadResource where
  "UmaReadResource env pat i =
     act_bind (umaProtectionRequest env ''GET'' (umaResourcePath i) pat None (Some toResourceSet)) uma_result"

definition UmaUpdateResource where
  "UmaUpdateResource env pat i resource =
     act_bind (umaProtectionRequest env ''PUT'' (umaResourcePath i) pat (Some (resourceSetToWire resource)) (Some toResourceSet)) uma_result"

definition UmaDeleteResource ::
  "('ks, 'key, 'w) oidc_env \<Rightarrow> bytes \<Rightarrow> bytes \<Rightarrow> (('ks, 'key, 'w) oidc_world, unit option) act" where
  "UmaDeleteResource env pat i = umaProtectionRequest env ''DELETE'' (umaResourcePath i) pat None None"

definition UmaListResources where
  "UmaListResources env pat =
     act_bind (umaProtectionRequest env ''GET'' umaRregPath pat None (Some (\<lambda>j. dec_strings [] [j]))) uma_result"

definition decode_ticket :: "json \<Rightarrow> bytes option" where
  "decode_ticket j = Option.bind (struct_members j) (\<lambda>ms. dec_string [] (field_values [''ticket''] ''ticket'' ms))"

definition UmaRequestTicket where
  "UmaRequestTicket env pat permissions =
     act_bind (umaProtectionRequest env ''POST'' umaPermPath pat (Some (JArr (map permission_json permissions))) (Some decode_ticket)) (\<lambda>r.
     act_bind (uma_result r) (\<lambda>ticket.
     act_lift (if ticket = [] then Inl (NetworkError ''uma request ticket: malformed PermissionTicketResponse (missing ticket)'') else Inr ticket)))"

section \<open>The ticket grant\<close>

record UmaExchangeTicketParams =
  ue_Ticket :: bytes
  ue_ClaimToken :: bytes
  ue_TenantID :: bytes
  ue_Configuration :: "OidcConfiguration option"

record RequestingPartyToken =
  rt_AccessToken :: bytes
  rt_TokenType :: bytes
  rt_ExpiresIn :: int

definition decode_rpt :: "bytes \<Rightarrow> RequestingPartyToken option" where
  "decode_rpt body =
     Option.bind (stream_members body) (\<lambda>ms.
     let f = (\<lambda>n. field_values [''access_token'', ''token_type'', ''expires_in''] n ms) in
     Option.bind (dec_string [] (f ''access_token'')) (\<lambda>access.
     Option.bind (dec_string [] (f ''token_type'')) (\<lambda>typ.
     Option.bind (dec_int64 0 (f ''expires_in'')) (\<lambda>expires.
     Some \<lparr>rt_AccessToken = access, rt_TokenType = typ, rt_ExpiresIn = expires\<rparr>))))"

definition mapUmaGrantError :: "http_reply \<Rightarrow> go_error" where
  "mapUmaGrantError resp =
     (case oauth2_error_wire (take 4096 (rs_body resp)) of
        Some (code, desc) \<Rightarrow> protocol_error (code @ '': '' @ desc) code desc 0
      | None \<Rightarrow> errorFromHTTPStatus (rs_status resp) ''uma ticket exchange failed'' (Some (reply_response resp)) None)"

definition postUmaTicketGrant ::
  "('ks, 'key, 'w) oidc_env \<Rightarrow> url \<Rightarrow> form \<Rightarrow> (('ks, 'key, 'w) oidc_world, RequestingPartyToken) act" where
  "postUmaTicketGrant env u f = postOAuth2FormMapped env u f decode_rpt mapUmaGrantError"

definition UmaExchangeTicket ::
  "('ks, 'key, 'w) oidc_env \<Rightarrow> UmaExchangeTicketParams \<Rightarrow> (('ks, 'key, 'w) oidc_world, RequestingPartyToken) act" where
  "UmaExchangeTicket env params =
     act_bind (resolveOidcConfiguration env (ue_Configuration params)) (\<lambda>configuration.
     act_bind (act_lift (requireOidcClientSecret env ''UmaExchangeTicket'')) (\<lambda>secret.
     act_bind (act_lift (if ue_Ticket params = [] then Inl (AuthError ''UmaExchangeTicket requires a ticket'')
         else if ue_ClaimToken params = []
         then Inl (AuthError ''UmaExchangeTicket requires a claim_token naming the requesting party; it is never defaulted'')
         else Inr ())) (\<lambda>_.
     act_bind (act_lift (preferredEndpoint env configuration ma_TokenEndpoint (oc_TokenEndpoint configuration))) (\<lambda>preferred.
     act_bind (act_get (oidcEndpointURL env preferred (ue_TenantID params))) (\<lambda>endpoint.
     postUmaTicketGrant env endpoint
       (form_of [(True, ''grant_type'', umaTicketGrantType), (True, ''ticket'', ue_Ticket params),
          (True, ''claim_token'', ue_ClaimToken params), (True, ''claim_token_format'', umaClaimTokenFormat),
          (True, ''client_id'', oe_clientID env), (True, ''client_secret'', secret)]))))))"

section \<open>The challenge header\<close>

record UmaChallenge =
  uc_Realm :: bytes
  uc_AsURI :: bytes
  uc_Ticket :: bytes

definition trim_quotes :: "bytes \<Rightarrow> bytes" where
  "trim_quotes s = rev (dropWhile (\<lambda>c. c = CHR 0x22) (rev (dropWhile (\<lambda>c. c = CHR 0x22) s)))"

definition challenge_part :: "bytes \<Rightarrow> UmaChallenge \<Rightarrow> UmaChallenge" where
  "challenge_part part c =
     (case cut CHR ''='' part of
        None \<Rightarrow> c
      | Some (key, value) \<Rightarrow>
        (let v = trim_quotes (trim_space value); k = trim_space key in
         if k = ''realm'' then c\<lparr>uc_Realm := v\<rparr> else if k = ''as_uri'' then c\<lparr>uc_AsURI := v\<rparr>
         else if k = ''ticket'' then c\<lparr>uc_Ticket := v\<rparr> else c))"

definition UmaParseChallenge :: "bytes \<Rightarrow> UmaChallenge option" where
  "UmaParseChallenge hdr =
     (let trimmed = trim_space hdr; rest = drop 3 trimmed in
      if \<not> has_prefix trimmed ''UMA'' then None
      else if rest \<noteq> [] \<and> dropWhile (\<lambda>c. c = CHR '' '' \<or> c = CHR 0x09) rest = rest then None
      else Some (fold challenge_part (split_on CHR '','' rest) \<lparr>uc_Realm = [], uc_AsURI = [], uc_Ticket = []\<rparr>))"

definition UmaChallengeHeader :: "(bytes \<Rightarrow> bytes) \<Rightarrow> bytes \<Rightarrow> bytes \<Rightarrow> bytes \<Rightarrow> bytes" where
  "UmaChallengeHeader quote realm asURI ticket =
     ''UMA realm='' @ quote realm @ '', as_uri='' @ quote asURI @ '', ticket='' @ quote ticket"

section \<open>The header reads back\<close>

lemma trim_quotes_quoted:
  assumes "CHR 0x22 \<notin> set v"
  shows "trim_quotes (CHR 0x22 # v @ [CHR 0x22]) = v"
proof (cases "v = []")
  case False
  then have "dropWhile (\<lambda>c. c = CHR 0x22) (CHR 0x22 # v @ [CHR 0x22]) = v @ [CHR 0x22]"
    using assms by (cases v) auto
  moreover have "dropWhile (\<lambda>c. c = CHR 0x22) (rev v) = rev v"
    using assms False by (cases "rev v") (auto simp: rev_eq_Cons_iff)
  ultimately show ?thesis by (simp add: trim_quotes_def)
qed (simp add: trim_quotes_def)

lemma dropWhile_head: "xs \<noteq> [] \<Longrightarrow> \<not> P (hd xs) \<Longrightarrow> dropWhile P xs = xs"
  by (cases xs) auto

lemma trim_space_id: "s \<noteq> [] \<Longrightarrow> \<not> is_space (hd s) \<Longrightarrow> \<not> is_space (last s) \<Longrightarrow> trim_space s = s"
  by (simp add: trim_space_def dropWhile_head hd_rev)

lemma quote_not_space [simp]: "\<not> is_space CHR 0x22"
  by (simp add: is_space_def)

lemma trim_quoted: "trim_space (CHR 0x22 # v @ [CHR 0x22]) = CHR 0x22 # v @ [CHR 0x22]"
  by (rule trim_space_id) auto

lemma cut_here: "c \<notin> set a \<Longrightarrow> cut c (a @ c # b) = Some (a, b)"
  by (induction a) auto

lemma part_value:
  assumes "CHR 0x22 \<notin> set v" "CHR ''='' \<notin> set key"
  shows "challenge_part (key @ ''='' @ CHR 0x22 # v @ [CHR 0x22]) c =
    (let k = trim_space key in
     if k = ''realm'' then c\<lparr>uc_Realm := v\<rparr> else if k = ''as_uri'' then c\<lparr>uc_AsURI := v\<rparr>
     else if k = ''ticket'' then c\<lparr>uc_Ticket := v\<rparr> else c)"
  using cut_here [OF assms(2), of "CHR 0x22 # v @ [CHR 0x22]"] trim_quotes_quoted [OF assms(1)]
  by (simp add: challenge_part_def trim_quoted Let_def)

lemma split_three:
  assumes "CHR '','' \<notin> set a" "CHR '','' \<notin> set b" "CHR '','' \<notin> set c"
  shows "split_on CHR '','' (a @ '','' @ b @ '','' @ c) = [a, b, c]"
  using split_on_join [of "[a, b, c]" "CHR '',''"] assms by simp

text \<open>
  (C1) A challenge reads back: the header made from a realm, an authorization server and a ticket parses to just these
  three, when quoting only puts quotes around them and none holds a quote or a comma.
\<close>

theorem challenge_reads_back:
  assumes "quote realm = CHR 0x22 # realm @ [CHR 0x22]" "quote asURI = CHR 0x22 # asURI @ [CHR 0x22]"
      "quote ticket = CHR 0x22 # ticket @ [CHR 0x22]"
    and "CHR 0x22 \<notin> set (realm @ asURI @ ticket)" "CHR '','' \<notin> set (realm @ asURI @ ticket)"
  shows "UmaParseChallenge (UmaChallengeHeader quote realm asURI ticket) =
    Some \<lparr>uc_Realm = realm, uc_AsURI = asURI, uc_Ticket = ticket\<rparr>"
proof -
  let ?a = "'' realm'' @ ''='' @ CHR 0x22 # realm @ [CHR 0x22]"
  let ?b = "'' as_uri'' @ ''='' @ CHR 0x22 # asURI @ [CHR 0x22]"
  let ?c = "'' ticket'' @ ''='' @ CHR 0x22 # ticket @ [CHR 0x22]"
  have hdr: "UmaChallengeHeader quote realm asURI ticket = ''UMA'' @ ?a @ '','' @ ?b @ '','' @ ?c"
    by (simp add: UmaChallengeHeader_def assms(1-3))
  have trimmed: "trim_space (''UMA'' @ ?a @ '','' @ ?b @ '','' @ ?c) = ''UMA'' @ ?a @ '','' @ ?b @ '','' @ ?c"
    by (rule trim_space_id) (simp_all add: is_space_def)
  have parts: "split_on CHR '','' (?a @ '','' @ ?b @ '','' @ ?c) = [?a, ?b, ?c]"
    by (rule split_three) (use assms(5) in auto)
  have keys: "trim_space '' realm'' = ''realm''" "trim_space '' as_uri'' = ''as_uri''" "trim_space '' ticket'' = ''ticket''"
    by code_simp+
  have sets: "challenge_part ?a u = u\<lparr>uc_Realm := realm\<rparr>" "challenge_part ?b u = u\<lparr>uc_AsURI := asURI\<rparr>"
      "challenge_part ?c u = u\<lparr>uc_Ticket := ticket\<rparr>" for u
    using part_value [of realm "'' realm''" u] part_value [of asURI "'' as_uri''" u] part_value [of ticket "'' ticket''" u] assms(4)
    by (simp_all only: keys Let_def set_append) simp_all
  have "drop 3 (''UMA'' @ ?a @ '','' @ ?b @ '','' @ ?c) = ?a @ '','' @ ?b @ '','' @ ?c" "has_prefix (''UMA'' @ ?a @ '','' @ ?b @ '','' @ ?c) ''UMA''"
    by simp_all
  then show ?thesis
    unfolding hdr UmaParseChallenge_def trimmed Let_def parts
    by (simp only: parts fold_simps id_apply o_apply sets) simp
qed

theorem challenge_reads_back_witness:
  "UmaParseChallenge ''UMA realm=\"photos\", as_uri=\"https://a\", ticket=\"t=1\"'' =
    Some \<lparr>uc_Realm = ''photos'', uc_AsURI = ''https://a'', uc_Ticket = ''t=1''\<rparr>"
  using challenge_reads_back [of "\<lambda>v. CHR 0x22 # v @ [CHR 0x22]" "''photos''" "''https://a''" "''t=1''"]
  by (simp add: UmaChallengeHeader_def)

end
