(* ===== verification/Spec2Isabelle.thy ===== *)
theory Spec2Isabelle
  imports Retry Decision_Memo Refresh_Guard Replay Amqp_Consumer Reactor Authz Dpop Oidc_Flows Ciba Registration Uma
begin

text \<open>
  A model of the AXIAM Go SDK (\<open>src/\<close>), the client library of an identity and access management
  server: a REST client with sessions, authorization checks and OAuth grants, a consumer of signed AMQP
  messages, and a runtime for reactors, handlers that the server asks over AMQP before it acts.

  \<^bold>\<open>The program and its theories.\<close> Each theory models the files it names in its opening text; definitions
  keep the names of the functions and types of the source where HOL allows it.

  \<^item> \<open>Prelude\<close>: machine integers (\<open>time.Duration\<close> and \<open>time.Time\<close> are nanoseconds, wrapped to 64 bits
    where the source computes in \<open>int64\<close>), results as sums, association lists. \<open>Go_Strings\<close>,
    \<open>Go_Time\<close>, \<open>Go_Base64\<close>, \<open>Go_Json\<close>: what the SDK uses of the standard library, strings being lists of bytes.
    \<open>Json_Roundtrip\<close> proves that a printed value parses back and that an escaped string reads
    back; \<open>Json_Fields\<close> is the common layer of every message.
  \<^item> \<open>Errors\<close>: the error values of \<open>errors.go\<close>, \<open>errors.Is\<close>, the status tables, the redaction of headers.
  \<^item> \<open>Retry\<close>, \<open>Decision_Memo\<close>, \<open>Refresh_Guard\<close>: the three mechanisms of the client, each on its own. The
    retry loop runs on a world of any type and lists what it did; the memo is the map and the list
    of the source, refined to a first-in first-out map; the refresh guard is its sequential code and a step
    relation of any number of callers that contend for the mutex.
  \<^item> \<open>Client\<close>, \<open>Session\<close>, \<open>Authz\<close>: \<open>client.go\<close>, \<open>login.go\<close> with \<open>device_auth.go\<close>, and \<open>authz.go\<close>. A session record
    is shared by the handles of a client; every request goes through \<open>doRequest\<close>, which decorates it
    and takes the network as a function; the calls that establish, refresh and end a session are
    steps on the record, and \<open>session_step\<close> is their union. The authorization checks put the memo
    and the retry loop in front of one request.
  \<^item> \<open>Single_Use\<close>, \<open>Replay\<close>: the interface of a store of single-use keys, and its provider, the nonce set
    of \<open>amqp/replay.go\<close>. \<open>Amqp_Hmac\<close> and \<open>Amqp_Consumer\<close>: the signature of a message over its canonical
    form, and what the consumer does with a delivery.
  \<^item> \<open>Reactor_Registry\<close>, \<open>Reactor_Protocol\<close>, \<open>Reactor\<close>: the hookable events, the signed event and reply,
    the handler table, the fate of a delivery, the session and the reconnect loop, and the dialer.

  \<^bold>\<open>Interfaces.\<close> \<open>jittered_backoff\<close> is what the retry loop and the reconnect loop of the reactor rely on,
  interpreted on both backoffs; \<open>decision_cache\<close> is the contract of the memo, interpreted on it;
  \<open>single_use_store\<close> is interpreted on the nonce set, and both the consumer and the reactor get
  their replay guarantees from its facts.

  \<^bold>\<open>What the lemmas show.\<close> The bounds of every backoff and the attempts of the retry loop; that the memo
  answers only with the last decision stored, and when keys collide; mutual exclusion and single flight
  of the refresh guard; that one signed message or event is handled once, up to the exact edges of
  the freshness window; that the bytes under a MAC determine what is accepted, where they do, and where
  they do not; that every delivery is settled once; where credentials may go; which credentials a session
  holds over time; and the divergences between code and comments listed in the manifest.

  \<^bold>\<open>Parameters.\<close> HMAC-SHA256, \<open>uuid.Parse\<close>, TLS and certificates, the HTTP transport, the AMQP
  broker, the user's handlers, clocks, jitter and nonces are arguments of the definitions that use them.
  The JSON parser takes as fuel twice the length of its input and two more, which \<open>parse_print\<close>
  shows to be enough for every printed value; every other recursion is total. Loops that run until
  cancelled (the consumer, the reactor session, the reconnect loop) run over the list of events
  their \<open>select\<close> receives, and have no result when the list ends.

  \<^bold>\<open>Not modelled.\<close> The tails of error texts built with \<open>%v\<close>; cookies of hosts other than the client's;
  the bounded drain at the end of a reactor session; telemetry durations. The OIDC client but for its
  federation sign-in, token verification, webhooks, the middleware and the management reconciliation are not
  modelled yet; the generated management and protobuf code and the gRPC wrappers hold no logic of
  their own.
\<close>

end
